(* ===== verification/Prelude.thy ===== *)
theory Prelude
  imports Main "HOL-Library.Word"
begin

text \<open>
  Shared vocabulary of the development: bytes and Go integers at their width, Go errors and
  panics as values, the result type of fallible code, and the generic facts on lists, words
  and sums that the component theories use.

  A Go \<^verbatim>\<open>byte\<close> is an 8 bit word and a \<^verbatim>\<open>[]byte\<close> a list of them; a \<^verbatim>\<open>string\<close> that is only
  compared and copied is a HOL string, one that is parsed bytewise a byte list. Errors built
  with \<^verbatim>\<open>fmt.Errorf\<close> keep their format string, their printed arguments and the errors they wrap,
  so that \<^verbatim>\<open>errors.Is\<close> can be computed on them. A run-time panic is a failure of its own, never
  confused with an error the caller receives.
\<close>

named_theorems codec_simps \<open>defining equations of the codecs\<close>
named_theorems session_simps \<open>defining equations of the session operations\<close>

type_synonym byte = "8 word"
type_synonym bytes = "byte list"

definition bytes_of :: "string \<Rightarrow> bytes" where
  "bytes_of s = map of_char s"

definition string_of :: "bytes \<Rightarrow> string" where
  "string_of bs = map (\<lambda>b. char_of (unat b)) bs"

lemma bytes_of_string_of [simp]: "bytes_of (string_of bs) = bs"
proof -
  have "(of_char (char_of (unat b)) :: byte) = b" for b :: byte
  proof -
    have "(of_char (char_of (unat b)) :: byte) = of_nat (of_char (char_of (unat b)))"
      by (simp only: of_nat_of_char)
    also have "\<dots> = of_nat (unat b mod 256)" by (simp only: of_char_of)
    also have "unat b mod 256 = unat b"
      using unsigned_less [of b, where ?'a = nat] by (intro mod_less) simp
    finally show ?thesis by simp
  qed
  then show ?thesis by (simp add: bytes_of_def string_of_def comp_def)
qed

lemma string_of_inj: "string_of xs = string_of ys \<Longrightarrow> xs = ys"
  by (metis bytes_of_string_of)

section \<open>Errors, panics and results\<close>

datatype error =
    ErrEmptyPacket
  | ErrInvalidPacketType
  | ErrMalformedPayload
  | ErrUnsupportedProtocolVersion
  | errWebTransportFrameTooLarge
  | errWebTransportMissingSessionID
  | ErrSocketClosed
  | errPollOverlap
  | errPollClosed
  | ErrInvalidURL
  | ErrNoTransports
  | ErrURLRequired
  | ErrWebTransportDialerRequired
  | ErrTransportRoundTripperClientRequired
  | ErrUnexpectedStatus
  | EOF
  | ErrUnexpectedEOF
  | CorruptInputError nat
  | AtoiErrSyntax
  | AtoiErrRange
  | JsonSyntaxError
  | JsonUnmarshalTypeError
  | NewError string
  | Foreign nat
  | Errorf string "int list" "error list"

text \<open>
  \<^verbatim>\<open>errors.Is\<close>: the target itself, or one of the errors wrapped with \<^verbatim>\<open>%w\<close>. The constructor
  \<^term>\<open>Foreign\<close> stands for an error value produced by code outside the package.
\<close>

fun errors_Is :: "error \<Rightarrow> error \<Rightarrow> bool" where
  "errors_Is (Errorf f args es) t = (Errorf f args es = t \<or> (\<exists>e \<in> set es. errors_Is e t))"
| "errors_Is e t = (e = t)"

datatype panic = SliceBoundsOutOfRange | MakeSliceLenOutOfRange | IndexOutOfRange | PanicMessage string

datatype failure = Error error | Panic panic

type_synonym 'a result = "failure + 'a"

definition never_panics :: "'a result \<Rightarrow> bool" where
  "never_panics r \<longleftrightarrow> (case r of Inl (Panic _) \<Rightarrow> False | _ \<Rightarrow> True)"

lemma never_panics_simps [simp]:
  "never_panics (Inr x)" "never_panics (Inl (Error e))" "\<not> never_panics (Inl (Panic p))"
  by (simp_all add: never_panics_def)

definition lift_error :: "error + 'a \<Rightarrow> 'a result" where
  "lift_error r = (case r of Inl e \<Rightarrow> Inl (Error e) | Inr x \<Rightarrow> Inr x)"

lemma lift_error_simps [simp]:
  "lift_error (Inl e) = Inl (Error e)" "lift_error (Inr x) = Inr x"
  by (simp_all add: lift_error_def)

lemma lift_error_Inr_iff [simp]: "lift_error r = Inr x \<longleftrightarrow> r = Inr x"
  by (cases r) simp_all

lemma never_panics_lift_error [simp]: "never_panics (lift_error r)"
  by (cases r) simp_all

section \<open>Go's 64 bit signed integers\<close>

text \<open>
  On the supported platforms \<^verbatim>\<open>int\<close> is 64 bits wide and wraps around. A length that fits is
  carried as a \<^typ>\<open>nat\<close>; where the code computes an \<^verbatim>\<open>int\<close> from untrusted input the model
  wraps it explicitly with \<open>wrap64\<close>.
\<close>

definition wrap64 :: "int \<Rightarrow> int" where
  "wrap64 i = (i + 2 ^ 63) mod 2 ^ 64 - 2 ^ 63"

text \<open>The values an \<^verbatim>\<open>int\<close> can have.\<close>

definition fits_int :: "int \<Rightarrow> bool" where
  "fits_int i \<longleftrightarrow> - (2 ^ 63) \<le> i \<and> i < 2 ^ 63"

lemma wrap64_id: "- (2 ^ 63) \<le> i \<Longrightarrow> i < 2 ^ 63 \<Longrightarrow> wrap64 i = i"
  by (simp add: wrap64_def)

lemma wrap64_bounds: "- (2 ^ 63) \<le> wrap64 i" "wrap64 i < 2 ^ 63"
proof -
  have "0 \<le> (i + 2 ^ 63) mod 2 ^ 64" by simp
  moreover have "(i + 2 ^ 63) mod 2 ^ 64 < (2 ^ 64 :: int)" by (rule pos_mod_bound) simp
  ultimately show "- (2 ^ 63) \<le> wrap64 i" "wrap64 i < 2 ^ 63"
    by (simp_all add: wrap64_def)
qed

lemma wrap64_word: "wrap64 i = sint (word_of_int i :: 64 word)"
  by (simp add: wrap64_def signed_take_bit_eq_take_bit_shift take_bit_eq_mod sint_uint
      unsigned_of_int mod_simps)

section \<open>Lists and bytes\<close>

lemma unat_byte_less [simp]: "unat (b :: byte) < 256"
  using unsigned_less [of b, where ?'a = nat] by simp

lemma unat_byte_le [simp]: "unat (b :: byte) \<le> 255"
  using unat_byte_less [of b] by linarith

lemma byte_of_nat_unat [simp]: "of_nat (unat (b :: byte)) = b"
  by simp

lemma unat_of_nat_byte [simp]: "n < 256 \<Longrightarrow> unat (of_nat n :: byte) = n"
  by (simp add: unat_of_nat)

lemma of_char_less [simp]: "of_char c < (256 :: nat)"
proof -
  have "of_char c mod 256 < (256 :: nat)" by (rule mod_less_divisor) simp
  then show ?thesis by simp
qed

lemma unat_of_char_byte: "unat (of_char c :: byte) = of_char c"
proof -
  have "unat (of_char c :: byte) = unat (of_nat (of_char c) :: byte)" by (simp only: of_nat_of_char)
  also have "\<dots> = of_char c" by (rule unat_of_nat_byte) (simp add: of_char_less)
  finally show ?thesis .
qed

lemma string_of_bytes_of [simp]: "string_of (bytes_of s) = s"
  by (simp add: string_of_def bytes_of_def comp_def unat_of_char_byte)

lemma bytes_of_inj: "bytes_of a = bytes_of b \<longleftrightarrow> a = b"
  by (metis string_of_bytes_of)

text \<open>A number below 256 as a byte; unlike a bare \<^term>\<open>of_nat\<close> it is not taken apart by the
  simplifier.\<close>

definition octet :: "nat \<Rightarrow> byte" where
  "octet n = of_nat n"

lemma unat_octet [simp]: "n < 256 \<Longrightarrow> unat (octet n) = n"
  by (simp add: octet_def)

lemma octet_unat [simp]: "octet (unat b) = b"
  by (simp add: octet_def)

lemma sextets_split3: "(r :: nat) div 4096 * 4096 + r div 64 mod 64 * 64 + r mod 64 = r"
proof -
  have "r div 4096 = r div 64 div 64" by (simp add: div_mult2_eq [symmetric])
  then have "(r div 4096 * 64 + r div 64 mod 64) * 64 + r mod 64 = r"
    by (simp only: div_mult_mod_eq)
  then show ?thesis by (simp add: algebra_simps)
qed

lemma sextets_split4:
  "(r :: nat) div 262144 * 262144 + r div 4096 mod 64 * 4096 + r div 64 mod 64 * 64 + r mod 64 = r"
proof -
  have "r div 262144 = r div 4096 div 64" by (simp add: div_mult2_eq [symmetric])
  then have "r div 262144 * 64 + r div 4096 mod 64 = r div 4096"
    by (simp only: div_mult_mod_eq)
  then have "r div 262144 * 262144 + r div 4096 mod 64 * 4096 = r div 4096 * 4096"
    using arg_cong [of _ _ "\<lambda>n. n * 4096"] by (fastforce simp: add_mult_distrib)
  then show ?thesis by (simp only: sextets_split3)
qed

lemma div_digit: "(r :: nat) < n \<Longrightarrow> (q * n + r) div n = q"
  by simp

lemma mod_digit: "(r :: nat) < n \<Longrightarrow> (q * n + r) mod n = r"
  by simp

lemma digit_less: "(q :: nat) < m \<Longrightarrow> r < n \<Longrightarrow> q * n + r < m * n"
proof -
  assume "q < m" and r: "r < n"
  then have "Suc q * n \<le> m * n" by (intro mult_le_mono1) simp
  with r show ?thesis by simp
qed

lemma map_of_zip_nth_upt:
  assumes "distinct xs" and "i < length xs"
  shows "map_of (zip xs [0..<length xs]) (xs ! i) = Some i"
  using assms map_of_zip_nth [of xs "[0..<length xs]" i] by simp

lemma map_of_zip_upt_SomeD:
  assumes "map_of (zip xs [0..<length xs]) x = Some i"
  shows "i < length xs \<and> xs ! i = x"
  using map_of_SomeD [OF assms] by (auto simp: set_zip)

text \<open>Running a fallible function over a list, stopping at the first error.\<close>

fun traverse :: "('a \<Rightarrow> 'e + 'b) \<Rightarrow> 'a list \<Rightarrow> 'e + 'b list" where
  "traverse f [] = Inr []"
| "traverse f (x # xs) =
     (case f x of Inl e \<Rightarrow> Inl e
      | Inr y \<Rightarrow> (case traverse f xs of Inl e \<Rightarrow> Inl e | Inr ys \<Rightarrow> Inr (y # ys)))"

lemma traverse_Inr:
  "traverse f xs = Inr ys \<longleftrightarrow> list_all2 (\<lambda>x y. f x = Inr y) xs ys"
proof (induction xs arbitrary: ys)
  case Nil
  then show ?case by auto
next
  case (Cons x xs)
  show ?case
  proof (cases "traverse f xs")
    case (Inl e)
    then have "\<not> list_all2 (\<lambda>x y. f x = Inr y) xs zs" for zs
      using Cons.IH [of zs] by simp
    with Inl show ?thesis by (auto simp: list_all2_Cons1 split: sum.splits)
  next
    case (Inr zs)
    then have "list_all2 (\<lambda>x y. f x = Inr y) xs ws \<longleftrightarrow> ws = zs" for ws
      using Cons.IH [of ws] by auto
    with Inr show ?thesis by (auto simp: list_all2_Cons1 split: sum.splits)
  qed
qed

lemma traverse_map_Inr:
  "(\<And>x. x \<in> set xs \<Longrightarrow> f (g x) = Inr x) \<Longrightarrow> traverse f (map g xs) = Inr xs"
  by (induction xs) auto

lemma traverse_Inl:
  "traverse f xs = Inl e \<longleftrightarrow>
     (\<exists>ys x zs. xs = ys @ x # zs \<and> f x = Inl e \<and> (\<forall>y \<in> set ys. \<exists>z. f y = Inr z))"
  (is "_ \<longleftrightarrow> ?R xs")
proof (induction xs)
  case Nil
  then show ?case by simp
next
  case (Cons a xs)
  show ?case
  proof
    assume "traverse f (a # xs) = Inl e"
    then consider "f a = Inl e" | b where "f a = Inr b" "traverse f xs = Inl e"
      by (auto split: sum.splits)
    then show "?R (a # xs)"
    proof cases
      case 1
      then show ?thesis by (intro exI [of _ "[]"]) simp
    next
      case (2 b)
      then obtain ys x zs where "xs = ys @ x # zs" "f x = Inl e" "\<forall>y \<in> set ys. \<exists>z. f y = Inr z"
        using Cons.IH by blast
      with 2(1) show ?thesis by (intro exI [of _ "a # ys"] exI [of _ x] exI [of _ zs]) simp
    qed
  next
    assume "?R (a # xs)"
    then obtain ys x zs where *: "a # xs = ys @ x # zs" "f x = Inl e"
      "\<forall>y \<in> set ys. \<exists>z. f y = Inr z" by blast
    then show "traverse f (a # xs) = Inl e"
    proof (cases ys)
      case (Cons b ys')
      with * have "?R xs" by (intro exI [of _ ys'] exI [of _ x] exI [of _ zs]) simp
      with Cons.IH * Cons show ?thesis by auto
    qed simp
  qed
qed

end
