(* ===== verification/Codec.thy ===== *)
theory Codec
  imports Prelude
begin

text \<open>
  The interfaces between the wire formats and the code that uses them: a codec for a single
  item, a codec whose items are joined by a separator byte, and a codec whose items are read
  one after the other from a stream. Each law is proved once for any codec that satisfies the
  interface; the wire formats of the package interpret these locales.
\<close>

section \<open>Splitting and joining on a separator\<close>

text \<open>\<^verbatim>\<open>bytes.Split(s, sep)\<close> for a one byte separator: an empty input is one empty segment.\<close>

fun split_on :: "'a \<Rightarrow> 'a list \<Rightarrow> 'a list list" where
  "split_on s [] = [[]]"
| "split_on s (x # xs) =
     (if x = s then [] # split_on s xs
      else (case split_on s xs of [] \<Rightarrow> [[x]] | y # ys \<Rightarrow> (x # y) # ys))"

fun join_on :: "'a \<Rightarrow> 'a list list \<Rightarrow> 'a list" where
  "join_on s [] = []"
| "join_on s [x] = x"
| "join_on s (x # y # ys) = x @ s # join_on s (y # ys)"

lemma split_on_nonempty [simp]: "split_on s xs \<noteq> []"
  by (induction xs) (auto split: list.splits)

lemma split_on_segment: "s \<notin> set x \<Longrightarrow> split_on s x = [x]"
  by (induction x) auto

lemma split_on_append: "s \<notin> set x \<Longrightarrow> split_on s (x @ s # ys) = x # split_on s ys"
  by (induction x) auto

lemma split_join:
  "xs \<noteq> [] \<Longrightarrow> (\<And>x. x \<in> set xs \<Longrightarrow> s \<notin> set x) \<Longrightarrow> split_on s (join_on s xs) = xs"
  by (induction s xs rule: join_on.induct) (auto simp: split_on_segment split_on_append)

lemma join_split: "join_on s (split_on s xs) = xs"
proof (induction xs)
  case (Cons x xs)
  obtain y ys where ys: "split_on s xs = y # ys"
    by (cases "split_on s xs") auto
  with Cons.IH show ?case by (cases ys) auto
qed simp

lemma split_on_no_sep: "x \<in> set (split_on s xs) \<Longrightarrow> s \<notin> set x"
proof (induction xs arbitrary: x)
  case (Cons a xs)
  then show ?case by (auto split: list.splits if_splits)
qed simp

lemma length_join_on:
  "xs \<noteq> [] \<Longrightarrow> length (join_on s xs) = sum_list (map length xs) + (length xs - 1)"
  by (induction s xs rule: join_on.induct) auto

section \<open>Item codecs\<close>

locale item_codec =
  fixes enc :: "'a \<Rightarrow> 'w"
    and dec :: "'w \<Rightarrow> error + 'a"
    and ok :: "'a \<Rightarrow> bool"
  assumes dec_enc: "ok x \<Longrightarrow> dec (enc x) = Inr x"
begin

lemma enc_inj:
  assumes "ok x" "ok y" "enc x = enc y"
  shows "x = y"
proof -
  have "Inr x = dec (enc x)" by (rule sym, rule dec_enc, rule assms(1))
  also have "\<dots> = dec (enc y)" by (simp only: assms(3))
  also have "\<dots> = Inr y" by (rule dec_enc, rule assms(2))
  finally show ?thesis by simp
qed

lemma traverse_dec_enc: "(\<And>x. x \<in> set xs \<Longrightarrow> ok x) \<Longrightarrow> traverse dec (map enc xs) = Inr xs"
  by (rule traverse_map_Inr) (simp add: dec_enc)

end

locale separated_codec = item_codec enc dec ok
  for enc :: "'a \<Rightarrow> 'b list" and dec and ok +
  fixes sep :: 'b
  assumes sep_free: "ok x \<Longrightarrow> sep \<notin> set (enc x)"
begin

lemma traverse_split_join:
  assumes "xs \<noteq> []" and "\<And>x. x \<in> set xs \<Longrightarrow> ok x"
  shows "traverse dec (split_on sep (join_on sep (map enc xs))) = Inr xs"
proof -
  have "split_on sep (join_on sep (map enc xs)) = map enc xs"
    using assms(1) by (intro split_join) (use assms(2) sep_free in fastforce)+
  with assms(2) show ?thesis by (simp add: traverse_dec_enc)
qed

lemma join_inj:
  assumes "xs \<noteq> []" "ys \<noteq> []" "\<And>x. x \<in> set xs \<Longrightarrow> ok x" "\<And>x. x \<in> set ys \<Longrightarrow> ok x"
    and "join_on sep (map enc xs) = join_on sep (map enc ys)"
  shows "xs = ys"
proof -
  have "Inr xs = traverse dec (split_on sep (join_on sep (map enc xs)))"
    by (rule sym, rule traverse_split_join) (fact assms(1), rule assms(3))
  also have "\<dots> = traverse dec (split_on sep (join_on sep (map enc ys)))"
    by (simp only: assms(5))
  also have "\<dots> = Inr ys"
    by (rule traverse_split_join) (fact assms(2), rule assms(4))
  finally have "Inr xs = (Inr ys :: error + 'a list)" .
  then show ?thesis by simp
qed

end

section \<open>Stream codecs\<close>

text \<open>
  A framed stream: \<open>rd\<close> takes one item off the front of the input and returns the rest.
\<close>

locale stream_codec =
  fixes frame :: "'a \<Rightarrow> 'b list"
    and rd :: "'b list \<Rightarrow> 'c + ('a \<times> 'b list)"
    and ok :: "'a \<Rightarrow> bool"
  assumes rd_frame: "ok x \<Longrightarrow> rd (frame x @ rest) = Inr (x, rest)"
    and frame_nonempty: "ok x \<Longrightarrow> frame x \<noteq> []"
begin

lemma frame_prefix_free:
  assumes "ok x" "ok y" "frame x @ xs = frame y @ ys"
  shows "x = y \<and> xs = ys"
proof -
  have "Inr (x, xs) = rd (frame x @ xs)" by (rule sym, rule rd_frame, rule assms(1))
  also have "\<dots> = rd (frame y @ ys)" by (simp only: assms(3))
  also have "\<dots> = Inr (y, ys)" by (rule rd_frame, rule assms(2))
  finally have "Inr (x, xs) = (Inr (y, ys) :: 'c + 'a \<times> 'b list)" .
  then show ?thesis by simp
qed

lemma frames_inj:
  "(\<And>x. x \<in> set xs \<Longrightarrow> ok x) \<Longrightarrow> (\<And>y. y \<in> set ys \<Longrightarrow> ok y) \<Longrightarrow>
     concat (map frame xs) = concat (map frame ys) \<Longrightarrow> xs = ys"
proof (induction xs arbitrary: ys)
  case Nil
  show ?case
  proof (cases ys)
    case (Cons y zs)
    then show ?thesis using Nil.prems(2) [of y] Nil.prems(3) frame_nonempty [of y] by simp
  qed simp
next
  case (Cons x xs)
  have x: "ok x" using Cons.prems(1) [of x] by simp
  show ?case
  proof (cases ys)
    case Nil
    then show ?thesis using Cons.prems(3) frame_nonempty [OF x] by simp
  next
    case ys: (Cons y zs)
    then have y: "ok y" using Cons.prems(2) [of y] by simp
    have "frame x @ concat (map frame xs) = frame y @ concat (map frame zs)"
      using Cons.prems(3) ys by simp
    from frame_prefix_free [OF x y this]
    have eq: "x = y" "concat (map frame xs) = concat (map frame zs)" by simp_all
    have "xs = zs"
      by (rule Cons.IH [OF _ _ eq(2)]) (use Cons.prems(1,2) ys in simp_all)
    with eq ys show ?thesis by simp
  qed
qed

end

text \<open>
  A loop that walks an input with a cursor: \<open>step\<close> reads the item at the cursor and
  returns the cursor behind it.
\<close>

locale cursor_loop =
  fixes frame :: "'a \<Rightarrow> 'b list"
    and step :: "'b list \<Rightarrow> nat \<Rightarrow> 'c + ('a \<times> nat)"
    and loop :: "'b list \<Rightarrow> nat \<Rightarrow> 'c + 'a list"
    and ok :: "'a \<Rightarrow> bool"
    and limit :: nat
  assumes step_frame: "ok x \<Longrightarrow> length (pre @ frame x @ rest) < limit \<Longrightarrow>
      step (pre @ frame x @ rest) (length pre) = Inr (x, length pre + length (frame x))"
    and frame_nonempty: "ok x \<Longrightarrow> frame x \<noteq> []"
    and loop_end: "length inp \<le> cursor \<Longrightarrow> loop inp cursor = Inr []"
    and loop_step: "cursor < length inp \<Longrightarrow> step inp cursor = Inr (x, next) \<Longrightarrow>
      loop inp cursor = (case loop inp next of Inl e \<Rightarrow> Inl e | Inr xs \<Rightarrow> Inr (x # xs))"
begin

lemma loop_frames_from:
  "(\<And>x. x \<in> set xs \<Longrightarrow> ok x) \<Longrightarrow> length (pre @ concat (map frame xs)) < limit \<Longrightarrow>
     loop (pre @ concat (map frame xs)) (length pre) = Inr xs"
proof (induction xs arbitrary: pre)
  case Nil
  show ?case by (rule loop_end) simp
next
  case (Cons x xs)
  then have x: "ok x" by simp
  let ?inp = "pre @ frame x @ concat (map frame xs)"
  have "loop ?inp (length pre) =
      (case loop ?inp (length pre + length (frame x)) of Inl e \<Rightarrow> Inl e | Inr ys \<Rightarrow> Inr (x # ys))"
    using frame_nonempty [OF x] Cons.prems(2) by (intro loop_step step_frame x) simp_all
  moreover have "loop ((pre @ frame x) @ concat (map frame xs)) (length (pre @ frame x)) = Inr xs"
    using Cons.prems by (intro Cons.IH) simp_all
  ultimately show ?case by simp
qed

lemma loop_frames:
  "(\<And>x. x \<in> set xs \<Longrightarrow> ok x) \<Longrightarrow> length (concat (map frame xs)) < limit \<Longrightarrow>
     loop (concat (map frame xs)) 0 = Inr xs"
  using loop_frames_from [of xs "[]"] by simp

end

end
