(* ===== verification/Base64.thy ===== *)
theory Base64
  imports Codec
begin

text \<open>
  The part of Go's \<^verbatim>\<open>encoding/base64\<close> the package uses: \<^verbatim>\<open>StdEncoding.AppendEncode\<close> and
  \<^verbatim>\<open>StdEncoding.DecodeString\<close> in the packet codec, \<^verbatim>\<open>RawURLEncoding.EncodeToString\<close> for session
  identifiers. The decoder follows \<^verbatim>\<open>decodeQuantum\<close>: carriage returns and newlines are skipped,
  padding must complete the last quantum, nothing but newlines may follow it, and an error
  carries the byte offset the library reports.
\<close>

definition stdAlphabet :: bytes where
  "stdAlphabet = bytes_of ''ABCDEFGHIJKLMNOPQRSTUVWXYZabcdefghijklmnopqrstuvwxyz0123456789+/''"

definition urlAlphabet :: bytes where
  "urlAlphabet = bytes_of ''ABCDEFGHIJKLMNOPQRSTUVWXYZabcdefghijklmnopqrstuvwxyz0123456789-_''"

definition padChar :: byte where
  "padChar = 61"

definition sextets2 :: "bytes \<Rightarrow> nat \<Rightarrow> bytes" where
  "sextets2 al v = [al ! (v div 64), al ! (v mod 64)]"

definition sextets3 :: "bytes \<Rightarrow> nat \<Rightarrow> bytes" where
  "sextets3 al v = [al ! (v div 4096), al ! (v div 64 mod 64), al ! (v mod 64)]"

definition sextets4 :: "bytes \<Rightarrow> nat \<Rightarrow> bytes" where
  "sextets4 al v =
     [al ! (v div 262144), al ! (v div 4096 mod 64), al ! (v div 64 mod 64), al ! (v mod 64)]"

fun b64_encode :: "bytes \<Rightarrow> bool \<Rightarrow> bytes \<Rightarrow> bytes" where
  "b64_encode al pad [] = []"
| "b64_encode al pad [a] =
     sextets2 al (unat a * 16) @ (if pad then [padChar, padChar] else [])"
| "b64_encode al pad [a, b] =
     sextets3 al ((unat a * 256 + unat b) * 4) @ (if pad then [padChar] else [])"
| "b64_encode al pad (a # b # c # rest) =
     sextets4 al (unat a * 65536 + unat b * 256 + unat c) @ b64_encode al pad rest"

definition stdAppendEncode :: "bytes \<Rightarrow> bytes \<Rightarrow> bytes" where
  "stdAppendEncode dst src = dst @ b64_encode stdAlphabet True src"

definition rawURLEncodeToString :: "bytes \<Rightarrow> bytes" where
  "rawURLEncodeToString src = b64_encode urlAlphabet False src"

definition decodeMap :: "bytes \<Rightarrow> byte \<Rightarrow> nat option" where
  "decodeMap al = map_of (zip al [0..<length al])"

definition is_newline :: "byte \<Rightarrow> bool" where
  "is_newline c \<longleftrightarrow> c = 10 \<or> c = 13"

fun skip_newlines :: "nat \<Rightarrow> bytes \<Rightarrow> nat \<times> bytes" where
  "skip_newlines si [] = (si, [])"
| "skip_newlines si (c # cs) = (if is_newline c then skip_newlines (Suc si) cs else (si, c # cs))"

definition quantum :: "nat \<Rightarrow> nat \<Rightarrow> nat \<Rightarrow> nat \<Rightarrow> bytes" where
  "quantum w x y z =
     (let v = ((w * 64 + x) * 64 + y) * 64 + z
      in [of_nat (v div 65536 mod 256), of_nat (v div 256 mod 256), of_nat (v mod 256)])"

fun b64_last :: "nat list \<Rightarrow> bytes" where
  "b64_last [w, x] = take 1 (quantum w x 0 0)"
| "b64_last [w, x, y] = take 2 (quantum w x y 0)"
| "b64_last _ = []"

definition b64_finish :: "nat list \<Rightarrow> nat \<Rightarrow> bytes \<Rightarrow> error + bytes" where
  "b64_finish dbuf si rest =
     (case skip_newlines si rest of
        (si', []) \<Rightarrow> Inr (b64_last dbuf)
      | (si', _ # _) \<Rightarrow> Inl (CorruptInputError si'))"

definition b64_padding :: "nat list \<Rightarrow> nat \<Rightarrow> bytes \<Rightarrow> error + bytes" where
  "b64_padding dbuf si rest =
     (if length dbuf \<le> 1 then Inl (CorruptInputError (si - 1))
      else if length dbuf = 2 then
        (case skip_newlines si rest of
           (si', []) \<Rightarrow> Inl (CorruptInputError si')
         | (si', c # cs) \<Rightarrow>
             if c \<noteq> padChar then Inl (CorruptInputError (si' - 1))
             else b64_finish dbuf (Suc si') cs)
      else b64_finish dbuf si rest)"

fun b64_decode :: "bytes \<Rightarrow> nat list \<Rightarrow> nat \<Rightarrow> bytes \<Rightarrow> error + bytes" where
  "b64_decode al dbuf si [] =
     (if dbuf = [] then Inr [] else Inl (CorruptInputError (si - length dbuf)))"
| "b64_decode al dbuf si (c # cs) =
     (case decodeMap al c of
        Some v \<Rightarrow>
          (case dbuf of
             [w, x, y] \<Rightarrow>
               (case b64_decode al [] (Suc si) cs of
                  Inl e \<Rightarrow> Inl e
                | Inr out \<Rightarrow> Inr (quantum w x y v @ out))
           | _ \<Rightarrow> b64_decode al (dbuf @ [v]) (Suc si) cs)
      | None \<Rightarrow>
          if is_newline c then b64_decode al dbuf (Suc si) cs
          else if c \<noteq> padChar then Inl (CorruptInputError si)
          else b64_padding dbuf (Suc si) cs)"

definition stdDecodeString :: "bytes \<Rightarrow> error + bytes" where
  "stdDecodeString s = b64_decode stdAlphabet [] 0 s"

section \<open>Decoding inverts encoding\<close>

lemma stdAlphabet_length [simp]: "length stdAlphabet = 64"
  by (simp add: stdAlphabet_def bytes_of_def)

lemma stdAlphabet_distinct: "distinct stdAlphabet"
  by (simp add: stdAlphabet_def bytes_of_def)

lemma stdAlphabet_chars: "c \<in> set stdAlphabet \<Longrightarrow> c \<noteq> padChar \<and> c \<noteq> 30 \<and> \<not> is_newline c"
  by (auto simp: stdAlphabet_def bytes_of_def padChar_def is_newline_def)

lemma decodeMap_std [simp]: "n < 64 \<Longrightarrow> decodeMap stdAlphabet (stdAlphabet ! n) = Some n"
  using map_of_zip_nth_upt [OF stdAlphabet_distinct, of n] by (simp add: decodeMap_def)

lemma decodeMap_SomeD: "decodeMap al c = Some n \<Longrightarrow> n < length al \<and> al ! n = c"
  unfolding decodeMap_def by (rule map_of_zip_upt_SomeD)

lemma decodeMap_padChar [simp]: "decodeMap stdAlphabet padChar = None"
proof (cases "decodeMap stdAlphabet padChar")
  case (Some n)
  then show ?thesis
    using decodeMap_SomeD [OF Some] stdAlphabet_chars [of padChar] by (metis nth_mem)
qed simp

lemma padChar_not_newline [simp]: "\<not> is_newline padChar"
  by (simp add: is_newline_def padChar_def)

lemma sextets_recompose:
  fixes v :: nat
  shows "((v div 262144 * 64 + v div 4096 mod 64) * 64 + v div 64 mod 64) * 64 + v mod 64 = v"
proof -
  have "v div 262144 = v div 64 div 64 div 64" and "v div 4096 = v div 64 div 64"
    by (simp_all add: div_mult2_eq [symmetric])
  then show ?thesis by (simp only: div_mult_mod_eq)
qed

lemma octets_decompose:
  fixes a b c :: byte
  defines "v \<equiv> unat a * 65536 + unat b * 256 + unat c"
  shows "v div 65536 = unat a" "v div 256 mod 256 = unat b" "v mod 256 = unat c"
    "v div 262144 < 64"
proof -
  note lt = unat_byte_less [of a] unat_byte_less [of b] unat_byte_less [of c]
  have v: "v = (unat a * 256 + unat b) * 256 + unat c" by (simp add: v_def)
  have v256: "v div 256 = unat a * 256 + unat b"
    unfolding v by (rule div_digit) (rule lt)
  show "v mod 256 = unat c" unfolding v by (rule mod_digit) (rule lt)
  show "v div 256 mod 256 = unat b" unfolding v256 by (rule mod_digit) (rule lt)
  have "v div 65536 = v div 256 div 256" by (simp add: div_mult2_eq [symmetric])
  also have "\<dots> = unat a" unfolding v256 by (rule div_digit) (rule lt)
  finally show "v div 65536 = unat a" .
  have "v < 64 * 262144" using lt unfolding v_def by linarith
  then show "v div 262144 < 64" by (rule less_mult_imp_div_less)
qed

lemma quantum_recompose:
  "quantum (v div 262144) (v div 4096 mod 64) (v div 64 mod 64) (v mod 64) =
     [of_nat (v div 65536 mod 256), of_nat (v div 256 mod 256), of_nat (v mod 256)]"
  by (simp only: quantum_def sextets_recompose Let_def)

lemma quantum_encode:
  fixes a b c :: byte
  defines "v \<equiv> unat a * 65536 + unat b * 256 + unat c"
  shows "quantum (v div 262144) (v div 4096 mod 64) (v div 64 mod 64) (v mod 64) = [a, b, c]"
  unfolding quantum_recompose unfolding v_def octets_decompose by simp

text \<open>The two short quanta are the full one with zero octets, their last digits dropped.\<close>

lemma b64_last_encode2:
  fixes a b :: byte
  defines "v \<equiv> (unat a * 256 + unat b) * 4"
  shows "b64_last [v div 4096, v div 64 mod 64, v mod 64] = [a, b]" "v div 4096 < 64"
proof -
  let ?v = "unat a * 65536 + unat b * 256 + unat (0 :: byte)"
  have v: "?v = v * 64" by (simp add: v_def)
  have "?v div 262144 = v div 4096" "?v div 4096 mod 64 = v div 64 mod 64"
    "?v div 64 mod 64 = v mod 64" "?v mod 64 = 0"
    unfolding v using div_mult2_eq [of "v * 64" 64 4096] div_mult2_eq [of "v * 64" 64 64] by simp_all
  then show "b64_last [v div 4096, v div 64 mod 64, v mod 64] = [a, b]" "v div 4096 < 64"
    using quantum_encode [of a b 0] octets_decompose(4) [of a b 0] by simp_all
qed

lemma b64_last_encode1:
  fixes a :: byte
  defines "v \<equiv> unat a * 16"
  shows "b64_last [v div 64, v mod 64] = [a]" "v div 64 < 64"
proof -
  let ?v = "unat a * 65536 + unat (0 :: byte) * 256 + unat (0 :: byte)"
  have v: "?v = v * 4096" by (simp add: v_def)
  have "?v div 262144 = v div 64" "?v div 4096 mod 64 = v mod 64"
    "?v div 64 mod 64 = 0" "?v mod 64 = 0"
    unfolding v using div_mult2_eq [of "v * 4096" 4096 64] mod_mult_self2_is_0 [of "v * 64" 64]
    by simp_all
  then show "b64_last [v div 64, v mod 64] = [a]" "v div 64 < 64"
    using quantum_encode [of a 0 0] octets_decompose(4) [of a 0 0] by simp_all
qed

lemmas sextet_bounds = b64_last_encode1(2) b64_last_encode2(2) octets_decompose(4)

lemma b64_decode_sextets2:
  "v div 64 < 64 \<Longrightarrow>
     b64_decode stdAlphabet [] si (sextets2 stdAlphabet v @ [padChar, padChar]) =
       Inr (b64_last [v div 64, v mod 64])"
  by (simp add: sextets2_def b64_padding_def b64_finish_def del: b64_last.simps)

lemma b64_decode_sextets3:
  "v div 4096 < 64 \<Longrightarrow>
     b64_decode stdAlphabet [] si (sextets3 stdAlphabet v @ [padChar]) =
       Inr (b64_last [v div 4096, v div 64 mod 64, v mod 64])"
  by (simp add: sextets3_def b64_padding_def b64_finish_def del: b64_last.simps)

lemma b64_decode_sextets4:
  "v div 262144 < 64 \<Longrightarrow>
     b64_decode stdAlphabet [] si (sextets4 stdAlphabet v @ rest) =
       (case b64_decode stdAlphabet [] (Suc (Suc (Suc (Suc si)))) rest of
          Inl e \<Rightarrow> Inl e
        | Inr out \<Rightarrow>
            Inr (quantum (v div 262144) (v div 4096 mod 64) (v div 64 mod 64) (v mod 64) @ out))"
  by (simp add: sextets4_def)

lemma b64_decode_encode:
  "b64_decode stdAlphabet [] si (b64_encode stdAlphabet True bs) = Inr bs"
proof (induction stdAlphabet True bs arbitrary: si rule: b64_encode.induct)
  case 1
  show ?case by simp
next
  case (2 a)
  show ?case
    by (simp only: b64_encode.simps if_True b64_decode_sextets2 b64_last_encode1)
next
  case (3 a b)
  show ?case
    by (simp only: b64_encode.simps if_True b64_decode_sextets3 b64_last_encode2)
next
  case (4 a b c rest)
  then show ?case
    by (simp only: b64_encode.simps b64_decode_sextets4 quantum_encode octets_decompose(4)) simp
qed

lemma stdDecode_encode [simp]: "stdDecodeString (b64_encode stdAlphabet True bs) = Inr bs"
  by (simp add: stdDecodeString_def b64_decode_encode)

interpretation std64: item_codec "stdAppendEncode []" stdDecodeString "\<lambda>_. True"
  by unfold_locales (simp add: stdAppendEncode_def)

lemma set_sextets:
  "v div 64 < 64 \<Longrightarrow> set (sextets2 stdAlphabet v) \<subseteq> set stdAlphabet"
  "v div 4096 < 64 \<Longrightarrow> set (sextets3 stdAlphabet v) \<subseteq> set stdAlphabet"
  "v div 262144 < 64 \<Longrightarrow> set (sextets4 stdAlphabet v) \<subseteq> set stdAlphabet"
  by (simp_all add: sextets2_def sextets3_def sextets4_def)

lemma b64_encode_set: "set (b64_encode stdAlphabet True bs) \<subseteq> insert padChar (set stdAlphabet)"
proof (induction stdAlphabet True bs rule: b64_encode.induct)
  case (2 a)
  then show ?case using set_sextets(1) [OF sextet_bounds(1)] by fastforce
next
  case (3 a b)
  then show ?case using set_sextets(2) [OF sextet_bounds(2)] by fastforce
next
  case (4 a b c rest)
  then show ?case using set_sextets(3) [OF sextet_bounds(3), of a b c] by auto
qed simp

lemma length_sextets [simp]:
  "length (sextets2 al v) = 2" "length (sextets3 al v) = 3" "length (sextets4 al v) = 4"
  by (simp_all add: sextets2_def sextets3_def sextets4_def)

lemma b64_encode_length: "length (b64_encode al True bs) = (length bs + 2) div 3 * 4"
proof (induction al True bs rule: b64_encode.induct)
  case (4 al a b c rest)
  have "(length rest + 2 + 3) div 3 = (length rest + 2) div 3 + 1"
    by (rule div_add_self2) simp
  moreover have "length (a # b # c # rest) + 2 = length rest + 2 + 3" by simp
  ultimately show ?case using 4 by (simp only: b64_encode.simps length_append length_sextets) simp
qed simp_all

section \<open>What the decoder returns\<close>

lemma length_quantum [simp]: "length (quantum w x y z) = 3"
  by (simp add: quantum_def Let_def)

lemma length_b64_last: "length (b64_last dbuf) \<le> length dbuf"
  by (induction dbuf rule: b64_last.induct) simp_all

lemma length_b64_finish: "b64_finish dbuf si cs = Inr out \<Longrightarrow> length out \<le> length dbuf"
  using length_b64_last [of dbuf] by (auto simp: b64_finish_def split: prod.splits list.splits)

lemma length_b64_padding: "b64_padding dbuf si cs = Inr out \<Longrightarrow> length out \<le> length dbuf"
  by (auto simp: b64_padding_def dest!: length_b64_finish split: prod.splits list.splits if_splits)

lemma b64_decode_length:
  "b64_decode al dbuf si cs = Inr out \<Longrightarrow> length out \<le> length dbuf + length cs"
proof (induction al dbuf si cs arbitrary: out rule: b64_decode.induct)
  case (2 al dbuf si c cs)
  then show ?case
    by (fastforce dest: length_b64_padding split: option.splits list.splits sum.splits if_splits)
qed (auto split: if_splits)

lemma stdDecodeString_length: "stdDecodeString s = Inr out \<Longrightarrow> length out \<le> length s"
  using b64_decode_length [of stdAlphabet "[]" 0 s out] by (simp add: stdDecodeString_def)

lemma b64_finish_Inl: "b64_finish dbuf si cs = Inl e \<Longrightarrow> \<exists>k. e = CorruptInputError k"
  by (auto simp: b64_finish_def split: prod.splits list.splits)

lemma b64_padding_Inl: "b64_padding dbuf si cs = Inl e \<Longrightarrow> \<exists>k. e = CorruptInputError k"
  by (auto simp: b64_padding_def b64_finish_Inl split: prod.splits list.splits if_splits)

lemma b64_decode_Inl: "b64_decode al dbuf si cs = Inl e \<Longrightarrow> \<exists>k. e = CorruptInputError k"
proof (induction al dbuf si cs arbitrary: e rule: b64_decode.induct)
  case (2 al dbuf si c cs)
  then show ?case
    by (fastforce dest: b64_padding_Inl split: option.splits list.splits sum.splits if_splits)
qed (auto split: if_splits)

lemma stdDecodeString_Inl: "stdDecodeString s = Inl e \<Longrightarrow> \<exists>k. e = CorruptInputError k"
  by (auto simp: stdDecodeString_def dest: b64_decode_Inl)

section \<open>Encoding whole groups is injective\<close>

lemma sextets4_inj:
  assumes "distinct al" "length al = 64" "v < 16777216" "v' < 16777216" "sextets4 al v = sextets4 al v'"
  shows "v = v'"
proof -
  have lt: "v div 262144 < 64" "v' div 262144 < 64" using assms(3,4) by (simp_all add: less_mult_imp_div_less)
  have "v div 262144 = v' div 262144" "v div 4096 mod 64 = v' div 4096 mod 64"
    "v div 64 mod 64 = v' div 64 mod 64" "v mod 64 = v' mod 64"
    using assms(1,2,5) lt by (simp_all add: sextets4_def nth_eq_iff_index_eq)
  then show ?thesis by (metis sextets_split4)
qed

lemma octets_inj:
  fixes a b c a' b' c' :: byte
  assumes "unat a * 65536 + unat b * 256 + unat c = unat a' * 65536 + unat b' * 256 + unat c'"
  shows "a = a' \<and> b = b' \<and> c = c'"
proof -
  have eq: "(unat a * 256 + unat b) * 256 + unat c = (unat a' * 256 + unat b') * 256 + unat c'"
    using assms by (simp add: algebra_simps)
  have "unat c = unat c'"
    using arg_cong [OF eq, of "\<lambda>v. v mod 256"] by (simp only: mod_digit unat_byte_less)
  moreover have ab: "unat a * 256 + unat b = unat a' * 256 + unat b'"
    using arg_cong [OF eq, of "\<lambda>v. v div 256"] by (simp only: div_digit unat_byte_less)
  moreover have "unat b = unat b'"
    using arg_cong [OF ab, of "\<lambda>v. v mod 256"] by (simp only: mod_digit unat_byte_less)
  moreover have "unat a = unat a'"
    using arg_cong [OF ab, of "\<lambda>v. v div 256"] by (simp only: div_digit unat_byte_less)
  ultimately show ?thesis by (simp add: word_unat_eq_iff)
qed

lemma b64_encode_inj:
  "distinct al \<Longrightarrow> length al = 64 \<Longrightarrow> length xs = length ys \<Longrightarrow> 3 dvd length xs \<Longrightarrow>
     b64_encode al pad xs = b64_encode al pad ys \<Longrightarrow> xs = ys"
proof (induction al pad xs arbitrary: ys rule: b64_encode.induct)
  case (2 al pad a)
  have "3 dvd length [a]" by (rule "2.prems"(4))
  then show ?case by simp
next
  case (3 al pad a b)
  have "3 dvd length [a, b]" by (rule "3.prems"(4))
  then show ?case by (auto dest: dvd_imp_le)
next
  case (4 al pad a b c rest)
  then obtain a' b' c' rest' where ys: "ys = a' # b' # c' # rest'" "length rest = length rest'"
    by (auto simp: length_Suc_conv Suc_length_conv)
  let ?v = "unat a * 65536 + unat b * 256 + unat c" and ?v' = "unat a' * 65536 + unat b' * 256 + unat c'"
  have len: "length (sextets4 al ?v) = length (sextets4 al ?v')" by (simp add: sextets4_def)
  have "sextets4 al ?v = sextets4 al ?v' \<and> b64_encode al pad rest = b64_encode al pad rest'"
    using "4.prems"(5) ys(1) append_eq_append_conv [OF disjI1, OF len] by simp
  moreover have "?v < 16777216" "?v' < 16777216"
    using unat_byte_less [of a] unat_byte_less [of b] unat_byte_less [of c]
      unat_byte_less [of a'] unat_byte_less [of b'] unat_byte_less [of c'] by linarith+
  ultimately have "?v = ?v'" using sextets4_inj [OF "4.prems"(1,2)] by blast
  moreover have "3 dvd length rest" using "4.prems"(4) by (simp add: dvd_add_right_iff) presburger
  moreover have "rest = rest'"
    using "4.prems"(1,2) \<open>_ \<and> b64_encode al pad rest = b64_encode al pad rest'\<close>
      \<open>3 dvd length rest\<close> by (intro "4.IH" ys(2)) simp_all
  ultimately show ?case using octets_inj ys(1) by blast
qed simp

lemma urlAlphabet: "distinct urlAlphabet" "length urlAlphabet = 64"
  by (simp_all add: urlAlphabet_def bytes_of_def)

lemma rawURLEncodeToString_inj:
  "length xs = length ys \<Longrightarrow> 3 dvd length xs \<Longrightarrow>
     rawURLEncodeToString xs = rawURLEncodeToString ys \<Longrightarrow> xs = ys"
  unfolding rawURLEncodeToString_def by (rule b64_encode_inj [OF urlAlphabet])

end
