(* ===== verification/Packet.thy ===== *)
theory Packet
  imports Base64
begin

text \<open>
  Packets and their types (\<^verbatim>\<open>packet.go\<close>, \<^verbatim>\<open>protocol.go\<close>) and the names of the transports
  (\<^verbatim>\<open>transport.go\<close>). A packet type is a \<^verbatim>\<open>uint8\<close>: the constructors below are its seven named
  values, and a decoded byte may be any other, which is why \<open>PacketType_valid\<close> exists.
\<close>

type_synonym PacketType = byte

definition PacketOpen :: PacketType where [simp]: "PacketOpen = 0"
definition PacketClose :: PacketType where [simp]: "PacketClose = 1"
definition PacketPing :: PacketType where [simp]: "PacketPing = 2"
definition PacketPong :: PacketType where [simp]: "PacketPong = 3"
definition PacketMessage :: PacketType where [simp]: "PacketMessage = 4"
definition PacketUpgrade :: PacketType where [simp]: "PacketUpgrade = 5"
definition PacketNoop :: PacketType where [simp]: "PacketNoop = 6"

record Packet =
  Type :: PacketType
  Data :: bytes
  IsBinary :: bool

abbreviation text_packet :: "PacketType \<Rightarrow> bytes \<Rightarrow> Packet" where
  "text_packet t d \<equiv> \<lparr>Type = t, Data = d, IsBinary = False\<rparr>"

abbreviation binary_packet :: "PacketType \<Rightarrow> bytes \<Rightarrow> Packet" where
  "binary_packet t d \<equiv> \<lparr>Type = t, Data = d, IsBinary = True\<rparr>"

definition PacketType_String :: "PacketType \<Rightarrow> string" where
  "PacketType_String p =
     (if p = PacketOpen then ''open''
      else if p = PacketClose then ''close''
      else if p = PacketPing then ''ping''
      else if p = PacketPong then ''pong''
      else if p = PacketMessage then ''message''
      else if p = PacketUpgrade then ''upgrade''
      else if p = PacketNoop then ''noop''
      else ''unknown'')"

definition PacketType_Byte :: "PacketType \<Rightarrow> byte" where
  "PacketType_Byte p = p + 48"

definition PacketType_valid :: "PacketType \<Rightarrow> bool" where
  "PacketType_valid p \<longleftrightarrow> p \<le> PacketNoop"

definition PacketTypeFromByte :: "byte \<Rightarrow> PacketType" where
  "PacketTypeFromByte b = b - 48"

definition PacketTypeFromInt :: "8 word \<Rightarrow> PacketType" where
  "PacketTypeFromInt u = u"

text \<open>\<^verbatim>\<open>%x\<close> of a byte slice: two lower case hexadecimal digits per byte.\<close>

definition hex_digits :: string where
  "hex_digits = ''0123456789abcdef''"

definition hex :: "bytes \<Rightarrow> string" where
  "hex bs = concat (map (\<lambda>b. [hex_digits ! (unat b div 16), hex_digits ! (unat b mod 16)]) bs)"

definition Packet_String :: "Packet \<Rightarrow> string" where
  "Packet_String p =
     (if IsBinary p
      then ''Packet{Type: '' @ PacketType_String (Type p) @ '', Binary: '' @ hex (Data p) @ ''}''
      else ''Packet{Type: '' @ PacketType_String (Type p) @ '', Data: '' @ string_of (Data p) @ ''}'')"

text \<open>The transport names of \<^verbatim>\<open>transport.go\<close>: a \<^verbatim>\<open>TransportType\<close> is a string.\<close>

type_synonym TransportType = string

definition TransportTypePolling :: TransportType where
  [simp]: "TransportTypePolling = ''polling''"

definition TransportTypeWebSocket :: TransportType where
  [simp]: "TransportTypeWebSocket = ''websocket''"

definition TransportTypeWebTransport :: TransportType where
  [simp]: "TransportTypeWebTransport = ''webtransport''"

record OpenPacket =
  SessionID :: string
  Upgrades :: "TransportType list"
  PingInterval :: int
  PingTimeout :: int
  MaxPayload :: int

type_synonym ProtocolVersion = int

definition ProtocolVersion2 :: ProtocolVersion where [simp]: "ProtocolVersion2 = 2"
definition ProtocolVersion3 :: ProtocolVersion where [simp]: "ProtocolVersion3 = 3"
definition ProtocolVersion4 :: ProtocolVersion where [simp]: "ProtocolVersion4 = 4"
definition Protocol :: ProtocolVersion where "Protocol = ProtocolVersion4"

section \<open>Facts about packet types\<close>

text \<open>A packet the package builds or accepts: a known type, and binary only as a message.\<close>

definition wf_packet :: "Packet \<Rightarrow> bool" where
  "wf_packet p \<longleftrightarrow> PacketType_valid (Type p) \<and> (IsBinary p \<longrightarrow> Type p = PacketMessage)"

lemma PacketType_roundtrip [simp]:
  "PacketTypeFromByte (PacketType_Byte p) = p" "PacketType_Byte (PacketTypeFromByte b) = b"
  by (simp_all add: PacketTypeFromByte_def PacketType_Byte_def)

lemma valid_cases:
  assumes "PacketType_valid p"
  obtains "p = 0" | "p = 1" | "p = 2" | "p = 3" | "p = 4" | "p = 5" | "p = 6"
proof -
  from assms have "unat p \<le> 6" by (simp add: PacketType_valid_def word_le_nat_alt)
  then have "unat p \<in> {0, 1, 2, 3, 4, 5, 6}" by auto
  then have "p \<in> {0, 1, 2, 3, 4, 5, 6}" by (auto simp: word_unat_eq_iff)
  with that show thesis by auto
qed

end
