(* ===== verification/Encoding.thy ===== *)
theory Encoding
  imports Packet
begin

text \<open>
  The text wire form of a packet (\<^verbatim>\<open>encoding.go\<close>): the type digit followed by the data, or, for a
  binary message, the marker \<^verbatim>\<open>b\<close> followed by the base64 form of the data.
\<close>

definition BinaryMarker :: byte where
  [simp]: "BinaryMarker = 98"

definition appendPacket :: "bytes \<Rightarrow> Packet \<Rightarrow> bytes" where
  "appendPacket dst packet =
     (if IsBinary packet then stdAppendEncode (dst @ [BinaryMarker]) (Data packet)
      else (dst @ [PacketType_Byte (Type packet)]) @ Data packet)"

definition EncodePacket :: "Packet \<Rightarrow> bytes" where
  "EncodePacket packet = appendPacket [] packet"

definition DecodePacket :: "bytes \<Rightarrow> error + Packet" where
  "DecodePacket input =
     (case input of
        [] \<Rightarrow> Inl ErrEmptyPacket
      | b # rest \<Rightarrow>
          if b = BinaryMarker then
            (case stdDecodeString rest of
               Inl err \<Rightarrow> Inl (Errorf ''decoding base64: %w'' [] [err])
             | Inr data \<Rightarrow> Inr (binary_packet PacketMessage data))
          else
            (let packetType = PacketTypeFromByte b
             in if \<not> PacketType_valid packetType
                then Inl (Errorf ''%w: %q'' [uint b] [ErrInvalidPacketType])
                else Inr (text_packet packetType rest)))"

section \<open>The codec is faithful\<close>

lemma EncodePacket_binary: "IsBinary p \<Longrightarrow> EncodePacket p = 98 # b64_encode stdAlphabet True (Data p)"
  by (simp add: EncodePacket_def appendPacket_def stdAppendEncode_def)

lemma EncodePacket_text: "\<not> IsBinary p \<Longrightarrow> EncodePacket p = PacketType_Byte (Type p) # Data p"
  by (simp add: EncodePacket_def appendPacket_def)

lemma appendPacket_eq: "appendPacket dst p = dst @ EncodePacket p"
  by (simp add: EncodePacket_def appendPacket_def stdAppendEncode_def)

lemma EncodePacket_nonempty [simp]: "EncodePacket p \<noteq> []"
  by (cases "IsBinary p") (simp_all add: EncodePacket_binary EncodePacket_text)

lemma valid_not_marker: "PacketType_valid t \<Longrightarrow> PacketType_Byte t \<noteq> 98"
  by (erule valid_cases) (simp_all add: PacketType_Byte_def)

lemma DecodePacket_EncodePacket: "wf_packet p \<Longrightarrow> DecodePacket (EncodePacket p) = Inr p"
  by (cases "IsBinary p"; cases p)
    (simp_all add: EncodePacket_binary EncodePacket_text DecodePacket_def wf_packet_def
      valid_not_marker)

lemma DecodePacket_wf: "DecodePacket input = Inr p \<Longrightarrow> wf_packet p"
  by (auto simp: DecodePacket_def wf_packet_def PacketType_valid_def Let_def
      split: list.splits if_splits sum.splits)

lemma DecodePacket_text:
  "DecodePacket input = Inr p \<Longrightarrow> \<not> IsBinary p \<Longrightarrow> EncodePacket p = input"
  by (auto simp: DecodePacket_def EncodePacket_text Let_def
      split: list.splits if_splits sum.splits)

lemma DecodePacket_binary:
  "DecodePacket input = Inr p \<Longrightarrow> IsBinary p \<Longrightarrow>
     \<exists>enc. input = 98 # enc \<and> stdDecodeString enc = Inr (Data p)"
  by (auto simp: DecodePacket_def Let_def split: list.splits if_splits sum.splits)

interpretation packet_codec: item_codec EncodePacket DecodePacket wf_packet
  by unfold_locales (rule DecodePacket_EncodePacket)

text \<open>\<open>EncodePacket\<close> needs one byte for the type, and four for every three of a binary message.\<close>

lemma length_EncodePacket:
  "length (EncodePacket p) =
     (if IsBinary p then 1 + (length (Data p) + 2) div 3 * 4 else 1 + length (Data p))"
  by (simp add: EncodePacket_binary EncodePacket_text b64_encode_length)

text \<open>
  A packet survives the single-packet codec: decoding the encoding of a well-formed packet, text
  or binary, returns the packet.
\<close>

theorem packet_round_trip: "wf_packet p \<Longrightarrow> DecodePacket (EncodePacket p) = Inr p"
  by (rule DecodePacket_EncodePacket)

theorem packet_round_trip_witness:
  "DecodePacket (EncodePacket (binary_packet PacketMessage [0, 1, 0x1e, 255])) =
     Inr (binary_packet PacketMessage [0, 1, 0x1e, 255])"
  by (rule packet_round_trip) (simp add: wf_packet_def PacketType_valid_def)

text \<open>
  C33: \<^verbatim>\<open>DecodePacket\<close> accepts exactly the encodings: a text packet only from its own encoding, a binary
  one from the marker and any base64 text of its data.
\<close>

theorem DecodePacket_exact:
  "DecodePacket input = Inr p \<longleftrightarrow>
     wf_packet p \<and>
     (if IsBinary p then \<exists>enc. input = BinaryMarker # enc \<and> stdDecodeString enc = Inr (Data p)
      else input = EncodePacket p)"
proof
  assume dec: "DecodePacket input = Inr p"
  then show "wf_packet p \<and>
     (if IsBinary p then \<exists>enc. input = BinaryMarker # enc \<and> stdDecodeString enc = Inr (Data p)
      else input = EncodePacket p)"
    using DecodePacket_wf DecodePacket_text DecodePacket_binary by auto
next
  assume enc: "wf_packet p \<and>
     (if IsBinary p then \<exists>enc. input = BinaryMarker # enc \<and> stdDecodeString enc = Inr (Data p)
      else input = EncodePacket p)"
  show "DecodePacket input = Inr p"
  proof (cases "IsBinary p")
    case True
    with enc show ?thesis by (cases p) (auto simp: DecodePacket_def wf_packet_def)
  next
    case False
    with enc show ?thesis by (simp add: DecodePacket_EncodePacket)
  qed
qed

text \<open>
  The errors of \<^verbatim>\<open>DecodePacket\<close>: no bytes give the empty-packet error, a first byte that is neither
  the binary marker nor a type digit an error for which \<^verbatim>\<open>errors.Is\<close> reports the invalid-type error,
  and every other failure is that of the base64 decoder, wrapped.
\<close>

theorem DecodePacket_errors:
  "DecodePacket input = Inl err \<longleftrightarrow>
     input = [] \<and> err = ErrEmptyPacket \<or>
     (\<exists>b rest. input = b # rest \<and> b \<noteq> BinaryMarker \<and> \<not> PacketType_valid (PacketTypeFromByte b) \<and>
        err = Errorf ''%w: %q'' [uint b] [ErrInvalidPacketType]) \<or>
     (\<exists>enc e. input = BinaryMarker # enc \<and> stdDecodeString enc = Inl e \<and>
        err = Errorf ''decoding base64: %w'' [] [e])"
  by (cases input) (auto simp: DecodePacket_def Let_def split: sum.splits)

end
