(* ===== verification/Utf8.thy ===== *)
theory Utf8
  imports Prelude
begin

text \<open>
  Go's conversions between strings and rune slices, which the decoder of the v2/v3 string
  framing relies on: \<^verbatim>\<open>[]rune(s)\<close> decodes UTF-8 and turns every byte that does not start a valid
  sequence into U+FFFD, \<^verbatim>\<open>string(runes)\<close> encodes. A rune is a natural number.
\<close>

definition RuneError :: nat where
  "RuneError = 0xFFFD"

definition in_range :: "nat \<Rightarrow> nat \<Rightarrow> byte \<Rightarrow> bool" where
  "in_range lo hi b \<longleftrightarrow> lo \<le> unat b \<and> unat b \<le> hi"

text \<open>The accepted second bytes for each leading byte (\<^verbatim>\<open>acceptRanges\<close> of unicode/utf8).\<close>

definition second_ok :: "nat \<Rightarrow> byte \<Rightarrow> bool" where
  "second_ok n0 b =
     (if n0 = 0xE0 then in_range 0xA0 0xBF b
      else if n0 = 0xED then in_range 0x80 0x9F b
      else if n0 = 0xF0 then in_range 0x90 0xBF b
      else if n0 = 0xF4 then in_range 0x80 0x8F b
      else in_range 0x80 0xBF b)"

definition decodeRune :: "byte \<Rightarrow> bytes \<Rightarrow> nat \<times> bytes" where
  "decodeRune b0 bs =
     (let n0 = unat b0; invalid = (RuneError, bs)
      in if n0 < 0x80 then (n0, bs)
         else if 0xC2 \<le> n0 \<and> n0 \<le> 0xDF then
           (case bs of
              b1 # r \<Rightarrow>
                if second_ok n0 b1 then ((n0 - 0xC0) * 64 + (unat b1 - 0x80), r) else invalid
            | _ \<Rightarrow> invalid)
         else if 0xE0 \<le> n0 \<and> n0 \<le> 0xEF then
           (case bs of
              b1 # b2 # r \<Rightarrow>
                if second_ok n0 b1 \<and> in_range 0x80 0xBF b2
                then ((n0 - 0xE0) * 4096 + (unat b1 - 0x80) * 64 + (unat b2 - 0x80), r)
                else invalid
            | _ \<Rightarrow> invalid)
         else if 0xF0 \<le> n0 \<and> n0 \<le> 0xF4 then
           (case bs of
              b1 # b2 # b3 # r \<Rightarrow>
                if second_ok n0 b1 \<and> in_range 0x80 0xBF b2 \<and> in_range 0x80 0xBF b3
                then ((n0 - 0xF0) * 262144 + (unat b1 - 0x80) * 4096 + (unat b2 - 0x80) * 64 +
                        (unat b3 - 0x80), r)
                else invalid
            | _ \<Rightarrow> invalid)
         else invalid)"

lemma decodeRune_length: "decodeRune b bs = (r, rest) \<Longrightarrow> length rest \<le> length bs"
  by (auto simp: decodeRune_def Let_def split: if_splits list.splits)

function runes_of :: "bytes \<Rightarrow> nat list" where
  "runes_of [] = []"
| "runes_of (b # bs) = fst (decodeRune b bs) # runes_of (snd (decodeRune b bs))"
  by pat_completeness auto
termination
  by (relation "measure length") (auto simp: less_Suc_eq_le intro: decodeRune_length prod.collapse [symmetric])

definition encodeRune :: "nat \<Rightarrow> bytes" where
  "encodeRune r =
     (if r < 0x80 then [octet r]
      else if r < 0x800 then [octet (0xC0 + r div 64), octet (0x80 + r mod 64)]
      else if 0x10FFFF < r \<or> 0xD800 \<le> r \<and> r \<le> 0xDFFF then [0xEF, 0xBF, 0xBD]
      else if r < 0x10000 then
        [octet (0xE0 + r div 4096), octet (0x80 + r div 64 mod 64), octet (0x80 + r mod 64)]
      else
        [octet (0xF0 + r div 262144), octet (0x80 + r div 4096 mod 64),
         octet (0x80 + r div 64 mod 64), octet (0x80 + r mod 64)])"

definition string_of_runes :: "nat list \<Rightarrow> bytes" where
  "string_of_runes rs = concat (map encodeRune rs)"

definition valid_rune :: "nat \<Rightarrow> bool" where
  "valid_rune r \<longleftrightarrow> r < 0xD800 \<or> 0xE000 \<le> r \<and> r \<le> 0x10FFFF"

section \<open>Decoding inverts encoding\<close>

lemma string_of_runes_simps [simp]:
  "string_of_runes [] = []" "string_of_runes (r # rs) = encodeRune r @ string_of_runes rs"
  "string_of_runes (rs @ ss) = string_of_runes rs @ string_of_runes ss"
  by (simp_all add: string_of_runes_def)

lemma div_range: "(r :: nat) < k * n \<Longrightarrow> 0 < n \<Longrightarrow> r div n < k"
  by (rule less_mult_imp_div_less)

lemma decodeRune2:
  "2 \<le> x \<Longrightarrow> x < 32 \<Longrightarrow> y < 64 \<Longrightarrow>
     decodeRune (octet (0xC0 + x)) (octet (0x80 + y) # bs) = (x * 64 + y, bs)"
  by (simp add: decodeRune_def second_ok_def in_range_def Let_def)

lemma decodeRune3:
  "x < 16 \<Longrightarrow> y < 64 \<Longrightarrow> z < 64 \<Longrightarrow> (x = 0 \<Longrightarrow> 32 \<le> y) \<Longrightarrow> (x = 13 \<Longrightarrow> y \<le> 31) \<Longrightarrow>
     decodeRune (octet (0xE0 + x)) (octet (0x80 + y) # octet (0x80 + z) # bs) =
       (x * 4096 + y * 64 + z, bs)"
  by (simp add: decodeRune_def second_ok_def in_range_def Let_def)

lemma decodeRune4:
  "w \<le> 4 \<Longrightarrow> x < 64 \<Longrightarrow> y < 64 \<Longrightarrow> z < 64 \<Longrightarrow> (w = 0 \<Longrightarrow> 16 \<le> x) \<Longrightarrow> (w = 4 \<Longrightarrow> x \<le> 15) \<Longrightarrow>
     decodeRune (octet (0xF0 + w)) (octet (0x80 + x) # octet (0x80 + y) # octet (0x80 + z) # bs) =
       (w * 262144 + x * 4096 + y * 64 + z, bs)"
  by (simp add: decodeRune_def second_ok_def in_range_def Let_def)

lemma encodeRune_decode2:
  assumes "0x80 \<le> r" "r < 0x800"
  shows "\<exists>b pre. encodeRune r = b # pre \<and> (\<forall>bs. decodeRune b (pre @ bs) = (r, bs))"
proof -
  have "r div 64 < 32" using assms by (intro div_range) simp_all
  moreover have "2 \<le> r div 64" using div_le_mono [OF assms(1), of 64] by simp
  moreover have "encodeRune r = [octet (0xC0 + r div 64), octet (0x80 + r mod 64)]"
    using assms by (simp add: encodeRune_def)
  ultimately show ?thesis by (simp add: decodeRune2)
qed

lemma encodeRune_decode3:
  assumes "0x800 \<le> r" "r < 0x10000" "\<not> (0xD800 \<le> r \<and> r \<le> 0xDFFF)"
  shows "\<exists>b pre. encodeRune r = b # pre \<and> (\<forall>bs. decodeRune b (pre @ bs) = (r, bs))"
proof -
  let ?x = "r div 4096" let ?y = "r div 64 mod 64" let ?z = "r mod 64"
  note r = sextets_split3 [of r]
  have x: "?x < 16" using assms by (intro div_range) simp_all
  have z: "?z < 64" and y: "?y < 64" by simp_all
  have e0: "?x = 0 \<Longrightarrow> 32 \<le> ?y" using r z assms(1) by linarith
  have ed: "?x = 13 \<Longrightarrow> ?y \<le> 31"
    using r z y assms(3) by linarith
  have "encodeRune r = [octet (0xE0 + ?x), octet (0x80 + ?y), octet (0x80 + ?z)]"
    using assms by (auto simp: encodeRune_def)
  then show ?thesis using decodeRune3 [OF x y z e0 ed] r by simp
qed

lemma encodeRune_decode4:
  assumes "0x10000 \<le> r" "r \<le> 0x10FFFF"
  shows "\<exists>b pre. encodeRune r = b # pre \<and> (\<forall>bs. decodeRune b (pre @ bs) = (r, bs))"
proof -
  let ?w = "r div 262144" let ?x = "r div 4096 mod 64"
  let ?y = "r div 64 mod 64" let ?z = "r mod 64"
  note r = sextets_split4 [of r]
  have z: "?z < 64" and y: "?y < 64" and x: "?x < 64" by simp_all
  have w: "?w \<le> 4" using r assms(2) by linarith
  have f0: "?w = 0 \<Longrightarrow> 16 \<le> ?x" using r z y assms(1) by linarith
  have f4: "?w = 4 \<Longrightarrow> ?x \<le> 15" using r assms(2) by linarith
  have "encodeRune r =
      [octet (0xF0 + ?w), octet (0x80 + ?x), octet (0x80 + ?y), octet (0x80 + ?z)]"
    using assms by (simp add: encodeRune_def)
  then show ?thesis using decodeRune4 [OF w x y z f0 f4] r by simp
qed

lemma encodeRune_decode:
  assumes "valid_rune r"
  obtains b pre where "encodeRune r = b # pre" "\<And>bs. decodeRune b (pre @ bs) = (r, bs)"
proof -
  consider "r < 0x80" | "0x80 \<le> r" "r < 0x800"
    | "0x800 \<le> r" "r < 0x10000" "\<not> (0xD800 \<le> r \<and> r \<le> 0xDFFF)"
    | "0x10000 \<le> r" "r \<le> 0x10FFFF"
    using assms by (fastforce simp: valid_rune_def)
  then have "\<exists>b pre. encodeRune r = b # pre \<and> (\<forall>bs. decodeRune b (pre @ bs) = (r, bs))"
  proof cases
    case 1
    then show ?thesis by (simp add: encodeRune_def decodeRune_def)
  qed (rule encodeRune_decode2 encodeRune_decode3 encodeRune_decode4, assumption+)+
  with that show ?thesis by blast
qed

lemma runes_of_encodeRune:
  assumes "valid_rune r"
  shows "runes_of (encodeRune r @ bs) = r # runes_of bs"
  using encodeRune_decode [OF assms] by (metis append_Cons fst_conv runes_of.simps(2) snd_conv)

lemma runes_of_string_of_runes:
  "(\<And>r. r \<in> set rs \<Longrightarrow> valid_rune r) \<Longrightarrow> runes_of (string_of_runes rs @ bs) = rs @ runes_of bs"
  by (induction rs) (simp_all add: runes_of_encodeRune)

lemma second_ok_bounds:
  "second_ok n b \<Longrightarrow>
     unat b - 128 \<le> 63 \<and> (n = 0xED \<longrightarrow> unat b - 128 \<le> 31) \<and> (n = 0xF4 \<longrightarrow> unat b - 128 \<le> 15)"
  by (auto simp: second_ok_def in_range_def split: if_splits)

lemma in_range_bounds: "in_range 0x80 0xBF b \<Longrightarrow> unat b - 128 \<le> 63"
  by (auto simp: in_range_def)

lemma valid_rune3:
  "x \<le> 15 \<Longrightarrow> y \<le> 63 \<Longrightarrow> z \<le> 63 \<Longrightarrow> x = 13 \<longrightarrow> y \<le> 31 \<Longrightarrow> valid_rune (x * 4096 + y * 64 + z)"
  by (cases "x \<le> 12"; cases "x = 13") (simp_all add: valid_rune_def)

lemma valid_rune4:
  "w \<le> 4 \<Longrightarrow> x \<le> 63 \<Longrightarrow> y \<le> 63 \<Longrightarrow> z \<le> 63 \<Longrightarrow> w = 4 \<longrightarrow> x \<le> 15 \<Longrightarrow> w = 0 \<longrightarrow> 16 \<le> x \<Longrightarrow>
     valid_rune (w * 262144 + x * 4096 + y * 64 + z)"
  by (cases "w = 4"; cases "w = 0") (simp_all add: valid_rune_def)

lemma second_ok_F0: "second_ok 0xF0 b \<Longrightarrow> 16 \<le> unat b - 128"
  by (auto simp: second_ok_def in_range_def)

lemma valid_rune2: "x \<le> 31 \<Longrightarrow> y \<le> 63 \<Longrightarrow> valid_rune (x * 64 + y)"
  by (simp add: valid_rune_def)

lemma decodeRune_valid: "valid_rune (fst (decodeRune b bs))"
proof -
  let ?n = "unat b"
  have err: "valid_rune RuneError" by (simp add: valid_rune_def RuneError_def)
  consider "?n < 0x80" | "0xC2 \<le> ?n" "?n \<le> 0xDF" | "0xE0 \<le> ?n" "?n \<le> 0xEF"
    | "0xF0 \<le> ?n" "?n \<le> 0xF4" | "0x80 \<le> ?n" "?n < 0xC2" | "0xF5 \<le> ?n"
    by linarith
  then show ?thesis
  proof cases
    case 1
    then show ?thesis by (simp add: decodeRune_def valid_rune_def)
  next
    case 2
    then have "valid_rune ((?n - 0xC0) * 64 + (unat c - 128))" if "second_ok ?n c" for c
      using second_ok_bounds [OF that] by (intro valid_rune2) auto
    with 2 err show ?thesis by (cases bs) (simp_all add: decodeRune_def Let_def)
  next
    case 3
    then have "valid_rune ((?n - 0xE0) * 4096 + (unat c - 128) * 64 + (unat d - 128))"
      if "second_ok ?n c" "in_range 0x80 0xBF d" for c d
      using second_ok_bounds [OF that(1)] in_range_bounds [OF that(2)] by (intro valid_rune3) auto
    with 3 err show ?thesis by (simp add: decodeRune_def Let_def split: list.splits)
  next
    case 4
    then have "valid_rune ((?n - 0xF0) * 262144 + (unat c - 128) * 4096 + (unat d - 128) * 64 +
        (unat e - 128))"
      if "second_ok ?n c" "in_range 0x80 0xBF d" "in_range 0x80 0xBF e" for c d e
      using second_ok_bounds [OF that(1)] in_range_bounds [OF that(2)] in_range_bounds [OF that(3)]
        second_ok_F0 [of c] that(1)
      by (intro valid_rune4) (auto dest: le_antisym)
    with 4 err show ?thesis by (simp add: decodeRune_def Let_def split: list.splits)
  qed (simp_all add: decodeRune_def Let_def err)
qed

lemma runes_of_valid: "r \<in> set (runes_of bs) \<Longrightarrow> valid_rune r"
  by (induction bs rule: runes_of.induct) (auto simp: decodeRune_valid)

lemma valid_rune_ascii: "r < 128 \<Longrightarrow> valid_rune r"
  by (simp add: valid_rune_def)

text \<open>Well-formed UTF-8 is what survives the round trip through runes.\<close>

definition valid_utf8 :: "bytes \<Rightarrow> bool" where
  "valid_utf8 bs \<longleftrightarrow> string_of_runes (runes_of bs) = bs"

lemma valid_utf8_ascii: "(\<And>b. b \<in> set bs \<Longrightarrow> unat b < 128) \<Longrightarrow> valid_utf8 bs \<and> runes_of bs = map unat bs"
  by (induction bs) (auto simp: valid_utf8_def decodeRune_def encodeRune_def)

lemma runes_of_ascii:
  "(\<And>b. b \<in> set bs \<Longrightarrow> unat b < 128) \<Longrightarrow> runes_of (bs @ cs) = map unat bs @ runes_of cs"
  by (induction bs) (auto simp: decodeRune_def)

lemma string_of_runes_ascii:
  "(\<And>r. r \<in> set rs \<Longrightarrow> r < 128) \<Longrightarrow> string_of_runes rs = map octet rs"
  by (induction rs) (auto simp: encodeRune_def)

end
