(* ===== verification/Payload.thy ===== *)
theory Payload
  imports Encoding Utf8
begin

text \<open>
  Long-polling payloads (\<^verbatim>\<open>payload.go\<close>). Encoding is v4 only: packets joined by the record separator.
  Decoding also understands the v2/v3 string framing \<^verbatim>\<open><length>:<packet>\<close>, whose lengths count
  runes, and the v3 binary framing. The two legacy decoders walk the input with a cursor and
  compute slice bounds in Go \<^verbatim>\<open>int\<close> arithmetic; the model keeps the cursor, the wrap-around and the
  run-time panic of an invalid slice expression.
\<close>

definition Separator :: byte where
  [simp]: "Separator = 0x1e"

definition binaryStringMarker :: byte where
  [simp]: "binaryStringMarker = 0"

definition binaryBinaryMarker :: byte where
  [simp]: "binaryBinaryMarker = 1"

definition binaryLengthTerminator :: byte where
  [simp]: "binaryLengthTerminator = 0xff"

section \<open>Encoding\<close>

text \<open>The loop of \<^verbatim>\<open>appendPayload\<close>: \<open>i\<close> is the index of the first remaining packet.\<close>

fun appendPayload_loop :: "nat \<Rightarrow> bytes \<Rightarrow> Packet list \<Rightarrow> bytes" where
  "appendPayload_loop i dst [] = dst"
| "appendPayload_loop i dst (packet # packets) =
     (let dst = (if i > 0 then dst @ [Separator] else dst)
      in appendPayload_loop (Suc i) (appendPacket dst packet) packets)"

definition appendPayload :: "bytes \<Rightarrow> Packet list \<Rightarrow> bytes" where
  "appendPayload dst packets = appendPayload_loop 0 dst packets"

definition EncodePayload :: "Packet list \<Rightarrow> bytes" where
  "EncodePayload packets = appendPayload [] packets"

section \<open>Decoding: record separator framing (v4)\<close>

definition decodeSegment :: "bytes \<Rightarrow> error + Packet" where
  "decodeSegment segment =
     (case DecodePacket segment of
        Inl err \<Rightarrow> Inl (Errorf ''decoding packet: %w'' [] [err])
      | Inr packet \<Rightarrow> Inr packet)"

definition decodeRecordSeparatorPayload :: "bytes \<Rightarrow> error + Packet list" where
  "decodeRecordSeparatorPayload input = traverse decodeSegment (split_on Separator input)"

section \<open>Decoding: string framing (v2, v3)\<close>

text \<open>\<^verbatim>\<open>slices.Index\<close>.\<close>

fun index_of :: "'a \<Rightarrow> 'a list \<Rightarrow> nat option" where
  "index_of x [] = None"
| "index_of x (y # ys) = (if y = x then Some 0 else map_option Suc (index_of x ys))"

text \<open>
  \<^verbatim>\<open>strconv.Atoi\<close>: an optional sign and at least one decimal digit. The digits are accumulated as
  an unsigned 64 bit number; overflowing it is a range error even if a later byte is no digit.
\<close>

fun parseUint :: "nat \<Rightarrow> bytes \<Rightarrow> error + nat" where
  "parseUint n [] = Inr n"
| "parseUint n (c # cs) =
     (if unat c < 48 \<or> 57 < unat c then Inl AtoiErrSyntax
      else if 2 ^ 64 \<le> n * 10 + (unat c - 48) then Inl AtoiErrRange
      else parseUint (n * 10 + (unat c - 48)) cs)"

definition Atoi :: "bytes \<Rightarrow> error + int" where
  "Atoi s =
     (case s of
        [] \<Rightarrow> Inl AtoiErrSyntax
      | c # cs \<Rightarrow>
          (let neg = (c = 45); digits = (if c = 43 \<or> c = 45 then cs else s)
           in if digits = [] then Inl AtoiErrSyntax
              else (case parseUint 0 digits of
                      Inl err \<Rightarrow> Inl err
                    | Inr un \<Rightarrow>
                        if \<not> neg \<and> 2 ^ 63 \<le> un then Inl AtoiErrRange
                        else if neg \<and> 2 ^ 63 < un then Inl AtoiErrRange
                        else Inr (if neg then - int un else int un))))"

definition decodeStringFramedPacket :: "bytes \<Rightarrow> error + Packet" where
  "decodeStringFramedPacket packet =
     (case packet of
        [] \<Rightarrow> Inl ErrEmptyPacket
      | b # rest \<Rightarrow>
          if b = BinaryMarker then
            (case rest of
               [] \<Rightarrow> Inl (Errorf ''%w: truncated binary packet'' [] [ErrMalformedPayload])
             | t # enc \<Rightarrow>
                 (let packetType = PacketTypeFromByte t
                  in if \<not> PacketType_valid packetType
                     then Inl (Errorf ''%w: %q'' [uint t] [ErrInvalidPacketType])
                     else (case stdDecodeString enc of
                             Inl err \<Rightarrow> Inl (Errorf ''decoding base64: %w'' [] [err])
                           | Inr data \<Rightarrow> Inr (binary_packet packetType data))))
          else
            (let packetType = PacketTypeFromByte b
             in if \<not> PacketType_valid packetType
                then Inl (Errorf ''%w: %q'' [uint b] [ErrInvalidPacketType])
                else Inr (text_packet packetType rest)))"

text \<open>
  A Go slice expression \<^verbatim>\<open>s[low:high]\<close> with \<^verbatim>\<open>high\<close> an \<^verbatim>\<open>int\<close> panics unless
  \<^verbatim>\<open>0 <= low <= high <= len(s)\<close> (the slices here are never longer than their capacity).
\<close>

definition slice :: "'a list \<Rightarrow> nat \<Rightarrow> int \<Rightarrow> 'a list result" where
  "slice xs low high =
     (if int low \<le> high \<and> high \<le> int (length xs)
      then Inr (take (nat high - low) (drop low xs))
      else Inl (Panic SliceBoundsOutOfRange))"

text \<open>One iteration of the loop of \<^verbatim>\<open>decodeStringFramedPayload\<close>: the packet and the next cursor.\<close>

definition stringFrame :: "nat list \<Rightarrow> nat \<Rightarrow> (Packet \<times> nat) result" where
  "stringFrame runes cursor =
     (case index_of 58 (drop cursor runes) of
        None \<Rightarrow> Inl (Error (Errorf ''%w: missing length separator'' [] [ErrMalformedPayload]))
      | Some offset \<Rightarrow>
          (let separator = offset + cursor
           in case Atoi (string_of_runes (take offset (drop cursor runes))) of
                Inl err \<Rightarrow> Inl (Error (Errorf ''%w: invalid length: %w'' [] [ErrMalformedPayload, err]))
              | Inr len \<Rightarrow>
                  (let start = separator + 1; end' = wrap64 (int start + len)
                   in if len < 0 \<or> int (length runes) < end'
                      then Inl (Error (Errorf ''%w: length exceeds payload'' [] [ErrMalformedPayload]))
                      else (case slice runes start end' of
                              Inl f \<Rightarrow> Inl f
                            | Inr body \<Rightarrow>
                                (case decodeStringFramedPacket (string_of_runes body) of
                                   Inl err \<Rightarrow> Inl (Error err)
                                 | Inr packet \<Rightarrow> Inr (packet, nat end'))))))"

lemma slice_Inr: "slice xs low high = Inr ys \<Longrightarrow> int low \<le> high \<and> high \<le> int (length xs)"
  by (simp add: slice_def split: if_splits)

lemma stringFrame_advances: "stringFrame runes cursor = Inr (p, next) \<Longrightarrow> cursor < next"
  by (auto simp: stringFrame_def Let_def dest: slice_Inr split: option.splits sum.splits if_splits)

function stringFrames :: "nat list \<Rightarrow> nat \<Rightarrow> Packet list result" where
  "stringFrames runes cursor =
     (if cursor < length runes then
        (case stringFrame runes cursor of
           Inl f \<Rightarrow> Inl f
         | Inr (packet, next) \<Rightarrow>
             (case stringFrames runes next of
                Inl f \<Rightarrow> Inl f
              | Inr packets \<Rightarrow> Inr (packet # packets)))
      else Inr [])"
  by pat_completeness auto
termination
  by (relation "measure (\<lambda>(runes, cursor). length runes - cursor)")
    (auto dest!: stringFrame_advances)

declare stringFrames.simps [simp del]

definition decodeStringFramedPayload :: "bytes \<Rightarrow> Packet list result" where
  "decodeStringFramedPayload input = stringFrames (runes_of input) 0"

section \<open>Decoding: binary framing (v3)\<close>

text \<open>
  The inner loop that reads the length, one value byte per decimal digit, up to the terminator:
  the length (a wrapping \<^verbatim>\<open>int\<close>) and the cursor behind the terminator.
\<close>

fun binaryLength :: "bytes \<Rightarrow> int \<Rightarrow> nat \<Rightarrow> error + (int \<times> nat)" where
  "binaryLength [] len cursor =
     Inl (Errorf ''%w: missing length terminator'' [] [ErrMalformedPayload])"
| "binaryLength (digit # rest) len cursor =
     (if digit = binaryLengthTerminator then Inr (len, Suc cursor)
      else if 9 < unat digit
      then Inl (Errorf ''%w: invalid length digit %#x'' [uint digit] [ErrMalformedPayload])
      else binaryLength rest (wrap64 (len * 10 + uint digit)) (Suc cursor))"

definition decodeBinaryFramedPacket :: "byte \<Rightarrow> bytes \<Rightarrow> error + Packet" where
  "decodeBinaryFramedPacket marker body =
     (if marker = binaryStringMarker then decodeStringFramedPacket body
      else (case body of
              [] \<Rightarrow> Inl (Errorf ''%w: empty binary packet'' [] [ErrMalformedPayload])
            | t # data \<Rightarrow>
                if \<not> PacketType_valid t
                then Inl (Errorf ''%w: %#x'' [uint t] [ErrInvalidPacketType])
                else Inr (binary_packet t data)))"

definition binaryFrame :: "bytes \<Rightarrow> nat \<Rightarrow> (Packet \<times> nat) result" where
  "binaryFrame input cursor =
     (let marker = input ! cursor
      in if marker \<noteq> binaryStringMarker \<and> marker \<noteq> binaryBinaryMarker
         then Inl (Error (Errorf ''%w: invalid frame marker %#x'' [uint marker] [ErrMalformedPayload]))
         else (case binaryLength (drop (Suc cursor) input) 0 (Suc cursor) of
                 Inl err \<Rightarrow> Inl (Error err)
               | Inr (len, cursor') \<Rightarrow>
                   (let end' = wrap64 (int cursor' + len)
                    in if int (length input) < end'
                       then Inl (Error (Errorf ''%w: length exceeds payload'' [] [ErrMalformedPayload]))
                       else (case slice input cursor' end' of
                               Inl f \<Rightarrow> Inl f
                             | Inr body \<Rightarrow>
                                 (case decodeBinaryFramedPacket marker body of
                                    Inl err \<Rightarrow> Inl (Error err)
                                  | Inr packet \<Rightarrow> Inr (packet, nat end'))))))"

lemma binaryLength_cursor: "binaryLength bs len c = Inr (len', c') \<Longrightarrow> c < c' \<and> c' \<le> c + length bs"
  by (induction bs len c rule: binaryLength.induct) (fastforce split: if_splits)+

lemma binaryFrame_advances: "binaryFrame input cursor = Inr (p, next) \<Longrightarrow> cursor < next"
  by (force simp: binaryFrame_def Let_def dest: slice_Inr binaryLength_cursor
      split: sum.splits prod.splits if_splits)

function binaryFrames :: "bytes \<Rightarrow> nat \<Rightarrow> Packet list result" where
  "binaryFrames input cursor =
     (if cursor < length input then
        (case binaryFrame input cursor of
           Inl f \<Rightarrow> Inl f
         | Inr (packet, next) \<Rightarrow>
             (case binaryFrames input next of
                Inl f \<Rightarrow> Inl f
              | Inr packets \<Rightarrow> Inr (packet # packets)))
      else Inr [])"
  by pat_completeness auto
termination
  by (relation "measure (\<lambda>(input, cursor). length input - cursor)")
    (auto dest!: binaryFrame_advances)

declare binaryFrames.simps [simp del]

definition decodeBinaryFramedPayload :: "bytes \<Rightarrow> Packet list result" where
  "decodeBinaryFramedPayload input = binaryFrames input 0"

section \<open>Decoding by protocol version\<close>

definition DecodePayload :: "ProtocolVersion \<Rightarrow> bytes \<Rightarrow> Packet list result" where
  "DecodePayload version input =
     (if version = ProtocolVersion4 then lift_error (decodeRecordSeparatorPayload input)
      else if version = ProtocolVersion3 then
        (if input \<noteq> [] \<and> (input ! 0 = binaryStringMarker \<or> input ! 0 = binaryBinaryMarker)
         then decodeBinaryFramedPayload input
         else decodeStringFramedPayload input)
      else if version = ProtocolVersion2 then decodeStringFramedPayload input
      else Inl (Error (Errorf ''%w: %d'' [version] [ErrUnsupportedProtocolVersion])))"

section \<open>v4: decoding inverts encoding\<close>

lemma appendPayload_loop_pos:
  "0 < i \<Longrightarrow> appendPayload_loop i dst ps = dst @ concat (map (\<lambda>p. Separator # EncodePacket p) ps)"
  by (induction ps arbitrary: i dst) (simp_all add: appendPacket_eq)

lemma join_on_concat: "join_on s (x # xs) = x @ concat (map (\<lambda>y. s # y) xs)"
  by (induction xs arbitrary: x) simp_all

lemma appendPayload_eq: "appendPayload dst ps = dst @ join_on Separator (map EncodePacket ps)"
  by (cases ps)
    (simp_all add: appendPayload_def appendPayload_loop_pos appendPacket_eq join_on_concat comp_def)

lemma EncodePayload_eq: "EncodePayload ps = join_on Separator (map EncodePacket ps)"
  by (simp add: EncodePayload_def appendPayload_eq)

text \<open>A packet that can be carried in a v4 payload: its text data must not hold the separator.\<close>

definition payload_safe :: "Packet \<Rightarrow> bool" where
  "payload_safe p \<longleftrightarrow> wf_packet p \<and> (IsBinary p \<or> Separator \<notin> set (Data p))"

lemma payload_safe_separator: "payload_safe p \<Longrightarrow> Separator \<notin> set (EncodePacket p)"
proof (cases "IsBinary p")
  case True
  have "0x1e \<notin> set (b64_encode stdAlphabet True (Data p))"
    using b64_encode_set [of "Data p"] stdAlphabet_chars [of 30] by (auto simp: padChar_def)
  with True show ?thesis by (simp add: EncodePacket_binary)
next
  case False
  assume "payload_safe p"
  with False have "PacketType_valid (Type p)" "30 \<notin> set (Data p)"
    by (simp_all add: payload_safe_def wf_packet_def)
  then have "PacketType_Byte (Type p) \<noteq> 30"
    by (elim valid_cases) (simp_all add: PacketType_Byte_def)
  with False \<open>30 \<notin> set (Data p)\<close> show ?thesis by (simp add: EncodePacket_text)
qed

interpretation v4: separated_codec EncodePacket decodeSegment payload_safe Separator
  by unfold_locales
    (simp add: decodeSegment_def payload_safe_def DecodePacket_EncodePacket,
      rule payload_safe_separator)

lemma decodeRecordSeparatorPayload_EncodePayload:
  "ps \<noteq> [] \<Longrightarrow> (\<And>p. p \<in> set ps \<Longrightarrow> payload_safe p) \<Longrightarrow>
     decodeRecordSeparatorPayload (EncodePayload ps) = Inr ps"
  unfolding decodeRecordSeparatorPayload_def EncodePayload_eq by (rule v4.traverse_split_join)

lemma length_EncodePayload:
  "ps \<noteq> [] \<Longrightarrow>
     length (EncodePayload ps) = sum_list (map (\<lambda>p. length (EncodePacket p)) ps) + (length ps - 1)"
  by (simp add: EncodePayload_eq length_join_on comp_def)

lemma decodeRecordSeparatorPayload_wf:
  assumes "decodeRecordSeparatorPayload input = Inr ps" and "p \<in> set ps"
  shows "wf_packet p"
proof -
  from assms(1) have "list_all2 (\<lambda>s p. decodeSegment s = Inr p) (split_on Separator input) ps"
    by (simp add: decodeRecordSeparatorPayload_def traverse_Inr)
  with assms(2) obtain s where "decodeSegment s = Inr p"
    by (auto simp: list_all2_conv_all_nth in_set_conv_nth)
  then show ?thesis
    by (auto simp: decodeSegment_def DecodePacket_wf split: sum.splits)
qed

text \<open>The number of packets is the number of separators plus one.\<close>

lemma length_split_on: "length (split_on s xs) = Suc (count_list xs s)"
proof (induction xs)
  case (Cons x xs)
  then show ?case by (cases "split_on s xs") auto
qed simp

lemma decodeRecordSeparatorPayload_length:
  "decodeRecordSeparatorPayload input = Inr ps \<Longrightarrow> length ps = Suc (count_list input Separator)"
  by (auto simp: decodeRecordSeparatorPayload_def traverse_Inr length_split_on
      dest!: list_all2_lengthD)

section \<open>Decimal lengths\<close>

fun decimal :: "nat \<Rightarrow> nat list" where
  "decimal n = (if n < 10 then [n] else decimal (n div 10) @ [n mod 10])"

declare decimal.simps [simp del]

lemma decimal_digits: "d \<in> set (decimal n) \<Longrightarrow> d < 10"
proof (induction n rule: decimal.induct)
  case (1 n)
  then show ?case by (subst (asm) (2) decimal.simps) (auto split: if_splits)
qed

lemma decimal_nonempty [simp]: "decimal n \<noteq> []"
  by (subst decimal.simps) simp

text \<open>Reading the digits back, most significant first.\<close>

lemma foldl_decimal: "foldl (\<lambda>n d. n * 10 + d) 0 (decimal n) = n"
proof (induction n rule: decimal.induct)
  case (1 n)
  then show ?case by (subst decimal.simps) (simp add: div_mult_mod_eq)
qed

lemma foldl_digits_mono: "m \<le> foldl (\<lambda>n d. n * 10 + d) (m :: nat) es"
proof (induction es arbitrary: m)
  case (Cons d es)
  have "m \<le> m * 10 + d" by simp
  also have "\<dots> \<le> foldl (\<lambda>n d. n * 10 + d) (m * 10 + d) es" by (rule Cons.IH)
  finally show ?case by simp
qed simp

lemma parseUint_digits:
  "(\<And>d. d \<in> set ds \<Longrightarrow> d < 10) \<Longrightarrow> foldl (\<lambda>n d. n * 10 + d) n ds < 2 ^ 64 \<Longrightarrow>
     parseUint n (map (\<lambda>d. octet (48 + d)) ds) = Inr (foldl (\<lambda>n d. n * 10 + d) n ds)"
proof (induction ds arbitrary: n)
  case (Cons d ds)
  have d: "d < 10" using Cons.prems(1) by simp
  moreover have "n * 10 + d < 2 ^ 64"
    using foldl_digits_mono [of "n * 10 + d" ds] Cons.prems(2) by simp
  moreover have "unat (octet (48 + d)) = 48 + d" and "\<not> 9 < d" using d by simp_all
  ultimately show ?case using Cons by simp
qed simp

definition decimal_string :: "nat \<Rightarrow> bytes" where
  "decimal_string n = map (\<lambda>d. octet (48 + d)) (decimal n)"

lemma decimal_string_chars:
  "b \<in> set (decimal_string n) \<Longrightarrow> 48 \<le> unat b \<and> unat b \<le> 57"
  by (auto simp: decimal_string_def dest: decimal_digits)

lemma decimal_string_nonempty [simp]: "decimal_string n \<noteq> []"
  by (simp add: decimal_string_def)

lemma Atoi_decimal_string:
  assumes "n < 2 ^ 63"
  shows "Atoi (decimal_string n) = Inr (int n)"
proof -
  have "parseUint 0 (decimal_string n) = Inr n"
    unfolding decimal_string_def
    using parseUint_digits [of "decimal n" 0] foldl_decimal [of n] decimal_digits [of _ n] assms
    by simp
  moreover obtain c cs where cs: "decimal_string n = c # cs"
    by (cases "decimal_string n") simp_all
  moreover have "c \<noteq> 43 \<and> c \<noteq> 45"
    using decimal_string_chars [of c n] cs by auto
  ultimately show ?thesis using assms by (simp add: Atoi_def Let_def)
qed

lemma binaryLength_digits:
  "(\<And>d. d \<in> set ds \<Longrightarrow> d < 10) \<Longrightarrow>
     binaryLength (map octet ds @ rest) len c =
       binaryLength rest (foldl (\<lambda>l d. wrap64 (l * 10 + int d)) len ds) (c + length ds)"
proof (induction ds arbitrary: len c)
  case (Cons d ds)
  have d: "d < 10" using Cons.prems [of d] by simp
  then have "unat (octet d) = d" by simp
  then have "uint (octet d) = int d" by (simp only: uint_nat)
  moreover have "octet d \<noteq> 255"
  proof
    assume "octet d = 255"
    then have "unat (octet d) = unat (255 :: byte)" by (rule arg_cong)
    with d show False by simp
  qed
  moreover have "\<not> 9 < unat (octet d)" using d by simp
  ultimately show ?case using Cons by simp
qed simp

lemma foldl_wrap_digits:
  "foldl (\<lambda>n d. n * 10 + d) n ds < 2 ^ 63 \<Longrightarrow>
     foldl (\<lambda>l d. wrap64 (l * 10 + int d)) (int n) ds = int (foldl (\<lambda>n d. n * 10 + d) n ds)"
proof (induction ds arbitrary: n)
  case (Cons d ds)
  have "n * 10 + d < 2 ^ 63"
    using foldl_digits_mono [of "n * 10 + d" ds] Cons.prems by simp
  then have "wrap64 (int n * 10 + int d) = int (n * 10 + d)"
    by (subst wrap64_id) simp_all
  with Cons.IH [of "n * 10 + d"] Cons.prems show ?case by simp
qed simp

lemma binaryLength_decimal:
  assumes "n < 2 ^ 63"
  shows "binaryLength (map octet (decimal n) @ 255 # rest) 0 c =
    Inr (int n, c + length (decimal n) + 1)"
  using binaryLength_digits [of "decimal n" "255 # rest" 0 c] decimal_digits [of _ n]
    foldl_wrap_digits [of 0 "decimal n"] foldl_decimal [of n] assms by simp

section \<open>The legacy framings decode what the protocol documents\<close>

text \<open>
  The package never encodes the v2/v3 framings. The reference encoders below follow their
  description in \<^verbatim>\<open>payload.go\<close>: they are the specification the two decoders are checked against.
\<close>

definition legacy_ok :: "Packet \<Rightarrow> bool" where
  "legacy_ok p \<longleftrightarrow> PacketType_valid (Type p)"

definition string_body :: "Packet \<Rightarrow> bytes" where
  "string_body p =
     (if IsBinary p then BinaryMarker # PacketType_Byte (Type p) # b64_encode stdAlphabet True (Data p)
      else PacketType_Byte (Type p) # Data p)"

definition string_frame :: "Packet \<Rightarrow> nat list" where
  "string_frame p =
     map unat (decimal_string (length (runes_of (string_body p)))) @ 58 # runes_of (string_body p)"

definition binary_body :: "Packet \<Rightarrow> bytes" where
  "binary_body p = (if IsBinary p then Type p # Data p else PacketType_Byte (Type p) # Data p)"

definition binary_frame :: "Packet \<Rightarrow> bytes" where
  "binary_frame p =
     (if IsBinary p then binaryBinaryMarker else binaryStringMarker) #
     map octet (decimal (length (binary_body p))) @ binaryLengthTerminator # binary_body p"

lemma decodeStringFramedPacket_string_body:
  "legacy_ok p \<Longrightarrow> decodeStringFramedPacket (string_body p) = Inr p"
  by (cases p) (simp add: decodeStringFramedPacket_def string_body_def legacy_ok_def valid_not_marker)

lemma decodeBinaryFramedPacket_binary_body:
  "legacy_ok p \<Longrightarrow>
     decodeBinaryFramedPacket (if IsBinary p then binaryBinaryMarker else binaryStringMarker)
       (binary_body p) = Inr p"
proof (cases "IsBinary p")
  case True
  then show "legacy_ok p \<Longrightarrow> ?thesis"
    by (cases p) (simp add: decodeBinaryFramedPacket_def binary_body_def legacy_ok_def)
next
  case False
  then have "binary_body p = string_body p" by (simp add: binary_body_def string_body_def)
  with False show "legacy_ok p \<Longrightarrow> ?thesis"
    using decodeStringFramedPacket_string_body [of p] by (simp add: decodeBinaryFramedPacket_def)
qed

lemma slice_frame [simp]:
  "slice (pre @ body @ rest) (length pre) (int (length pre + length body)) = Inr body"
  by (simp add: slice_def)

lemma binaryFrame_binary_frame:
  assumes ok: "legacy_ok p" and lim: "length (pre @ binary_frame p @ rest) < 2 ^ 63"
  shows "binaryFrame (pre @ binary_frame p @ rest) (length pre) =
    Inr (p, length pre + length (binary_frame p))"
proof -
  let ?b = "binary_body p"
  let ?head = "pre @ (if IsBinary p then binaryBinaryMarker else binaryStringMarker) #
    map octet (decimal (length ?b)) @ [255]"
  have inp: "pre @ binary_frame p @ rest = ?head @ ?b @ rest"
    by (simp add: binary_frame_def)
  have "length ?b < 2 ^ 63" using lim by (simp add: inp)
  then have "binaryLength (drop (Suc (length pre)) (pre @ binary_frame p @ rest)) 0 (Suc (length pre)) =
      Inr (int (length ?b), length ?head)"
    by (simp add: binary_frame_def binaryLength_decimal)
  moreover have "wrap64 (int (length ?head) + int (length ?b)) = int (length ?head + length ?b)"
    using lim unfolding inp by (subst wrap64_id) simp_all
  moreover have "(pre @ binary_frame p @ rest) ! length pre =
      (if IsBinary p then binaryBinaryMarker else binaryStringMarker)"
    by (simp add: binary_frame_def)
  ultimately show ?thesis
    using decodeBinaryFramedPacket_binary_body [OF ok] slice_frame [of ?head ?b rest]
    by (simp add: binaryFrame_def Let_def inp [symmetric] binary_frame_def)
qed

interpretation v3_binary: cursor_loop binary_frame binaryFrame binaryFrames legacy_ok "2 ^ 63"
proof unfold_locales
  show "binary_frame p \<noteq> []" for p by (simp add: binary_frame_def)
qed (rule binaryFrame_binary_frame, assumption+, simp_all add: binaryFrames.simps)

text \<open>The string framing: its lengths count runes, so text data has to be well-formed UTF-8.\<close>

definition string_ok :: "Packet \<Rightarrow> bool" where
  "string_ok p \<longleftrightarrow> legacy_ok p \<and> (IsBinary p \<or> valid_utf8 (Data p))"

lemma stdAlphabet_ascii: "c \<in> set stdAlphabet \<Longrightarrow> unat c < 128"
  by (auto simp: stdAlphabet_def bytes_of_def)

lemma b64_encode_ascii: "c \<in> set (b64_encode stdAlphabet True bs) \<Longrightarrow> unat c < 128"
  using b64_encode_set [of bs] stdAlphabet_ascii by (auto simp: padChar_def)

lemma PacketType_Byte_ascii: "PacketType_valid t \<Longrightarrow> unat (PacketType_Byte t) < 128"
  by (erule valid_cases) (simp_all add: PacketType_Byte_def)

lemma valid_utf8_Cons: "unat b < 128 \<Longrightarrow> valid_utf8 bs \<Longrightarrow> valid_utf8 (b # bs)"
  by (simp add: valid_utf8_def decodeRune_def encodeRune_def)

lemma valid_utf8_string_body: "string_ok p \<Longrightarrow> valid_utf8 (string_body p)"
proof (cases "IsBinary p")
  case True
  assume "string_ok p"
  then have "\<And>c. c \<in> set (string_body p) \<Longrightarrow> unat c < 128"
    using True by (auto simp: string_body_def string_ok_def legacy_ok_def PacketType_Byte_ascii
        dest: b64_encode_ascii)
  then show ?thesis by (rule valid_utf8_ascii [THEN conjunct1])
next
  case False
  assume "string_ok p"
  with False show ?thesis
    by (simp add: string_body_def string_ok_def legacy_ok_def valid_utf8_Cons PacketType_Byte_ascii)
qed

lemma index_of_append:
  "x \<notin> set xs \<Longrightarrow> index_of x (xs @ x # ys) = Some (length xs)"
  by (induction xs) auto

lemma stringFrame_string_frame:
  assumes ok: "string_ok p" and lim: "length (pre @ string_frame p @ rest) < 2 ^ 63"
  shows "stringFrame (pre @ string_frame p @ rest) (length pre) =
    Inr (p, length pre + length (string_frame p))"
proof -
  let ?b = "runes_of (string_body p)"
  let ?d = "map unat (decimal_string (length ?b))"
  let ?head = "pre @ ?d @ [58]"
  have inp: "pre @ string_frame p @ rest = ?head @ ?b @ rest"
    by (simp add: string_frame_def)
  have digits: "\<And>r. r \<in> set ?d \<Longrightarrow> 48 \<le> r \<and> r \<le> 57"
    by (auto dest: decimal_string_chars)
  then have idx: "index_of 58 (drop (length pre) (pre @ string_frame p @ rest)) = Some (length ?d)"
    using index_of_append [of 58 ?d "?b @ rest"] by (fastforce simp: string_frame_def)
  have "string_of_runes ?d = map octet ?d"
    using digits by (intro string_of_runes_ascii) force
  then have str: "string_of_runes ?d = decimal_string (length ?b)"
    by (simp add: comp_def)
  have len: "length ?b < 2 ^ 63" using lim by (simp add: inp)
  have wrap: "wrap64 (int (length ?head) + int (length ?b)) = int (length ?head + length ?b)"
    using lim unfolding inp by (subst wrap64_id) simp_all
  have body: "decodeStringFramedPacket (string_of_runes ?b) = Inr p"
    using valid_utf8_string_body [OF ok] ok decodeStringFramedPacket_string_body [of p]
    by (simp add: valid_utf8_def string_ok_def)
  have start: "length ?d + length pre + 1 = length ?head" by simp
  have tk: "take (length ?d) (drop (length pre) (pre @ string_frame p @ rest)) = ?d"
    by (simp add: string_frame_def)
  have nat_end: "nat (int (length ?head + length ?b)) = length pre + length (string_frame p)"
    by (simp add: string_frame_def)
  show ?thesis
    unfolding stringFrame_def idx option.case Let_def tk str Atoi_decimal_string [OF len] sum.case
      start wrap nat_end
    unfolding inp slice_frame sum.case body
    by simp
qed

interpretation v3_string: cursor_loop string_frame stringFrame stringFrames string_ok "2 ^ 63"
proof unfold_locales
  show "string_frame p \<noteq> []" for p by (simp add: string_frame_def)
qed (rule stringFrame_string_frame, assumption+, simp_all add: stringFrames.simps)

lemma string_frame_valid_runes: "r \<in> set (string_frame p) \<Longrightarrow> valid_rune r"
  by (auto simp: string_frame_def runes_of_valid valid_rune_ascii dest!: decimal_string_chars)

text \<open>The reference encoders of whole payloads.\<close>

definition encodeStringFramedPayload :: "Packet list \<Rightarrow> bytes" where
  "encodeStringFramedPayload ps = string_of_runes (concat (map string_frame ps))"

definition encodeBinaryFramedPayload :: "Packet list \<Rightarrow> bytes" where
  "encodeBinaryFramedPayload ps = concat (map binary_frame ps)"

lemma runes_of_encodeStringFramedPayload:
  "runes_of (encodeStringFramedPayload ps) = concat (map string_frame ps)"
  using runes_of_string_of_runes [of "concat (map string_frame ps)" "[]"] string_frame_valid_runes
  by (auto simp: encodeStringFramedPayload_def)

lemma decodeStringFramedPayload_encode:
  "(\<And>p. p \<in> set ps \<Longrightarrow> string_ok p) \<Longrightarrow> length (concat (map string_frame ps)) < 2 ^ 63 \<Longrightarrow>
     decodeStringFramedPayload (encodeStringFramedPayload ps) = Inr ps"
  unfolding decodeStringFramedPayload_def runes_of_encodeStringFramedPayload
  by (rule v3_string.loop_frames)

lemma decodeBinaryFramedPayload_encode:
  "(\<And>p. p \<in> set ps \<Longrightarrow> legacy_ok p) \<Longrightarrow> length (encodeBinaryFramedPayload ps) < 2 ^ 63 \<Longrightarrow>
     decodeBinaryFramedPayload (encodeBinaryFramedPayload ps) = Inr ps"
  unfolding decodeBinaryFramedPayload_def encodeBinaryFramedPayload_def
  by (rule v3_binary.loop_frames)

section \<open>Lengths that overflow an int\<close>

lemma length_decimal: "length (decimal n) \<le> n div 10 + 1"
proof (induction n rule: decimal.induct)
  case (1 n)
  show ?case
  proof (cases "n < 10")
    case True
    then show ?thesis by (subst decimal.simps) simp
  next
    case False
    then have "1 \<le> n div 10" by (simp add: div_greater_zero_iff Suc_le_eq)
    moreover have "n div 10 div 10 < n div 10" using calculation by simp
    ultimately show ?thesis using 1 False by (subst decimal.simps) simp
  qed
qed

lemma wrap64_overflow: "2 ^ 63 \<le> i \<Longrightarrow> i < 2 ^ 64 \<Longrightarrow> wrap64 i = i - 2 ^ 64"
  by (simp add: wrap64_def mod_pos_geq mod_pos_pos_trivial)

lemma wrap64_eq_iff: "wrap64 a = wrap64 b \<longleftrightarrow> a mod 2 ^ 64 = b mod 2 ^ 64"
  by (simp add: wrap64_def mod_eq_dvd_iff)

lemma wrap64_mod: "wrap64 a mod 2 ^ 64 = a mod 2 ^ 64"
  by (simp add: wrap64_def mod_diff_left_eq)

lemma wrap64_digit: "wrap64 (wrap64 a * 10 + d) = wrap64 (a * 10 + d)"
  unfolding wrap64_eq_iff by (metis wrap64_mod mod_add_cong mod_mult_cong)

lemma foldl_wrap64:
  "foldl (\<lambda>l d. wrap64 (l * 10 + int d)) (wrap64 (int n)) ds =
     wrap64 (int (foldl (\<lambda>n d. n * 10 + d) n ds))"
proof (induction ds arbitrary: n)
  case (Cons d ds)
  show ?case using Cons [of "n * 10 + d"] by (simp add: wrap64_digit)
qed simp

lemma wrap64_0 [simp]: "wrap64 0 = 0"
  by (simp add: wrap64_def)

text \<open>What the v3 decoder sees of a binary frame: the declared length modulo \<open>2 ^ 64\<close>.\<close>

definition digits_value :: "nat list \<Rightarrow> nat" where
  "digits_value ds = foldl (\<lambda>n d. n * 10 + d) 0 ds"

lemma binaryLength_value:
  "(\<And>d. d \<in> set ds \<Longrightarrow> d < 10) \<Longrightarrow>
     binaryLength (map octet ds @ 255 # rest) 0 c =
       Inr (wrap64 (int (digits_value ds)), Suc (c + length ds))"
  using binaryLength_digits [of ds "255 # rest" 0 c] foldl_wrap64 [of 0 ds]
  by (simp add: digits_value_def)

lemma runes_of_ascii_append:
  "(\<And>b. b \<in> set xs \<Longrightarrow> unat b < 128) \<Longrightarrow> runes_of (xs @ ys) = map unat xs @ runes_of ys"
  by (induction xs) (simp_all add: decodeRune_def)

lemma runes_of_decimal_frame:
  "runes_of (decimal_string n @ 58 # rest) = map unat (decimal_string n) @ 58 # runes_of rest"
  using runes_of_ascii_append [of "decimal_string n @ [58]" rest] decimal_string_chars [of _ n]
  by fastforce

lemma stringFrame_decimal:
  assumes "n < 2 ^ 63"
  shows "stringFrame (map unat (decimal_string n) @ 58 # body) 0 =
    (let end' = wrap64 (int (length (decimal n) + 1) + int n)
     in if int (length (decimal n) + 1 + length body) < end'
        then Inl (Error (Errorf ''%w: length exceeds payload'' [] [ErrMalformedPayload]))
        else (case slice (map unat (decimal_string n) @ 58 # body) (length (decimal n) + 1) end' of
                Inl f \<Rightarrow> Inl f
              | Inr body' \<Rightarrow>
                  (case decodeStringFramedPacket (string_of_runes body') of
                     Inl err \<Rightarrow> Inl (Error err)
                   | Inr packet \<Rightarrow> Inr (packet, nat end'))))"
proof -
  let ?d = "map unat (decimal_string n)"
  have d: "\<And>r. r \<in> set ?d \<Longrightarrow> 48 \<le> r \<and> r \<le> 57" by (auto dest: decimal_string_chars)
  then have idx: "index_of 58 (?d @ 58 # body) = Some (length ?d)"
    by (intro index_of_append) force
  have "string_of_runes ?d = map octet ?d"
    using d by (intro string_of_runes_ascii) force
  then have str: "string_of_runes ?d = decimal_string n" by (simp add: comp_def)
  have len: "length ?d = length (decimal n)" by (simp add: decimal_string_def)
  show ?thesis
    unfolding stringFrame_def drop_0 idx option.case Let_def len add_0_right
    using str Atoi_decimal_string [OF assms] len by (simp add: ac_simps)
qed

text \<open>
  C39: a v2 or v3 string-framed payload whose first frame declares a length that still fits an int
  but overflows when it is added to the start of the frame's body makes the decoder panic with a
  slice bound out of range, whatever follows the separator: the sum turns negative and passes the
  check against the number of runes.
\<close>

theorem string_length_overflow_panics:
  assumes fits: "n < 2 ^ 63" and over: "2 ^ 63 \<le> length (decimal n) + 1 + n"
  shows "DecodePayload 2 (decimal_string n @ 58 # rest) = Inl (Panic SliceBoundsOutOfRange)"
proof -
  have "length (decimal n) + 1 + n < 2 ^ 64" using length_decimal [of n] fits by simp
  then have "wrap64 (int (length (decimal n) + 1) + int n) < 0"
    using over by (subst wrap64_overflow) simp_all
  then show ?thesis
    using stringFrame_decimal [OF fits, of "runes_of rest"]
    by (simp add: DecodePayload_def decodeStringFramedPayload_def runes_of_decimal_frame
        stringFrames.simps slice_def Let_def)
qed

theorem string_length_overflow_panics_witness:
  "DecodePayload 2 (decimal_string 9223372036854775807 @ 58 # bytes_of ''4'') =
     Inl (Panic SliceBoundsOutOfRange)"
  using string_length_overflow_panics [of 9223372036854775807 "bytes_of ''4''"]
  by (simp add: decimal.simps)

lemma DecodePayload_binary:
  assumes "\<And>d. d \<in> set ds \<Longrightarrow> d < 10" and "m = 0 \<or> m = 1"
  shows "DecodePayload 3 (m # map octet ds @ 255 # rest) =
    binaryFrames (m # map octet ds @ 255 # rest) 0"
    "binaryFrame (m # map octet ds @ 255 # rest) 0 =
    (let end' = wrap64 (int (length ds + 2) + wrap64 (int (digits_value ds)))
     in if int (length ds + 2 + length rest) < end'
        then Inl (Error (Errorf ''%w: length exceeds payload'' [] [ErrMalformedPayload]))
        else (case slice (m # map octet ds @ 255 # rest) (length ds + 2) end' of
                Inl f \<Rightarrow> Inl f
              | Inr body \<Rightarrow>
                  (case decodeBinaryFramedPacket m body of
                     Inl err \<Rightarrow> Inl (Error err)
                   | Inr packet \<Rightarrow> Inr (packet, nat end'))))"
  using assms binaryLength_value [of ds rest 1]
  by (auto simp: DecodePayload_def decodeBinaryFramedPayload_def binaryFrame_def Let_def
      cong: sum.case_cong)

text \<open>
  C40: a v3 binary-framed payload whose length digits, read modulo \<open>2 ^ 64\<close>, give a negative int
  makes the decoder panic with a slice bound out of range: the digit loop multiplies without an
  overflow check and the end of the body is compared with the length of the payload only.
\<close>

theorem binary_length_overflow_panics:
  assumes digits: "\<And>d. d \<in> set ds \<Longrightarrow> d < 10" and marker: "m = 0 \<or> m = 1"
    and neg: "wrap64 (int (digits_value ds)) < 0" and short: "length ds < 2 ^ 62"
  shows "DecodePayload 3 (m # map octet ds @ 255 # rest) = Inl (Panic SliceBoundsOutOfRange)"
proof -
  let ?l = "wrap64 (int (digits_value ds))"
  have "wrap64 (int (length ds + 2) + ?l) = int (length ds + 2) + ?l"
    using neg short wrap64_bounds [of "int (digits_value ds)"] by (intro wrap64_id) simp_all
  then show ?thesis
    using neg DecodePayload_binary [OF _ marker, of ds rest] digits
    by (simp add: binaryFrames.simps slice_def Let_def)
qed

theorem binary_length_overflow_panics_witness:
  "DecodePayload 3 (0 # map octet [9,2,2,3,3,7,2,0,3,6,8,5,4,7,7,5,8,0,8] @ 255 # bytes_of ''4'') =
     Inl (Panic SliceBoundsOutOfRange)"
  by (rule binary_length_overflow_panics) (auto simp: digits_value_def wrap64_def)

text \<open>
  The declared length of a v3 binary frame is trusted modulo \<open>2 ^ 64\<close>: digits whose value exceeds
  the length of the body by a multiple of \<open>2 ^ 64\<close> are accepted as if they declared that length.
\<close>

theorem binary_length_wraps:
  assumes digits: "\<And>d. d \<in> set ds \<Longrightarrow> d < 10" and ok: "legacy_ok p"
    and wraps: "digits_value ds mod 2 ^ 64 = length (binary_body p)"
    and short: "length ds + length (binary_body p) < 2 ^ 62"
  shows "DecodePayload 3 ((if IsBinary p then 1 else 0) # map octet ds @ 255 # binary_body p) = Inr [p]"
proof -
  let ?m = "(if IsBinary p then 1 else 0) :: byte" and ?b = "binary_body p"
  let ?head = "?m # map octet ds @ [255]"
  have "int (digits_value ds) mod 2 ^ 64 = int (length ?b) mod 2 ^ 64"
    using wraps [symmetric] by (simp add: zmod_int)
  then have "wrap64 (int (digits_value ds)) = wrap64 (int (length ?b))"
    by (simp only: wrap64_eq_iff)
  also have "\<dots> = int (length ?b)" using short by (intro wrap64_id) simp_all
  finally have len: "wrap64 (int (digits_value ds)) = int (length ?b)" .
  have wrap: "wrap64 (int (length ds + 2) + int (length ?b)) = int (length ?head + length ?b)"
    using short by (subst wrap64_id) simp_all
  have sl: "slice (?m # map octet ds @ 255 # ?b) (length ds + 2) (int (length ?head + length ?b)) = Inr ?b"
    using slice_frame [of ?head ?b "[]"] by simp
  have "binaryFrame (?m # map octet ds @ 255 # ?b) 0 = Inr (p, length ?head + length ?b)"
    using DecodePayload_binary(2) [of ds ?m ?b] digits decodeBinaryFramedPacket_binary_body [OF ok]
    unfolding len wrap Let_def sl by (auto split: if_splits)
  then show ?thesis
    using DecodePayload_binary(1) [of ds ?m ?b] digits by (auto simp: binaryFrames.simps)
qed

theorem binary_length_wraps_witness:
  "DecodePayload 3 (0 # map octet [1,8,4,4,6,7,4,4,0,7,3,7,0,9,5,5,1,6,1,7] @ [255, 50]) =
     Inr [text_packet PacketPing []]"
proof -
  let ?ds = "[1,8,4,4,6,7,4,4,0,7,3,7,0,9,5,5,1,6,1,7] :: nat list"
  have "DecodePayload 3 ((if IsBinary (text_packet PacketPing []) then 1 else 0) # map octet ?ds @
      255 # binary_body (text_packet PacketPing [])) = Inr [text_packet PacketPing []]"
    by (rule binary_length_wraps)
      (auto simp: digits_value_def legacy_ok_def binary_body_def string_body_def PacketType_valid_def)
  then show ?thesis
    by (simp add: binary_body_def string_body_def PacketType_Byte_def)
qed

text \<open>
  C29: a long-polling payload survives the wire: for every non-empty list of well-formed packets whose
  text data is free of the record separator, decoding the v4 encoding returns exactly the packets.
\<close>

theorem payload_round_trip:
  assumes "ps \<noteq> []" and "\<And>p. p \<in> set ps \<Longrightarrow> payload_safe p"
  shows "DecodePayload 4 (EncodePayload ps) = Inr ps"
  using assms decodeRecordSeparatorPayload_EncodePayload [of ps] by (simp add: DecodePayload_def)

theorem payload_round_trip_witness:
  "DecodePayload 4 (EncodePayload [text_packet PacketMessage [104, 105],
      binary_packet PacketMessage [0x1e, 0, 255], text_packet PacketClose []]) =
    Inr [text_packet PacketMessage [104, 105], binary_packet PacketMessage [0x1e, 0, 255],
      text_packet PacketClose []]"
  by (rule payload_round_trip)
    (auto simp: wf_packet_def payload_safe_def PacketType_valid_def)

text \<open>
  C34: decoding an untrusted v4 payload never panics, and what it accepts is well formed: one
  well-formed packet per separator-delimited segment.
\<close>

theorem payload_v4_safe:
  "never_panics (DecodePayload 4 input) \<and>
   (\<forall>ps. DecodePayload 4 input = Inr ps \<longrightarrow>
      length ps = Suc (count_list input Separator) \<and> (\<forall>p \<in> set ps. wf_packet p))"
  by (auto simp: DecodePayload_def dest: decodeRecordSeparatorPayload_wf
      decodeRecordSeparatorPayload_length)

theorem payload_v4_safe_witness:
  "DecodePayload 4 [52, 0x1e, 50] = Inr [text_packet PacketMessage [], text_packet PacketPing []] \<and>
   length [text_packet PacketMessage [], text_packet PacketPing []] =
     Suc (count_list [52, 0x1e, 50] Separator)"
proof
  show "DecodePayload 4 [52, 0x1e, 50] = Inr [text_packet PacketMessage [], text_packet PacketPing []]"
    by (simp add: DecodePayload_def decodeRecordSeparatorPayload_def decodeSegment_def
        DecodePacket_def PacketTypeFromByte_def PacketType_valid_def)
  then show "length [text_packet PacketMessage [], text_packet PacketPing []] =
     Suc (count_list [52, 0x1e, 50] Separator)"
    using payload_v4_safe [of "[52, 0x1e, 50]"] by blast
qed

lemma length_runes_of: "length (runes_of bs) \<le> length bs"
proof (induction bs rule: runes_of.induct)
  case (2 b bs)
  then show ?case using decodeRune_length [of b bs] by (cases "decodeRune b bs") simp
qed simp

lemma length_string_frame: "length (string_frame p) \<le> 2 * length (string_body p) + 2"
  using length_runes_of [of "string_body p"] length_decimal [of "length (runes_of (string_body p))"]
  by (simp add: string_frame_def decimal_string_def)

lemma encodeStringFramedPayload_first:
  "encodeStringFramedPayload ps = [] \<or> 48 \<le> unat (encodeStringFramedPayload ps ! 0)"
proof (cases ps)
  case Nil
  then show ?thesis by (simp add: encodeStringFramedPayload_def)
next
  case (Cons p qs)
  let ?ds = "decimal_string (length (runes_of (string_body p)))"
  obtain c cs where c: "?ds = c # cs" by (cases ?ds) simp_all
  then have "c \<in> set ?ds" by simp
  then have "48 \<le> unat c \<and> unat c \<le> 57" by (rule decimal_string_chars)
  then show ?thesis
    by (simp add: Cons c encodeStringFramedPayload_def string_frame_def encodeRune_def)
qed

text \<open>
  C31: the v3 and v2 decoders understand the string framing the protocol documents: what the reference
  encoder writes, lengths counted in runes, binary data as base64 behind the type digit, decodes to
  the same packets, if text data is valid UTF-8 and the payload shorter than \<open>2 ^ 63\<close> runes.
\<close>

theorem string_framing_round_trip:
  assumes "version = 2 \<or> version = 3" and "\<And>p. p \<in> set ps \<Longrightarrow> string_ok p"
    and "length (concat (map string_frame ps)) < 2 ^ 63"
  shows "DecodePayload version (encodeStringFramedPayload ps) = Inr ps"
  using assms(1) decodeStringFramedPayload_encode [OF assms(2,3)]
    encodeStringFramedPayload_first [of ps]
  by (auto simp: DecodePayload_def)

theorem string_framing_round_trip_witness:
  "DecodePayload 3 (encodeStringFramedPayload
      [text_packet PacketMessage [0xe2, 0x82, 0xac], binary_packet PacketMessage [1, 2, 3]]) =
     Inr [text_packet PacketMessage [0xe2, 0x82, 0xac], binary_packet PacketMessage [1, 2, 3]]"
proof (rule string_framing_round_trip)
  have euro: "runes_of [0xe2, 0x82, 0xac] = [0x20ac]"
    by (simp add: decodeRune_def second_ok_def in_range_def)
  then have "valid_utf8 [0xe2, 0x82, 0xac]"
    by (simp add: valid_utf8_def encodeRune_def octet_def)
  then show "string_ok p" if "p \<in> set [text_packet PacketMessage [0xe2, 0x82, 0xac],
      binary_packet PacketMessage [1, 2, 3]]" for p
    using that by (auto simp: string_ok_def legacy_ok_def PacketType_valid_def)
  show "length (concat (map string_frame [text_packet PacketMessage [0xe2, 0x82, 0xac],
      binary_packet PacketMessage [1, 2, 3]])) < 2 ^ 63"
    using length_string_frame [of "text_packet PacketMessage [0xe2, 0x82, 0xac]"]
      length_string_frame [of "binary_packet PacketMessage [1, 2, 3]"]
    by (simp add: string_body_def b64_encode_length)
qed simp

text \<open>
  C32: the v3 decoder understands the binary framing the protocol documents: what the reference
  encoder writes decodes to the same packets, if the payload is shorter than \<open>2 ^ 63\<close> bytes.
\<close>

theorem binary_framing_round_trip:
  assumes "ps \<noteq> []" and "\<And>p. p \<in> set ps \<Longrightarrow> legacy_ok p"
    and "length (encodeBinaryFramedPayload ps) < 2 ^ 63"
  shows "DecodePayload 3 (encodeBinaryFramedPayload ps) = Inr ps"
proof -
  obtain p qs where ps: "ps = p # qs" using assms(1) by (cases ps) simp_all
  then have "encodeBinaryFramedPayload ps \<noteq> []"
    "encodeBinaryFramedPayload ps ! 0 = 0 \<or> encodeBinaryFramedPayload ps ! 0 = 1"
    by (simp_all add: encodeBinaryFramedPayload_def binary_frame_def)
  then show ?thesis
    using decodeBinaryFramedPayload_encode [OF assms(2,3)] by (simp add: DecodePayload_def)
qed

theorem binary_framing_round_trip_witness:
  "DecodePayload 3 (encodeBinaryFramedPayload
      [text_packet PacketMessage [0xe2, 0x82, 0xac], binary_packet PacketMessage [1, 2, 3]]) =
     Inr [text_packet PacketMessage [0xe2, 0x82, 0xac], binary_packet PacketMessage [1, 2, 3]]"
  by (rule binary_framing_round_trip)
    (auto simp: legacy_ok_def PacketType_valid_def encodeBinaryFramedPayload_def binary_frame_def
      binary_body_def string_body_def decimal.simps)

end
