(* ===== verification/WebTransportFrame.thy ===== *)
theory WebTransportFrame
  imports Encoding
begin

unbundle bit_operations_syntax

text \<open>
  The WebTransport wire form (\<^verbatim>\<open>encoding_webtransport.go\<close>): every packet is a frame with a header
  byte, whose top bit flags a raw binary message and whose low seven bits hold the payload
  length or select a 16 or 64 bit big-endian length behind it. The reader is a byte stream with
  the error it ends with.
\<close>

definition webTransportLen16Marker :: nat where
  [simp]: "webTransportLen16Marker = 126"

definition webTransportLen64Marker :: nat where
  [simp]: "webTransportLen64Marker = 127"

definition webTransportBinaryFlag :: byte where
  [simp]: "webTransportBinaryFlag = 0x80"

definition AppendUint16 :: "bytes \<Rightarrow> nat \<Rightarrow> bytes" where
  "AppendUint16 dst n = dst @ [octet (n div 256 mod 256), octet (n mod 256)]"

definition AppendUint64 :: "bytes \<Rightarrow> nat \<Rightarrow> bytes" where
  "AppendUint64 dst n = dst @ map (\<lambda>i. octet (n div 256 ^ i mod 256)) [7, 6, 5, 4, 3, 2, 1, 0]"

definition appendWebTransportFrame :: "bytes \<Rightarrow> Packet \<Rightarrow> bytes" where
  "appendWebTransportFrame dst packet =
     (let payload = (if IsBinary packet then Data packet else EncodePacket packet);
          flag = (if IsBinary packet then webTransportBinaryFlag else 0);
          len = length payload;
          dst = (if len < webTransportLen16Marker then dst @ [octet len OR flag]
                 else if len < 2 ^ 16
                 then AppendUint16 (dst @ [octet webTransportLen16Marker OR flag]) len
                 else AppendUint64 (dst @ [octet webTransportLen64Marker OR flag]) len)
      in dst @ payload)"

section \<open>Reading\<close>

record Reader =
  pending :: bytes
  final :: error

text \<open>
  \<^verbatim>\<open>io.ReadFull\<close>: all \<open>n\<close> bytes, or the stream's error, which becomes \<^verbatim>\<open>io.ErrUnexpectedEOF\<close>
  when it is \<^verbatim>\<open>io.EOF\<close> after some but not all bytes.
\<close>

definition ReadFull :: "Reader \<Rightarrow> nat \<Rightarrow> (error + bytes) \<times> Reader" where
  "ReadFull r n =
     (if n \<le> length (pending r)
      then (Inr (take n (pending r)), r\<lparr>pending := drop n (pending r)\<rparr>)
      else (Inl (if pending r \<noteq> [] \<and> final r = EOF then ErrUnexpectedEOF else final r),
            r\<lparr>pending := []\<rparr>))"

definition BigEndian :: "bytes \<Rightarrow> nat" where
  "BigEndian bs = foldl (\<lambda>n b. n * 256 + unat b) 0 bs"

text \<open>The largest allocation the Go run time grants on 64 bit platforms; beyond it \<^verbatim>\<open>make\<close> panics.\<close>

definition maxAlloc :: nat where
  "maxAlloc = 2 ^ 48"

definition readWebTransportLength :: "Reader \<Rightarrow> byte \<Rightarrow> (error + nat) \<times> Reader" where
  "readWebTransportLength r header =
     (let marker = unat (header AND NOT webTransportBinaryFlag)
      in if marker < webTransportLen16Marker then (Inr marker, r)
         else (case ReadFull r (if marker = webTransportLen16Marker then 2 else 8) of
                 (Inl err, r') \<Rightarrow> (Inl err, r')
               | (Inr extended, r') \<Rightarrow> (Inr (BigEndian extended), r')))"

definition readWebTransportPacket :: "Reader \<Rightarrow> int \<Rightarrow> Packet result \<times> Reader" where
  "readWebTransportPacket r maxPayload =
     (case ReadFull r 1 of
        (Inl err, r1) \<Rightarrow> (Inl (Error err), r1)
      | (Inr hs, r1) \<Rightarrow>
          (let header = hd hs; isBinary = (header AND webTransportBinaryFlag \<noteq> 0)
           in case readWebTransportLength r1 header of
                (Inl err, r2) \<Rightarrow> (Inl (Error err), r2)
              | (Inr len, r2) \<Rightarrow>
                  if 0 < maxPayload \<and> maxPayload < int len
                  then (Inl (Error (Errorf ''%w: %d > %d'' [int len, maxPayload]
                          [errWebTransportFrameTooLarge])), r2)
                  else if maxAlloc < len then (Inl (Panic MakeSliceLenOutOfRange), r2)
                  else (case ReadFull r2 len of
                          (Inl err, r3) \<Rightarrow> (Inl (Error err), r3)
                        | (Inr payload, r3) \<Rightarrow>
                            if isBinary then (Inr (binary_packet PacketMessage payload), r3)
                            else (lift_error (DecodePacket payload), r3))))"

section \<open>Header bytes\<close>

lemma flag_bits:
  "n < 128 \<Longrightarrow> (octet n OR 0x80) AND 0x80 \<noteq> 0"
  "n < 128 \<Longrightarrow> octet n AND 0x80 = 0"
  "n < 128 \<Longrightarrow> (octet n OR 0x80) AND NOT 0x80 = octet n"
  "n < 128 \<Longrightarrow> octet n AND NOT 0x80 = octet n"
proof -
  assume "n < 128"
  moreover have "list_all (\<lambda>n. (octet n OR 0x80) AND 0x80 \<noteq> 0 \<and> octet n AND 0x80 = 0 \<and>
      (octet n OR 0x80) AND NOT 0x80 = octet n \<and> octet n AND NOT 0x80 = octet n) [0..<128]"
    by code_simp
  ultimately show "(octet n OR 0x80) AND 0x80 \<noteq> 0" "octet n AND 0x80 = 0"
    "(octet n OR 0x80) AND NOT 0x80 = octet n" "octet n AND NOT 0x80 = octet n"
    by (auto simp: list_all_iff)
qed

lemma BigEndian_AppendUint16: "n < 2 ^ 16 \<Longrightarrow> BigEndian (AppendUint16 [] n) = n"
proof -
  assume "n < 2 ^ 16"
  then have "n div 256 < 256" by (intro less_mult_imp_div_less) simp
  then show ?thesis by (simp add: BigEndian_def AppendUint16_def div_mult_mod_eq)
qed

lemma base256_step: "n div 256 ^ Suc i * 256 + n div 256 ^ i mod 256 = n div (256 :: nat) ^ i"
proof -
  have "n div 256 ^ Suc i = n div 256 ^ i div 256"
    by (simp add: div_mult2_eq [symmetric] mult.commute)
  then show ?thesis by (simp only: div_mult_mod_eq)
qed

lemma base256_digits:
  "foldl (\<lambda>m b. m * 256 + unat b) (n div 256 ^ k)
     (map (\<lambda>i. octet (n div 256 ^ i mod 256)) (rev [0..<k])) = n"
proof (induction k)
  case (Suc k)
  have "unat (octet (n div 256 ^ k mod 256)) = n div 256 ^ k mod 256" by (rule unat_octet) simp
  with Suc.IH base256_step [of n k] show ?case by (simp del: power_Suc)
qed simp

lemma BigEndian_AppendUint64:
  assumes "n < 2 ^ 64"
  shows "BigEndian (AppendUint64 [] n) = n"
proof -
  have "[7, 6, 5, 4, 3, 2, 1, 0] = rev [0..<8 :: nat]" by (simp add: upt_rec)
  moreover have "n div 256 ^ 8 = 0" using assms by simp
  ultimately show ?thesis
    using base256_digits [of n 8] by (simp only: BigEndian_def AppendUint64_def append_Nil)
qed

lemma length_AppendUint [simp]:
  "length (AppendUint16 dst n) = length dst + 2" "length (AppendUint64 dst n) = length dst + 8"
  by (simp_all add: AppendUint16_def AppendUint64_def)

lemma AppendUint_eq:
  "AppendUint16 dst n = dst @ AppendUint16 [] n" "AppendUint64 dst n = dst @ AppendUint64 [] n"
  by (simp_all add: AppendUint16_def AppendUint64_def)

section \<open>Reading what was framed\<close>

definition frame_payload :: "Packet \<Rightarrow> bytes" where
  "frame_payload p = (if IsBinary p then Data p else EncodePacket p)"

definition frame_flag :: "Packet \<Rightarrow> byte" where
  "frame_flag p = (if IsBinary p then webTransportBinaryFlag else 0)"

lemma appendWebTransportFrame_eq:
  "appendWebTransportFrame dst p =
     (let len = length (frame_payload p)
      in if len < 126 then dst @ (octet len OR frame_flag p) # frame_payload p
         else if len < 2 ^ 16
         then dst @ (octet 126 OR frame_flag p) # AppendUint16 [] len @ frame_payload p
         else dst @ (octet 127 OR frame_flag p) # AppendUint64 [] len @ frame_payload p)"
  by (simp add: appendWebTransportFrame_def frame_payload_def frame_flag_def Let_def
      AppendUint_eq [of "dst @ _"])

lemma appendWebTransportFrame_append:
  "appendWebTransportFrame dst p = dst @ appendWebTransportFrame [] p"
  by (simp add: appendWebTransportFrame_eq Let_def)

lemma appendWebTransportFrame_nonempty [simp]: "appendWebTransportFrame [] p \<noteq> []"
  by (simp add: appendWebTransportFrame_eq Let_def)

lemma ReadFull_append [simp]:
  "length xs = n \<Longrightarrow> ReadFull (r\<lparr>pending := xs @ rest\<rparr>) n = (Inr xs, r\<lparr>pending := rest\<rparr>)"
  by (auto simp: ReadFull_def)

lemma ReadFull_header [simp]:
  "ReadFull (r\<lparr>pending := h # rest\<rparr>) (Suc 0) = (Inr [h], r\<lparr>pending := rest\<rparr>)"
  by (simp add: ReadFull_def)

lemma header_marker:
  "n < 128 \<Longrightarrow> unat ((octet n OR frame_flag p) AND NOT webTransportBinaryFlag) = n"
  by (cases "IsBinary p")
    (simp_all only: frame_flag_def webTransportBinaryFlag_def flag_bits if_True if_False or.right_neutral,
      simp_all)

lemma header_binary:
  "n < 128 \<Longrightarrow> (octet n OR frame_flag p) AND webTransportBinaryFlag \<noteq> 0 \<longleftrightarrow> IsBinary p"
  by (simp add: frame_flag_def flag_bits)

text \<open>One frame splits into its header byte and an extended length before the payload.\<close>

lemma frame_shape:
  assumes "length (frame_payload p) < 2 ^ 64"
  obtains h ext where
    "appendWebTransportFrame [] p = h # ext @ frame_payload p"
    "h AND webTransportBinaryFlag \<noteq> 0 \<longleftrightarrow> IsBinary p"
    "\<And>r rest. readWebTransportLength (r\<lparr>pending := ext @ rest\<rparr>) h =
       (Inr (length (frame_payload p)), r\<lparr>pending := rest\<rparr>)"
proof -
  let ?len = "length (frame_payload p)"
  consider "?len < 126" | "126 \<le> ?len" "?len < 2 ^ 16" | "2 ^ 16 \<le> ?len" by linarith
  then show thesis
  proof cases
    case 1
    show thesis
    proof (rule that [of "octet ?len OR frame_flag p" "[]"])
      show "appendWebTransportFrame [] p = (octet ?len OR frame_flag p) # [] @ frame_payload p"
        using 1 by (simp add: appendWebTransportFrame_eq)
      show "readWebTransportLength (r\<lparr>pending := [] @ rest\<rparr>) (octet ?len OR frame_flag p) =
          (Inr ?len, r\<lparr>pending := rest\<rparr>)" for r rest
        using 1 header_marker [of ?len p] by (simp add: readWebTransportLength_def)
    qed (use 1 header_binary [of ?len p] in simp)
  next
    case 2
    show thesis
    proof (rule that [of "octet 126 OR frame_flag p" "AppendUint16 [] ?len"])
      show "appendWebTransportFrame [] p =
          (octet 126 OR frame_flag p) # AppendUint16 [] ?len @ frame_payload p"
        using 2 by (simp add: appendWebTransportFrame_eq)
      show "readWebTransportLength (r\<lparr>pending := AppendUint16 [] ?len @ rest\<rparr>)
          (octet 126 OR frame_flag p) = (Inr ?len, r\<lparr>pending := rest\<rparr>)" for r rest
        using 2 header_marker [of 126 p]
        by (simp add: readWebTransportLength_def BigEndian_AppendUint16)
    qed (use header_binary [of 126 p] in simp)
  next
    case 3
    show thesis
    proof (rule that [of "octet 127 OR frame_flag p" "AppendUint64 [] ?len"])
      show "appendWebTransportFrame [] p =
          (octet 127 OR frame_flag p) # AppendUint64 [] ?len @ frame_payload p"
        using 3 by (simp add: appendWebTransportFrame_eq)
      show "readWebTransportLength (r\<lparr>pending := AppendUint64 [] ?len @ rest\<rparr>)
          (octet 127 OR frame_flag p) = (Inr ?len, r\<lparr>pending := rest\<rparr>)" for r rest
        using assms header_marker [of 127 p]
        by (simp add: readWebTransportLength_def BigEndian_AppendUint64)
    qed (use header_binary [of 127 p] in simp)
  qed
qed

text \<open>The frames a reader with limit \<open>maxPayload\<close> accepts.\<close>

definition frame_fits :: "int \<Rightarrow> Packet \<Rightarrow> bool" where
  "frame_fits maxPayload p \<longleftrightarrow>
     wf_packet p \<and> length (frame_payload p) \<le> maxAlloc \<and>
     (maxPayload \<le> 0 \<or> int (length (frame_payload p)) \<le> maxPayload)"

lemma readWebTransportPacket_frame:
  assumes "frame_fits maxPayload p"
  shows "readWebTransportPacket (r\<lparr>pending := appendWebTransportFrame [] p @ rest\<rparr>) maxPayload =
    (Inr p, r\<lparr>pending := rest\<rparr>)"
proof -
  have len: "length (frame_payload p) \<le> maxAlloc"
    and wf: "wf_packet p" and max: "\<not> (0 < maxPayload \<and> maxPayload < int (length (frame_payload p)))"
    using assms by (auto simp: frame_fits_def)
  have "length (frame_payload p) < 2 ^ 64" using len by (simp add: maxAlloc_def)
  then obtain h ext where shape: "appendWebTransportFrame [] p = h # ext @ frame_payload p"
    and bin: "h AND webTransportBinaryFlag \<noteq> 0 \<longleftrightarrow> IsBinary p"
    and rd: "\<And>r rest. readWebTransportLength (r\<lparr>pending := ext @ rest\<rparr>) h =
       (Inr (length (frame_payload p)), r\<lparr>pending := rest\<rparr>)"
    by (rule frame_shape) blast
  have dec: "IsBinary p \<Longrightarrow> binary_packet PacketMessage (frame_payload p) = p"
    "\<not> IsBinary p \<Longrightarrow> DecodePacket (frame_payload p) = Inr p"
    using wf by (cases p; simp add: wf_packet_def frame_payload_def DecodePacket_EncodePacket)+
  show ?thesis
  proof (cases "IsBinary p")
    case True
    with bin dec max len rd [where r = r and rest = "frame_payload p @ rest"] show ?thesis
      by (simp add: readWebTransportPacket_def shape Let_def not_less [symmetric] del: webTransportBinaryFlag_def)
  next
    case False
    with bin dec max len rd [where r = r and rest = "frame_payload p @ rest"] show ?thesis
      by (simp add: readWebTransportPacket_def shape Let_def not_less [symmetric] del: webTransportBinaryFlag_def)
  qed
qed

text \<open>The reader as a stream codec over the bytes of a stream that then ends.\<close>

definition readFrame :: "int \<Rightarrow> bytes \<Rightarrow> (Packet \<times> bytes) result" where
  "readFrame maxPayload bs =
     (case readWebTransportPacket \<lparr>pending = bs, final = EOF\<rparr> maxPayload of
        (Inl f, _) \<Rightarrow> Inl f
      | (Inr p, r) \<Rightarrow> Inr (p, pending r))"

interpretation wt_stream: stream_codec "appendWebTransportFrame []" "readFrame maxPayload"
  "frame_fits maxPayload" for maxPayload
proof unfold_locales
  fix p rest
  assume "frame_fits maxPayload p"
  then show "readFrame maxPayload (appendWebTransportFrame [] p @ rest) = Inr (p, rest)"
    using readWebTransportPacket_frame [where r = "\<lparr>pending = [], final = EOF\<rparr>" and rest = rest]
    by (simp add: readFrame_def)
qed simp

section \<open>Bounds and errors\<close>

lemma ReadFull_length: "ReadFull r n = (x, r') \<Longrightarrow> length (pending r') \<le> length (pending r)"
  by (auto simp: ReadFull_def split: if_splits)

lemma ReadFull_Inr:
  "ReadFull r n = (Inr bs, r') \<Longrightarrow>
     pending r = bs @ pending r' \<and> length bs = n \<and> final r' = final r"
  by (auto simp: ReadFull_def split: if_splits)

lemma ReadFull_Inl:
  "ReadFull r n = (Inl err, r') \<Longrightarrow>
     length (pending r) < n \<and> (err = final r \<or> err = ErrUnexpectedEOF \<and> final r = EOF)"
  by (auto simp: ReadFull_def split: if_splits)

lemma readWebTransportLength_Inr:
  "readWebTransportLength r h = (Inr len, r') \<Longrightarrow>
     \<exists>ext. pending r = ext @ pending r' \<and> length ext \<le> 8 \<and> final r' = final r"
  by (auto simp: readWebTransportLength_def Let_def dest!: ReadFull_Inr split: if_splits sum.splits prod.splits)

lemma readWebTransportPacket_Inr:
  assumes "readWebTransportPacket r maxPayload = (Inr p, r')"
  shows "\<exists>h ext payload. pending r = h # ext @ payload @ pending r' \<and> length ext \<le> 8 \<and>
    (0 < maxPayload \<longrightarrow> int (length payload) \<le> maxPayload) \<and>
    (if h AND webTransportBinaryFlag \<noteq> 0 then p = binary_packet PacketMessage payload
     else DecodePacket payload = Inr p)"
proof -
  obtain hs r1 where h: "ReadFull r 1 = (Inr hs, r1)"
    using assms by (auto simp: readWebTransportPacket_def split: prod.splits sum.splits)
  then obtain h where hs: "hs = [h]" by (auto dest!: ReadFull_Inr simp: length_Suc_conv)
  obtain len r2 where l: "readWebTransportLength r1 h = (Inr len, r2)"
    using assms h hs
    by (auto simp: readWebTransportPacket_def Let_def split: prod.splits sum.splits)
  obtain payload where pl: "ReadFull r2 len = (Inr payload, r')"
    and max: "0 < maxPayload \<longrightarrow> int len \<le> maxPayload"
    and p: "if h AND webTransportBinaryFlag \<noteq> 0 then p = binary_packet PacketMessage payload
       else DecodePacket payload = Inr p"
    using assms h hs l
    by (auto simp: readWebTransportPacket_def Let_def split: prod.splits sum.splits if_splits)
  from readWebTransportLength_Inr [OF l] obtain ext
    where "pending r1 = ext @ pending r2" "length ext \<le> 8" by blast
  with ReadFull_Inr [OF h] ReadFull_Inr [OF pl] hs max p show ?thesis
    by (intro exI [of _ h] exI [of _ ext] exI [of _ payload]) simp
qed

lemma wf_binary_message: "wf_packet (binary_packet PacketMessage d)"
  by (simp add: wf_packet_def PacketType_valid_def)

lemma readWebTransportPacket_wf:
  assumes "readWebTransportPacket r maxPayload = (Inr p, r')"
  shows "wf_packet p"
  using readWebTransportPacket_Inr [OF assms] wf_binary_message DecodePacket_wf
  by (metis (no_types, lifting))

lemma readWebTransportPacket_no_panic:
  "0 < maxPayload \<Longrightarrow> maxPayload \<le> int maxAlloc \<Longrightarrow>
     never_panics (fst (readWebTransportPacket r maxPayload))"
  by (auto simp: readWebTransportPacket_def Let_def split: prod.splits sum.splits)

text \<open>A header that declares more than the limit is refused before its payload is read.\<close>

lemma readWebTransportPacket_too_large:
  assumes "pending r = h # ext @ rest" "0 < maxPayload"
    and "readWebTransportLength (r\<lparr>pending := ext @ rest\<rparr>) h = (Inr len, r\<lparr>pending := rest\<rparr>)"
    and "maxPayload < int len"
  shows "readWebTransportPacket r maxPayload =
    (Inl (Error (Errorf ''%w: %d > %d'' [int len, maxPayload] [errWebTransportFrameTooLarge])),
     r\<lparr>pending := rest\<rparr>)"
proof -
  have "ReadFull r 1 = (Inr [h], r\<lparr>pending := ext @ rest\<rparr>)"
    using assms(1) by (simp add: ReadFull_def)
  with assms show ?thesis by (simp add: readWebTransportPacket_def Let_def)
qed

lemma DecodePacket_length: "DecodePacket payload = Inr p \<Longrightarrow> length (Data p) \<le> length payload"
  by (auto simp: DecodePacket_def Let_def dest!: stdDecodeString_length
      split: list.splits if_splits sum.splits)

lemma readWebTransportPacket_Data:
  assumes "readWebTransportPacket r maxPayload = (Inr p, r')" and "0 < maxPayload"
  shows "int (length (Data p)) \<le> maxPayload"
proof -
  obtain h ext payload where "int (length payload) \<le> maxPayload"
    and p: "if h AND webTransportBinaryFlag \<noteq> 0 then p = binary_packet PacketMessage payload
       else DecodePacket payload = Inr p"
    using readWebTransportPacket_Inr [OF assms(1)] assms(2) by blast
  moreover have "length (Data p) \<le> length payload"
    using p DecodePacket_length [of payload p] by (auto split: if_splits)
  ultimately show ?thesis by linarith
qed

text \<open>
  C30: a WebTransport frame survives the stream: reading at the start of the frame of a well-formed
  packet whose payload respects the limit returns the packet and leaves the reader exactly behind
  the frame, for each of the three length encodings.
\<close>

theorem webtransport_frame_round_trip:
  "frame_fits maxPayload p \<Longrightarrow>
     readWebTransportPacket (r\<lparr>pending := appendWebTransportFrame [] p @ rest\<rparr>) maxPayload =
       (Inr p, r\<lparr>pending := rest\<rparr>)"
  by (rule readWebTransportPacket_frame)

theorem webtransport_frame_round_trip_witness:
  "readWebTransportPacket \<lparr>pending = appendWebTransportFrame [] (binary_packet PacketMessage (replicate 300 7)) @ [1, 50],
      final = EOF\<rparr> 1000 =
     (Inr (binary_packet PacketMessage (replicate 300 7)), \<lparr>pending = [1, 50], final = EOF\<rparr>)"
  using webtransport_frame_round_trip [where r = "\<lparr>pending = [], final = EOF\<rparr>" and maxPayload = 1000
      and p = "binary_packet PacketMessage (replicate 300 7)" and rest = "[1, 50]"]
  by (simp add: frame_fits_def frame_payload_def maxAlloc_def wf_packet_def PacketType_valid_def)

text \<open>
  C35: what the reader accepts from an untrusted stream: the consumed bytes are a header, an extended
  length of at most eight bytes and a payload, the packet is well formed and is the payload's, and
  with a positive limit the payload is no longer than the limit.
\<close>

theorem webtransport_read_sound:
  assumes "readWebTransportPacket r maxPayload = (Inr p, r')"
  shows "wf_packet p \<and>
    (\<exists>h ext payload. pending r = h # ext @ payload @ pending r' \<and> length ext \<le> 8 \<and>
       (0 < maxPayload \<longrightarrow> int (length payload) \<le> maxPayload) \<and>
       (if h AND webTransportBinaryFlag \<noteq> 0 then p = binary_packet PacketMessage payload
        else DecodePacket payload = Inr p))"
  using readWebTransportPacket_wf [OF assms] readWebTransportPacket_Inr [OF assms] by blast

theorem webtransport_read_sound_witness:
  "readWebTransportPacket \<lparr>pending = [1, 50, 9], final = EOF\<rparr> 5 =
     (Inr (text_packet PacketPing []), \<lparr>pending = [9], final = EOF\<rparr>) \<and>
   wf_packet (text_packet PacketPing [])"
proof
  show read: "readWebTransportPacket \<lparr>pending = [1, 50, 9], final = EOF\<rparr> 5 =
     (Inr (text_packet PacketPing []), \<lparr>pending = [9], final = EOF\<rparr>)"
    by (simp add: readWebTransportPacket_def ReadFull_def readWebTransportLength_def maxAlloc_def
        DecodePacket_def PacketTypeFromByte_def PacketType_valid_def)
  show "wf_packet (text_packet PacketPing [])"
    using webtransport_read_sound [OF read] by blast
qed



text \<open>
  A stream that ends behind a header whose payload is missing altogether is reported as a plain
  end of stream, the same value as a stream that ends between frames, and not as an unexpected one;
  one payload byte more and the error is the unexpected end of stream.
\<close>

theorem webtransport_truncated_frame:
  assumes "length payload < len" and "len < 126" and "maxPayload \<le> 0 \<or> int len \<le> maxPayload"
  shows "fst (readWebTransportPacket \<lparr>pending = octet len # payload, final = EOF\<rparr> maxPayload) =
    Inl (Error (if payload = [] then EOF else ErrUnexpectedEOF))"
proof -
  have "unat (octet len AND NOT webTransportBinaryFlag) = len"
    using assms flag_bits(4) [of len] by simp
  with assms show ?thesis
    by (auto simp add: readWebTransportPacket_def ReadFull_def readWebTransportLength_def
        maxAlloc_def simp del: webTransportBinaryFlag_def)
qed

theorem webtransport_truncated_frame_witness:
  "fst (readWebTransportPacket \<lparr>pending = [octet 5], final = EOF\<rparr> 100) = Inl (Error EOF) \<and>
   fst (readWebTransportPacket \<lparr>pending = [octet 5, 52], final = EOF\<rparr> 100) =
     Inl (Error ErrUnexpectedEOF)"
  using webtransport_truncated_frame [of "[]" 5 100] webtransport_truncated_frame [of "[52]" 5 100]
  by simp

end
