(* ===== verification/ServerTransport.thy ===== *)
theory ServerTransport
  imports Payload WebTransportFrame
begin

unbundle bit_operations_syntax

text \<open>
  The server side of the transports (\<^verbatim>\<open>server_transport_polling.go\<close>,
  \<^verbatim>\<open>server_transport_websocket.go\<close>, \<^verbatim>\<open>server_transport_webtransport.go\<close>): their state, and the
  operations of the \<^verbatim>\<open>serverTransport\<close> interface of \<^verbatim>\<open>server_socket.go\<close>. The read loops, which call
  back into the session, are in \<^verbatim>\<open>ServerReadLoop\<close>.

  What the connections below do with a write is a parameter: a \<open>network\<close> says for each transport,
  what was written on it before and what is written now, whether the write fails. A failed write
  leaves no trace in the model of what the peer got.
\<close>

type_synonym tref = nat
type_synonym sref = nat
type_synonym chan = nat

datatype MessageType = MessageText | MessageBinary

type_synonym frame = "MessageType \<times> bytes"

record network =
  ws_Write :: "tref \<Rightarrow> frame list \<Rightarrow> frame \<Rightarrow> error option"
  stream_SetWriteDeadline :: "tref \<Rightarrow> bytes \<Rightarrow> error option"
  stream_Write :: "tref \<Rightarrow> bytes \<Rightarrow> bytes \<Rightarrow> error option"

section \<open>Long polling\<close>

text \<open>
  A held poll is a channel of capacity one. The model keeps the payloads sent on channels as one
  log, in order; \<^verbatim>\<open>ServerPolls\<close> shows that no channel is ever sent a second payload, so a
  send never blocks and a log is all there is to see.
\<close>

type_synonym deliveries = "(chan \<times> bytes) list"

record serverPollingTransport =
  pt_closed :: bool
  dataCh :: "chan option"

definition newServerPollingTransport :: serverPollingTransport where
  "newServerPollingTransport = \<lparr>pt_closed = False, dataCh = None\<rparr>"

text \<open>The pooled buffer is truncated before the packets are encoded into it.\<close>

definition getPollBuffer :: "bytes \<Rightarrow> Packet list \<Rightarrow> bytes" where
  "getPollBuffer buffer packets = appendPayload (take 0 buffer) packets"

definition polling_send ::
  "serverPollingTransport \<times> deliveries \<Rightarrow> Packet list \<Rightarrow>
     (bool \<times> error option) \<times> serverPollingTransport \<times> deliveries" where
  "polling_send = (\<lambda>(t, log) packets.
     if pt_closed t then ((False, None), t, log)
     else (case dataCh t of
             None \<Rightarrow> ((False, None), t, log)
           | Some ch \<Rightarrow>
               ((True, None), t\<lparr>dataCh := None\<rparr>, log @ [(ch, getPollBuffer [] packets)])))"

definition polling_hold ::
  "serverPollingTransport \<Rightarrow> chan \<Rightarrow> error option \<times> serverPollingTransport" where
  "polling_hold t ch =
     (if pt_closed t then (Some errPollClosed, t)
      else if dataCh t \<noteq> None then (Some errPollOverlap, t)
      else (None, t\<lparr>dataCh := Some ch\<rparr>))"

definition polling_release ::
  "serverPollingTransport \<Rightarrow> chan \<Rightarrow> bool \<times> serverPollingTransport" where
  "polling_release t ch =
     (if dataCh t = Some ch then (True, t\<lparr>dataCh := None\<rparr>) else (False, t))"

definition polling_writeNoop ::
  "serverPollingTransport \<times> deliveries \<Rightarrow> serverPollingTransport \<times> deliveries" where
  "polling_writeNoop = (\<lambda>(t, log).
     (t\<lparr>dataCh := None\<rparr>,
      case dataCh t of
        None \<Rightarrow> log
      | Some ch \<Rightarrow> log @ [(ch, getPollBuffer [] [text_packet PacketNoop []])]))"

definition polling_close ::
  "serverPollingTransport \<times> deliveries \<Rightarrow> serverPollingTransport \<times> deliveries" where
  "polling_close = (\<lambda>(t, log).
     if pt_closed t then (t, log)
     else (t\<lparr>pt_closed := True, dataCh := None\<rparr>,
           case dataCh t of
             None \<Rightarrow> log
           | Some ch \<Rightarrow> log @ [(ch, getPollBuffer [] [text_packet PacketClose []])]))"

section \<open>WebSocket\<close>

text \<open>\<open>ws_frames\<close> are the frames written on the connection, in order.\<close>

record serverWebSocketTransport =
  ws_socket :: sref
  ws_closed :: bool
  ws_probing :: bool
  ws_done :: bool
  ws_frames :: "frame list"

definition newServerWebSocketTransport :: "sref \<Rightarrow> bool \<Rightarrow> serverWebSocketTransport" where
  "newServerWebSocketTransport socket probing =
     \<lparr>ws_socket = socket, ws_closed = False, ws_probing = probing, ws_done = False, ws_frames = []\<rparr>"

definition websocket_frame :: "Packet \<Rightarrow> frame" where
  "websocket_frame packet =
     (if IsBinary packet then (MessageBinary, Data packet) else (MessageText, EncodePacket packet))"

definition websocket_writeFrame ::
  "(frame list \<Rightarrow> frame \<Rightarrow> error option) \<Rightarrow> serverWebSocketTransport \<Rightarrow> Packet \<Rightarrow>
     error option \<times> serverWebSocketTransport" where
  "websocket_writeFrame wr t packet =
     (case wr (ws_frames t) (websocket_frame packet) of
        Some err \<Rightarrow> (Some err, t)
      | None \<Rightarrow> (None, t\<lparr>ws_frames := ws_frames t @ [websocket_frame packet]\<rparr>))"

fun websocket_writeFrames ::
  "(frame list \<Rightarrow> frame \<Rightarrow> error option) \<Rightarrow> serverWebSocketTransport \<Rightarrow> Packet list \<Rightarrow>
     (bool \<times> error option) \<times> serverWebSocketTransport" where
  "websocket_writeFrames wr t [] = ((True, None), t)"
| "websocket_writeFrames wr t (packet # packets) =
     (case websocket_writeFrame wr t packet of
        (Some err, t') \<Rightarrow> ((False, Some (Errorf ''writing websocket frame: %w'' [] [err])), t')
      | (None, t') \<Rightarrow> websocket_writeFrames wr t' packets)"

definition websocket_send ::
  "(frame list \<Rightarrow> frame \<Rightarrow> error option) \<Rightarrow> serverWebSocketTransport \<Rightarrow> Packet list \<Rightarrow>
     (bool \<times> error option) \<times> serverWebSocketTransport" where
  "websocket_send wr t packets =
     (if ws_closed t then ((False, None), t) else websocket_writeFrames wr t packets)"

definition probe_pong :: Packet where
  "probe_pong = text_packet PacketPong (bytes_of ''probe'')"

definition websocket_writeProbePong ::
  "(frame list \<Rightarrow> frame \<Rightarrow> error option) \<Rightarrow> serverWebSocketTransport \<Rightarrow>
     error option \<times> serverWebSocketTransport" where
  "websocket_writeProbePong wr t = websocket_writeFrame wr t probe_pong"

definition websocket_promote :: "serverWebSocketTransport \<Rightarrow> serverWebSocketTransport" where
  "websocket_promote t = t\<lparr>ws_probing := False\<rparr>"

definition websocket_close :: "serverWebSocketTransport \<Rightarrow> serverWebSocketTransport" where
  "websocket_close t = (if ws_closed t then t else t\<lparr>ws_closed := True\<rparr>)"

section \<open>WebTransport\<close>

text \<open>\<open>wt_stream\<close> are the bytes written on the stream, \<open>wt_reader\<close> what is left to read from it.\<close>

record serverWebTransportTransport =
  wt_socket :: sref
  wt_closed :: bool
  wt_probing :: bool
  wt_done :: bool
  wt_stream :: bytes
  wt_reader :: Reader

definition newServerWebTransportTransport ::
  "sref \<Rightarrow> Reader \<Rightarrow> bool \<Rightarrow> serverWebTransportTransport" where
  "newServerWebTransportTransport socket reader probing =
     \<lparr>wt_socket = socket, wt_closed = False, wt_probing = probing, wt_done = False, wt_stream = [],
      wt_reader = reader\<rparr>"

fun framesBuffer :: "bytes \<Rightarrow> Packet list \<Rightarrow> bytes" where
  "framesBuffer buffer [] = buffer"
| "framesBuffer buffer (packet # packets) =
     framesBuffer (appendWebTransportFrame buffer packet) packets"

definition webtransport_writeFrames ::
  "(bytes \<Rightarrow> error option) \<Rightarrow> (bytes \<Rightarrow> bytes \<Rightarrow> error option) \<Rightarrow> serverWebTransportTransport \<Rightarrow>
     Packet list \<Rightarrow> error option \<times> serverWebTransportTransport" where
  "webtransport_writeFrames dl wr t packets =
     (let buffer = framesBuffer [] packets
      in case dl (wt_stream t) of
           Some err \<Rightarrow> (Some (Errorf ''setting write deadline: %w'' [] [err]), t)
         | None \<Rightarrow>
             (case wr (wt_stream t) buffer of
                Some err \<Rightarrow> (Some (Errorf ''writing webtransport frame: %w'' [] [err]), t)
              | None \<Rightarrow> (None, t\<lparr>wt_stream := wt_stream t @ buffer\<rparr>)))"

definition webtransport_send ::
  "(bytes \<Rightarrow> error option) \<Rightarrow> (bytes \<Rightarrow> bytes \<Rightarrow> error option) \<Rightarrow> serverWebTransportTransport \<Rightarrow>
     Packet list \<Rightarrow> (bool \<times> error option) \<times> serverWebTransportTransport" where
  "webtransport_send dl wr t packets =
     (if wt_closed t then ((False, None), t)
      else (case webtransport_writeFrames dl wr t packets of
              (Some err, t') \<Rightarrow> ((False, Some err), t')
            | (None, t') \<Rightarrow> ((True, None), t')))"

definition webtransport_writeProbePong ::
  "(bytes \<Rightarrow> error option) \<Rightarrow> (bytes \<Rightarrow> bytes \<Rightarrow> error option) \<Rightarrow> serverWebTransportTransport \<Rightarrow>
     error option \<times> serverWebTransportTransport" where
  "webtransport_writeProbePong dl wr t = webtransport_writeFrames dl wr t [probe_pong]"

definition webtransport_promote :: "serverWebTransportTransport \<Rightarrow> serverWebTransportTransport" where
  "webtransport_promote t = t\<lparr>wt_probing := False\<rparr>"

definition webtransport_close :: "serverWebTransportTransport \<Rightarrow> serverWebTransportTransport" where
  "webtransport_close t = (if wt_closed t then t else t\<lparr>wt_closed := True\<rparr>)"

definition webTransportReadLimit :: int where
  "webTransportReadLimit = 16 * 2 ^ 20"

definition webTransportServerReadLimit :: "int \<Rightarrow> int" where
  "webTransportServerReadLimit maxPayload =
     (if maxPayload \<le> 0 then webTransportReadLimit else maxPayload)"

definition isWebTransportParseError :: "error \<Rightarrow> bool" where
  "isWebTransportParseError err \<longleftrightarrow>
     errors_Is err errWebTransportFrameTooLarge \<or> errors_Is err ErrEmptyPacket \<or>
     errors_Is err ErrInvalidPacketType"

section \<open>Reading frames\<close>

definition decodeWebSocketFrame :: "MessageType \<Rightarrow> bytes \<Rightarrow> error + Packet" where
  "decodeWebSocketFrame messageType frame =
     (if messageType = MessageBinary then Inr (binary_packet PacketMessage frame)
      else (case DecodePacket frame of
              Inl err \<Rightarrow> Inl (Errorf ''decoding websocket frame: %w'' [] [err])
            | Inr packet \<Rightarrow> Inr packet))"

section \<open>The transport interface\<close>

text \<open>
  What a session relies on. A send reports that the packets were handed over, and then exactly they
  were; or that they were not, without an error, and then nothing changed and the session keeps
  them; or an error. A closed transport accepts nothing. \<open>wire\<close> is what the peer can see.
\<close>

locale server_transport =
  fixes send :: "'t \<Rightarrow> Packet list \<Rightarrow> (bool \<times> error option) \<times> 't"
    and close :: "'t \<Rightarrow> 't"
    and closed :: "'t \<Rightarrow> bool"
    and wire :: "'t \<Rightarrow> 'w list"
    and form :: "'t \<Rightarrow> Packet list \<Rightarrow> 'w list"
  assumes send_sent: "send t ps = ((True, e), t') \<Longrightarrow> e = None \<and> wire t' = wire t @ form t ps"
    and send_kept: "send t ps = ((False, None), t') \<Longrightarrow> t' = t"
    and send_closed: "closed t \<Longrightarrow> send t ps = ((False, None), t)"
    and send_open: "closed (snd (send t ps)) = closed t"
    and close_closed: "closed (close t)"
    and close_idem: "closed t \<Longrightarrow> close t = t"
begin

lemma close_close: "close (close t) = close t"
  by (rule close_idem) (rule close_closed)

lemma send_after_close: "send (close t) ps = ((False, None), close t)"
  by (rule send_closed) (rule close_closed)

text \<open>The three outcomes of a send.\<close>

lemma send_cases:
  obtains (Sent) t' where "send t ps = ((True, None), t')" "wire t' = wire t @ form t ps" "\<not> closed t"
  | (Kept) "send t ps = ((False, None), t)"
  | (Failed) e t' where "send t ps = ((False, Some e), t')" "\<not> closed t"
proof -
  obtain b e t' where s: "send t ps = ((b, e), t')" by (metis prod.exhaust)
  show thesis
  proof (cases b)
    case True
    with s send_sent [of t ps e t'] send_closed [of t ps] show ?thesis by (intro Sent [of t']) auto
  next
    case False
    with s send_kept [of t ps t'] send_closed [of t ps] Kept Failed show ?thesis
      by (cases e) auto
  qed
qed

end

text \<open>A probing transport is promoted without losing anything.\<close>

locale promotable_transport = server_transport +
  fixes promote :: "'t \<Rightarrow> 't" and probing :: "'t \<Rightarrow> bool"
  assumes promote_probing: "\<not> probing (promote t)"
    and promote_wire: "wire (promote t) = wire t"
    and promote_closed: "closed (promote t) = closed t"
    and close_probing: "probing (close t) = probing t"
begin

lemma promote_close: "closed (promote (close t)) \<and> \<not> probing (close (promote t))"
  by (simp add: promote_closed close_closed close_probing promote_probing)

end

section \<open>The three transports implement the interface\<close>

lemma getPollBuffer_eq [simp]: "getPollBuffer buffer packets = EncodePayload packets"
  by (simp add: getPollBuffer_def EncodePayload_def)

interpretation polling: server_transport polling_send polling_close "\<lambda>(t, log). pt_closed t" snd
  "\<lambda>(t, log) ps. [(the (dataCh t), EncodePayload ps)]"
  by unfold_locales
    (auto simp: polling_send_def polling_close_def split: prod.splits option.splits if_splits)

lemma websocket_writeFrames_sent:
  "websocket_writeFrames wr t ps = ((True, e), t') \<Longrightarrow>
     e = None \<and> t' = t\<lparr>ws_frames := ws_frames t @ map websocket_frame ps\<rparr>"
  by (induction wr t ps rule: websocket_writeFrames.induct)
    (auto simp: websocket_writeFrame_def split: option.splits)

lemma websocket_writeFrames_kept: "websocket_writeFrames wr t ps \<noteq> ((False, None), t')"
  by (induction wr t ps rule: websocket_writeFrames.induct)
    (auto simp: websocket_writeFrame_def split: option.splits)

lemma websocket_writeFrames_flags:
  "ws_closed (snd (websocket_writeFrames wr t ps)) = ws_closed t"
  "ws_probing (snd (websocket_writeFrames wr t ps)) = ws_probing t"
  "ws_socket (snd (websocket_writeFrames wr t ps)) = ws_socket t"
  "ws_done (snd (websocket_writeFrames wr t ps)) = ws_done t"
  by (induction wr t ps rule: websocket_writeFrames.induct)
    (auto simp: websocket_writeFrame_def split: option.splits)

interpretation websocket: promotable_transport "websocket_send wr" websocket_close ws_closed ws_frames
  "\<lambda>_. map websocket_frame" websocket_promote ws_probing for wr
  by unfold_locales
    (auto simp: websocket_send_def websocket_close_def websocket_promote_def websocket_writeFrames_kept
      websocket_writeFrames_flags dest: websocket_writeFrames_sent split: if_splits)

lemma framesBuffer_eq: "framesBuffer buffer ps = buffer @ concat (map (appendWebTransportFrame []) ps)"
proof (induction ps arbitrary: buffer)
  case (Cons p ps)
  show ?case
    using Cons [of "appendWebTransportFrame buffer p"] appendWebTransportFrame_append [of buffer p]
    by simp
qed simp

interpretation webtransport: promotable_transport "webtransport_send dl wr" webtransport_close wt_closed
  wt_stream "\<lambda>_ ps. concat (map (appendWebTransportFrame []) ps)" webtransport_promote wt_probing
  for dl wr
  by unfold_locales
    (auto simp: webtransport_send_def webtransport_close_def webtransport_promote_def
      webtransport_writeFrames_def framesBuffer_eq Let_def split: if_splits option.splits)

section \<open>The peer decodes what was sent\<close>

lemma decodeWebSocketFrame_frame:
  "wf_packet p \<Longrightarrow> (case websocket_frame p of (m, f) \<Rightarrow> decodeWebSocketFrame m f) = Inr p"
  by (cases p) (auto simp: websocket_frame_def decodeWebSocketFrame_def wf_packet_def
      DecodePacket_EncodePacket)

interpretation ws_codec: item_codec websocket_frame "\<lambda>(m, f). decodeWebSocketFrame m f" wf_packet
  by unfold_locales (use decodeWebSocketFrame_frame in auto)

lemma decodeWebSocketFrame_wf: "decodeWebSocketFrame m f = Inr p \<Longrightarrow> wf_packet p"
  by (auto simp: decodeWebSocketFrame_def wf_binary_message [simplified] DecodePacket_wf
      split: if_splits sum.splits)

section \<open>At most one payload per poll\<close>

text \<open>
  The invariant of a polling transport and the log: a held channel was never sent anything, no
  channel was sent two payloads, and a closed transport holds no poll.
\<close>

definition poll_inv :: "serverPollingTransport \<Rightarrow> deliveries \<Rightarrow> bool" where
  "poll_inv t log \<longleftrightarrow>
     distinct (map fst log) \<and> (\<forall>ch. dataCh t = Some ch \<longrightarrow> ch \<notin> set (map fst log)) \<and>
     (pt_closed t \<longrightarrow> dataCh t = None)"

lemma poll_inv_new: "poll_inv newServerPollingTransport log \<longleftrightarrow> distinct (map fst log)"
  by (simp add: poll_inv_def newServerPollingTransport_def)

lemma poll_inv_send: "poll_inv t log \<Longrightarrow> case_prod poll_inv (snd (polling_send (t, log) ps))"
  by (auto simp: poll_inv_def polling_send_def split: option.splits)

lemma poll_inv_hold:
  "poll_inv t log \<Longrightarrow> ch \<notin> set (map fst log) \<Longrightarrow> poll_inv (snd (polling_hold t ch)) log"
  by (auto simp: poll_inv_def polling_hold_def)

lemma poll_inv_release: "poll_inv t log \<Longrightarrow> poll_inv (snd (polling_release t ch)) log"
  by (auto simp: poll_inv_def polling_release_def)

lemma poll_inv_writeNoop: "poll_inv t log \<Longrightarrow> case_prod poll_inv (polling_writeNoop (t, log))"
  by (auto simp: poll_inv_def polling_writeNoop_def split: option.splits)

lemma poll_inv_close: "poll_inv t log \<Longrightarrow> case_prod poll_inv (polling_close (t, log))"
  by (auto simp: poll_inv_def polling_close_def split: option.splits)

lemmas poll_inv_steps = poll_inv_send poll_inv_hold poll_inv_release poll_inv_writeNoop poll_inv_close

section \<open>Bounds and errors of the server's reads\<close>

text \<open>
  Whatever maximum payload is configured, zero and negative values included, a server read of a
  WebTransport frame is bounded: it cannot panic on a declared length, and a packet it returns has a
  payload of at most the configured maximum, or 16 MiB where none is set.
\<close>

theorem webtransport_server_read_bounded:
  assumes "maxPayload \<le> int maxAlloc"
  shows "never_panics (fst (readWebTransportPacket r (webTransportServerReadLimit maxPayload))) \<and>
    (\<forall>p r'. readWebTransportPacket r (webTransportServerReadLimit maxPayload) = (Inr p, r') \<longrightarrow>
       int (length (Data p)) \<le> (if 0 < maxPayload then maxPayload else 16777216))"
proof -
  have lim: "0 < webTransportServerReadLimit maxPayload" "webTransportServerReadLimit maxPayload \<le> int maxAlloc"
    using assms by (simp_all add: webTransportServerReadLimit_def webTransportReadLimit_def maxAlloc_def)
  have "int (length (Data p)) \<le> webTransportServerReadLimit maxPayload"
    if "readWebTransportPacket r (webTransportServerReadLimit maxPayload) = (Inr p, r')" for p r'
    using readWebTransportPacket_Data [OF that lim(1)] .
  then show ?thesis
    using readWebTransportPacket_no_panic [OF lim]
    by (auto simp: webTransportServerReadLimit_def webTransportReadLimit_def split: if_splits)
qed

theorem webtransport_server_read_bounded_witness:
  "never_panics (fst (readWebTransportPacket
     \<lparr>pending = 0xff # replicate 8 0xff @ [1, 2, 3], final = EOF\<rparr> (webTransportServerReadLimit 0)))"
  using webtransport_server_read_bounded [of 0] by simp

text \<open>
  A WebTransport text frame whose binary data is no base64 is a packet that cannot be decoded,
  and yet the error is not classified as a parse error: the read loop closes the session with the
  reason of a stream that was closed.
\<close>

theorem webtransport_bad_base64_is_no_parse_error:
  assumes bad: "stdDecodeString enc = Inl e" and small: "length enc < 125"
    and fits: "maxPayload \<le> 0 \<or> int (length enc) < maxPayload"
  shows "\<exists>err. fst (readWebTransportPacket
      \<lparr>pending = octet (Suc (length enc)) # BinaryMarker # enc @ rest, final = fin\<rparr> maxPayload) =
        Inl (Error err) \<and> errors_Is err e \<and> \<not> isWebTransportParseError err"
proof -
  have "unat (octet (Suc (length enc)) AND NOT webTransportBinaryFlag) = Suc (length enc)"
    "octet (Suc (length enc)) AND webTransportBinaryFlag = 0"
    using small flag_bits(2,4) [of "Suc (length enc)"] by simp_all
  moreover obtain k where "e = CorruptInputError k" using stdDecodeString_Inl [OF bad] by blast
  ultimately show ?thesis
    using bad small fits
    by (auto simp: readWebTransportPacket_def ReadFull_def readWebTransportLength_def maxAlloc_def
        DecodePacket_def isWebTransportParseError_def simp del: webTransportBinaryFlag_def)
qed

theorem webtransport_bad_base64_is_no_parse_error_witness:
  "\<exists>err. fst (readWebTransportPacket \<lparr>pending = [octet (Suc 1), BinaryMarker, 33], final = EOF\<rparr> 100) =
        Inl (Error err) \<and> errors_Is err (CorruptInputError 0) \<and> \<not> isWebTransportParseError err"
proof -
  have "stdDecodeString [33] = Inl (CorruptInputError 0)"
    by (simp add: stdDecodeString_def decodeMap_def stdAlphabet_def bytes_of_def upt_rec
        is_newline_def padChar_def)
  then show ?thesis
    using webtransport_bad_base64_is_no_parse_error [of "[33]" "CorruptInputError 0" 100 "[]" EOF]
    by simp
qed

end
