(* ===== verification/Url.thy ===== *)
theory Url
  imports Codec
begin

text \<open>
  The part of net/url the package uses: the query of a request (\<^verbatim>\<open>URL.Query\<close>, \<^verbatim>\<open>Values.Get\<close>) and the
  escaping a client writes one with (\<^verbatim>\<open>QueryEscape\<close>). A query is the list of its key-value pairs in
  order of appearance; a pair that cannot be unescaped, or that holds a semicolon, is skipped.
\<close>

type_synonym query_values = "(string \<times> string) list"

definition upper_hex :: string where
  "upper_hex = ''0123456789ABCDEF''"

definition unhex :: "char \<Rightarrow> nat option" where
  "unhex c =
     (let n = of_char c :: nat
      in if 48 \<le> n \<and> n \<le> 57 then Some (n - 48)
         else if 65 \<le> n \<and> n \<le> 70 then Some (n - 55)
         else if 97 \<le> n \<and> n \<le> 102 then Some (n - 87)
         else None)"

definition shouldEscape :: "char \<Rightarrow> bool" where
  "shouldEscape c =
     (let n = of_char c :: nat
      in \<not> (48 \<le> n \<and> n \<le> 57 \<or> 65 \<le> n \<and> n \<le> 90 \<or> 97 \<le> n \<and> n \<le> 122 \<or> c \<in> set ''-_.~''))"

definition escapeChar :: "char \<Rightarrow> string" where
  "escapeChar c =
     (if c = CHR '' '' then ''+''
      else if shouldEscape c
      then [CHR ''%'', upper_hex ! (of_char c div 16), upper_hex ! (of_char c mod 16)]
      else [c])"

definition QueryEscape :: "string \<Rightarrow> string" where
  "QueryEscape s = concat (map escapeChar s)"

fun QueryUnescape :: "string \<Rightarrow> string option" where
  "QueryUnescape [] = Some []"
| "QueryUnescape (c # cs) =
     (if c = CHR ''%'' then
        (case cs of
           h # l # rest \<Rightarrow>
             (case (unhex h, unhex l) of
                (Some x, Some y) \<Rightarrow> map_option ((#) (char_of (x * 16 + y))) (QueryUnescape rest)
              | _ \<Rightarrow> None)
         | _ \<Rightarrow> None)
      else map_option ((#) (if c = CHR ''+'' then CHR '' '' else c)) (QueryUnescape cs))"

text \<open>\<^verbatim>\<open>strings.Cut\<close> on one character.\<close>

definition cut :: "char \<Rightarrow> string \<Rightarrow> string \<times> string" where
  "cut c s = (takeWhile (\<lambda>x. x \<noteq> c) s, tl (dropWhile (\<lambda>x. x \<noteq> c) s))"

definition parsePair :: "string \<Rightarrow> (string \<times> string) option" where
  "parsePair s =
     (if CHR '';'' \<in> set s \<or> s = [] then None
      else (case cut (CHR ''='') s of
              (k, v) \<Rightarrow>
                (case (QueryUnescape k, QueryUnescape v) of
                   (Some k', Some v') \<Rightarrow> Some (k', v')
                 | _ \<Rightarrow> None)))"

definition parseQuery :: "string \<Rightarrow> query_values" where
  "parseQuery query = List.map_filter parsePair (split_on (CHR ''&'') query)"

definition values_Get :: "query_values \<Rightarrow> string \<Rightarrow> string" where
  "values_Get vs k = (case map_of vs k of None \<Rightarrow> '''' | Some v \<Rightarrow> v)"

definition encodePair :: "string \<times> string \<Rightarrow> string" where
  "encodePair = (\<lambda>(k, v). QueryEscape k @ ''='' @ QueryEscape v)"

definition encodeQuery :: "query_values \<Rightarrow> string" where
  "encodeQuery vs = join_on (CHR ''&'') (map encodePair vs)"

section \<open>Parsing inverts encoding\<close>

lemma upper_hex_unhex:
  "n < 16 \<Longrightarrow> unhex (upper_hex ! n) = Some n \<and> upper_hex ! n \<notin> {CHR ''&'', CHR '';'', CHR ''='', CHR ''+''}"
proof -
  assume "n < 16"
  then have "n \<in> set [0..<16]" by simp
  moreover have "\<forall>n \<in> set [0..<16]. unhex (upper_hex ! n) = Some n \<and>
      upper_hex ! n \<notin> {CHR ''&'', CHR '';'', CHR ''='', CHR ''+''}"
    by (simp add: upt_rec upper_hex_def unhex_def)
  ultimately show ?thesis by blast
qed

lemma char_hex [simp]: "char_of (of_char c div 16 * 16 + of_char c mod 16 :: nat) = c"
  by (simp add: div_mult_mod_eq)

lemma QueryUnescape_escapeChar:
  "QueryUnescape (escapeChar c @ s) = map_option ((#) c) (QueryUnescape s)"
proof -
  have "of_char c div 16 < (16 :: nat)" by (rule less_mult_imp_div_less) simp
  then show ?thesis
    using upper_hex_unhex [of "of_char c div 16"] upper_hex_unhex [of "of_char c mod 16"]
    by (auto simp: escapeChar_def shouldEscape_def Let_def)
qed

lemma QueryUnescape_QueryEscape [simp]: "QueryUnescape (QueryEscape s) = Some s"
  by (induction s) (simp_all add: QueryEscape_def QueryUnescape_escapeChar)

lemma escapeChar_chars:
  "x \<in> set (escapeChar c) \<Longrightarrow> x \<notin> {CHR ''&'', CHR '';'', CHR ''=''}"
proof -
  have "of_char c div 16 < (16 :: nat)" by (rule less_mult_imp_div_less) simp
  moreover assume "x \<in> set (escapeChar c)"
  ultimately show ?thesis
    using upper_hex_unhex [of "of_char c div 16"] upper_hex_unhex [of "of_char c mod 16"]
    by (auto simp: escapeChar_def shouldEscape_def Let_def split: if_splits)
qed

lemma QueryEscape_chars:
  "CHR ''&'' \<notin> set (QueryEscape s)" "CHR '';'' \<notin> set (QueryEscape s)" "CHR ''='' \<notin> set (QueryEscape s)"
  by (auto simp: QueryEscape_def dest: escapeChar_chars)

lemma cut_append: "c \<notin> set s \<Longrightarrow> cut c (s @ c # t) = (s, t)"
  by (induction s) (auto simp: cut_def)

lemma parsePair_encodePair: "parsePair (encodePair kv) = Some kv"
proof (cases kv)
  case (Pair k v)
  then show ?thesis
    using QueryEscape_chars cut_append [of "CHR ''=''" "QueryEscape k" "QueryEscape v"]
    by (simp add: parsePair_def encodePair_def)
qed

lemma encodePair_chars: "CHR ''&'' \<notin> set (encodePair kv)"
  by (auto simp: encodePair_def QueryEscape_chars split: prod.splits)

lemma parseQuery_encodeQuery: "vs \<noteq> [] \<Longrightarrow> parseQuery (encodeQuery vs) = vs"
proof -
  assume "vs \<noteq> []"
  then have "split_on (CHR ''&'') (encodeQuery vs) = map encodePair vs"
    unfolding encodeQuery_def by (intro split_join) (auto simp: encodePair_chars)
  then show ?thesis
    by (simp add: parseQuery_def map_filter_def parsePair_encodePair comp_def)
qed

end
