(* ===== verification/Http.thy ===== *)
theory Http
  imports Url WebTransportFrame Utf8
begin

text \<open>
  The part of net/http, strings and io the server uses. Header keys are in canonical form and map to
  their values in order. A request body is a byte stream with the error it ends with. A response
  records the status and headers in force when they are committed, the body written, and, as an
  input, what \<^verbatim>\<open>Write\<close> reports on this connection.
\<close>

type_synonym Header = "string \<Rightarrow> string list"

definition header_Get :: "Header \<Rightarrow> string \<Rightarrow> string" where
  "header_Get h k = (case h k of [] \<Rightarrow> '''' | v # _ \<Rightarrow> v)"

definition header_Set :: "Header \<Rightarrow> string \<Rightarrow> string \<Rightarrow> Header" where
  "header_Set h k v = h(k := [v])"

definition header_Add :: "Header \<Rightarrow> string \<Rightarrow> string \<Rightarrow> Header" where
  "header_Add h k v = h(k := h k @ [v])"

record Request =
  Method :: string
  Proto :: string
  RawQuery :: string
  ReqHeader :: Header
  Body :: Reader

datatype SameSite = SameSiteUnset | SameSiteDefaultMode | SameSiteLaxMode | SameSiteStrictMode | SameSiteNoneMode

record Cookie =
  cookie_Name :: string
  cookie_Value :: string
  cookie_Path :: string
  cookie_HttpOnly :: bool
  cookie_Secure :: bool
  cookie_SameSite :: SameSite
  cookie_MaxAge :: int

record ResponseWriter =
  resp_header :: Header
  resp_cookies :: "Cookie list"
  resp_status :: "int option"
  resp_body :: bytes
  resp_writeErr :: "error option"

definition newResponse :: "error option \<Rightarrow> ResponseWriter" where
  "newResponse err =
     \<lparr>resp_header = (\<lambda>_. []), resp_cookies = [], resp_status = None, resp_body = [], resp_writeErr = err\<rparr>"

text \<open>Headers are frozen, and a second status ignored, once a status is written.\<close>

definition resp_Set :: "string \<Rightarrow> string \<Rightarrow> ResponseWriter \<Rightarrow> ResponseWriter" where
  "resp_Set k v w =
     (if resp_status w = None then w\<lparr>resp_header := header_Set (resp_header w) k v\<rparr> else w)"

definition resp_Add :: "string \<Rightarrow> string \<Rightarrow> ResponseWriter \<Rightarrow> ResponseWriter" where
  "resp_Add k v w =
     (if resp_status w = None then w\<lparr>resp_header := header_Add (resp_header w) k v\<rparr> else w)"

definition resp_WriteHeader :: "int \<Rightarrow> ResponseWriter \<Rightarrow> ResponseWriter" where
  "resp_WriteHeader code w =
     (if resp_status w = None then w\<lparr>resp_status := Some code\<rparr> else w)"

definition resp_Write :: "bytes \<Rightarrow> ResponseWriter \<Rightarrow> error option \<times> ResponseWriter" where
  "resp_Write data w =
     (let w = resp_WriteHeader 200 w
      in case resp_writeErr w of
           Some err \<Rightarrow> (Some err, w)
         | None \<Rightarrow> (None, w\<lparr>resp_body := resp_body w @ data\<rparr>))"

text \<open>\<^verbatim>\<open>http.SetCookie\<close> drops a cookie whose name is no token.\<close>

definition isTokenChar :: "char \<Rightarrow> bool" where
  "isTokenChar c =
     (let n = of_char c :: nat
      in 48 \<le> n \<and> n \<le> 57 \<or> 65 \<le> n \<and> n \<le> 90 \<or> 97 \<le> n \<and> n \<le> 122 \<or>
         n \<in> {33, 35, 36, 37, 38, 39, 42, 43, 45, 46, 94, 95, 96, 124, 126})"

definition SetCookie :: "Cookie \<Rightarrow> ResponseWriter \<Rightarrow> ResponseWriter" where
  "SetCookie c w =
     (if resp_status w = None \<and> cookie_Name c \<noteq> '''' \<and> list_all isTokenChar (cookie_Name c)
      then w\<lparr>resp_cookies := resp_cookies w @ [c]\<rparr> else w)"

section \<open>Request bodies\<close>

text \<open>
  \<^verbatim>\<open>io.ReadAll(io.LimitReader(body, n))\<close>: the first \<open>n\<close> bytes, nothing for a limit that is not
  positive; the error of the body counts only if the body ends before the limit.
\<close>

definition readLimited :: "Reader \<Rightarrow> int \<Rightarrow> error + bytes" where
  "readLimited r n =
     (if n \<le> 0 then Inr []
      else if n \<le> int (length (pending r)) then Inr (take (nat n) (pending r))
      else if final r = EOF then Inr (pending r) else Inl (final r))"

section \<open>Strings\<close>

definition HasPrefix :: "string \<Rightarrow> string \<Rightarrow> bool" where
  "HasPrefix s p \<longleftrightarrow> take (length p) s = p"

definition strings_Join :: "string list \<Rightarrow> string \<Rightarrow> string" where
  "strings_Join xs sep = concat (case xs of [] \<Rightarrow> [] | x # rest \<Rightarrow> x # map (\<lambda>y. sep @ y) rest)"

definition lower :: "char \<Rightarrow> char" where
  "lower c =
     (let n = of_char c :: nat in if 65 \<le> n \<and> n \<le> 90 then char_of (n + 32) else c)"

text \<open>
  \<^verbatim>\<open>strings.EqualFold\<close> against a text of ASCII letters other than \<open>k\<close> and \<open>s\<close>, which have no
  Unicode letters that fold to them.
\<close>

definition EqualFold :: "string \<Rightarrow> string \<Rightarrow> bool" where
  "EqualFold s t \<longleftrightarrow> map lower s = map lower t"

definition isSpace :: "nat \<Rightarrow> bool" where
  "isSpace r \<longleftrightarrow>
     9 \<le> r \<and> r \<le> 13 \<or> r = 32 \<or> r = 0x85 \<or> r = 0xA0 \<or> r = 0x1680 \<or> 0x2000 \<le> r \<and> r \<le> 0x200a \<or>
     r = 0x2028 \<or> r = 0x2029 \<or> r = 0x202f \<or> r = 0x205f \<or> r = 0x3000"

function rune_segments :: "bytes \<Rightarrow> (nat \<times> bytes) list" where
  "rune_segments [] = []"
| "rune_segments (b # bs) =
     (case decodeRune b bs of
        (r, rest) \<Rightarrow> (r, take (Suc (length bs) - length rest) (b # bs)) # rune_segments rest)"
  by pat_completeness auto
termination
  by (relation "measure length") (auto simp: less_Suc_eq_le dest: sym [THEN decodeRune_length])

definition TrimSpace :: "string \<Rightarrow> string" where
  "TrimSpace s =
     (let strip = dropWhile (\<lambda>(r, bs). isSpace r)
      in string_of (concat (map snd (rev (strip (rev (strip (rune_segments (bytes_of s)))))))))"

definition acceptsGzip :: "Request \<Rightarrow> bool" where
  "acceptsGzip r \<longleftrightarrow>
     (\<exists>encoding \<in> set (split_on (CHR '','') (header_Get (ReqHeader r) ''Accept-Encoding'')).
        EqualFold (TrimSpace (takeWhile (\<lambda>c. c \<noteq> CHR '';'') encoding)) ''gzip'')"

section \<open>Facts\<close>

lemma header_simps [simp]:
  "header_Get (header_Set h k v) k' = (if k' = k then v else header_Get h k')"
  "header_Get (header_Add h k v) k' = (if k' = k \<and> h k = [] then v else header_Get h k')"
  by (auto simp: header_Get_def header_Set_def header_Add_def split: list.splits)

lemma resp_status_simps [simp]:
  "resp_status (resp_Set k v w) = resp_status w" "resp_status (resp_Add k v w) = resp_status w"
  "resp_status (SetCookie c w) = resp_status w"
  "resp_status (resp_WriteHeader code w) = Some (case resp_status w of None \<Rightarrow> code | Some s \<Rightarrow> s)"
  "resp_body (resp_Set k v w) = resp_body w" "resp_body (resp_Add k v w) = resp_body w"
  "resp_body (SetCookie c w) = resp_body w" "resp_body (resp_WriteHeader code w) = resp_body w"
  "resp_writeErr (resp_Set k v w) = resp_writeErr w" "resp_writeErr (resp_Add k v w) = resp_writeErr w"
  "resp_writeErr (SetCookie c w) = resp_writeErr w" "resp_writeErr (resp_WriteHeader code w) = resp_writeErr w"
  by (auto simp: resp_Set_def resp_Add_def SetCookie_def resp_WriteHeader_def split: option.splits)

lemma resp_Write_simps [simp]:
  "fst (resp_Write data w) = resp_writeErr w"
  "resp_status (snd (resp_Write data w)) = Some (case resp_status w of None \<Rightarrow> 200 | Some s \<Rightarrow> s)"
  "resp_body (snd (resp_Write data w)) =
     (if resp_writeErr w = None then resp_body w @ data else resp_body w)"
  by (auto simp: resp_Write_def Let_def split: option.splits)

lemma readLimited_le:
  "readLimited r n = Inr body \<Longrightarrow> int (length body) \<le> max 0 n \<and> (\<exists>rest. pending r = body @ rest)"
  by (auto simp: readLimited_def split: if_splits intro: append_take_drop_id [symmetric])

end
