(* ===== verification/Json.thy ===== *)
theory Json
  imports Payload
begin

text \<open>
  What the package marshals with encoding/json: the open packet of a handshake and the body of a
  connection error. Strings are escaped as \<^verbatim>\<open>json.Marshal\<close> does with its default of HTML-safe
  output: control characters, quotes, the angle brackets and the ampersand, the two Unicode line
  separators, and a replacement for bytes that are no UTF-8. Marshalling these values cannot fail.
\<close>

definition htmlSafe :: "byte \<Rightarrow> bool" where
  "htmlSafe b \<longleftrightarrow> 32 \<le> unat b \<and> unat b < 128 \<and> b \<notin> {34, 92, 60, 62, 38}"

definition hexDigit :: "nat \<Rightarrow> byte" where
  "hexDigit n = octet (if n < 10 then 48 + n else 87 + n)"

definition escapeAscii :: "byte \<Rightarrow> bytes" where
  "escapeAscii b =
     (if b = 92 \<or> b = 34 then [92, b]
      else if b = 8 then [92, 98]
      else if b = 12 then [92, 102]
      else if b = 10 then [92, 110]
      else if b = 13 then [92, 114]
      else if b = 9 then [92, 116]
      else [92, 117, 48, 48, hexDigit (unat b div 16), hexDigit (unat b mod 16)])"

definition escapeRune :: "byte \<Rightarrow> bytes \<Rightarrow> bytes" where
  "escapeRune b bs =
     (case decodeRune b bs of
        (r, rest) \<Rightarrow>
          if r = RuneError \<and> length rest = length bs then 92 # bytes_of ''ufffd''
          else if r = 0x2028 \<or> r = 0x2029 then 92 # bytes_of ''u202'' @ [hexDigit (r mod 16)]
          else take (Suc (length bs) - length rest) (b # bs))"

function jsonEscape :: "bytes \<Rightarrow> bytes" where
  "jsonEscape [] = []"
| "jsonEscape (b # bs) =
     (if unat b < 128 then (if htmlSafe b then [b] else escapeAscii b) @ jsonEscape bs
      else escapeRune b bs @ jsonEscape (snd (decodeRune b bs)))"
  by pat_completeness auto
termination
  by (relation "measure length") (auto simp: less_Suc_eq_le snd_def split: prod.splits dest: decodeRune_length)

definition json_string :: "bytes \<Rightarrow> bytes" where
  "json_string s = 34 # jsonEscape s @ [34]"

definition json_int :: "int \<Rightarrow> bytes" where
  "json_int i = (if i < 0 then 45 # decimal_string (nat (- i)) else decimal_string (nat i))"

definition json_array :: "bytes list \<Rightarrow> bytes" where
  "json_array vs = 91 # join_on 44 vs @ [93]"

definition json_object :: "(string \<times> bytes) list \<Rightarrow> bytes" where
  "json_object kvs =
     123 # join_on 44 (map (\<lambda>(k, v). json_string (bytes_of k) @ 58 # v) kvs) @ [125]"

definition json_Marshal_OpenPacket :: "OpenPacket \<Rightarrow> error + bytes" where
  "json_Marshal_OpenPacket p =
     Inr (json_object
       [(''sid'', json_string (bytes_of (SessionID p))),
        (''upgrades'', json_array (map (\<lambda>t. json_string (bytes_of t)) (Upgrades p))),
        (''pingInterval'', json_int (PingInterval p)),
        (''pingTimeout'', json_int (PingTimeout p)),
        (''maxPayload'', json_int (MaxPayload p))])"

definition json_Marshal_error :: "int \<Rightarrow> string \<Rightarrow> error + bytes" where
  "json_Marshal_error code message =
     Inr (json_object [(''code'', json_int code), (''message'', json_string (bytes_of message))])"

text \<open>The body of the packet that asks for a WebTransport upgrade.\<close>

definition json_Marshal_sid :: "string \<Rightarrow> error + bytes" where
  "json_Marshal_sid sid = Inr (json_object [(''sid'', json_string (bytes_of sid))])"

section \<open>Escaped text is safe in a payload\<close>

lemma jsonEscape_safe: "(\<And>b. b \<in> set s \<Longrightarrow> htmlSafe b) \<Longrightarrow> jsonEscape s = s"
  by (induction s rule: jsonEscape.induct) (auto simp: htmlSafe_def)

text \<open>No escaped text holds a control character, so none holds the record separator.\<close>

lemma hexDigit_ge: "n < 16 \<Longrightarrow> 48 \<le> unat (hexDigit n)"
  by (simp add: hexDigit_def)

lemma escapeAscii_ge: "c \<in> set (escapeAscii b) \<Longrightarrow> 32 \<le> unat c"
proof -
  have "unat b div 16 < 16" by (rule less_mult_imp_div_less) simp
  then show "c \<in> set (escapeAscii b) \<Longrightarrow> 32 \<le> unat c"
    using hexDigit_ge [of "unat b div 16"] hexDigit_ge [of "unat b mod 16"]
    by (auto simp: escapeAscii_def split: if_splits)
qed

lemma second_ok_ge: "second_ok n b \<Longrightarrow> 128 \<le> unat b"
  by (auto simp: second_ok_def in_range_def split: if_splits)

lemma decodeRune_consumes:
  "decodeRune b bs = (r, rest) \<Longrightarrow> \<exists>pre. bs = pre @ rest \<and> (\<forall>c \<in> set pre. 128 \<le> unat c)"
  unfolding decodeRune_def Let_def
  by (auto simp: in_range_def dest: second_ok_ge split: if_splits list.split_asm
      intro: exI [of _ "[]"] exI [of _ "[_]"] exI [of _ "[_, _]"] exI [of _ "[_, _, _]"])

lemma escapeRune_ge: 
  assumes "128 \<le> unat b" and c: "c \<in> set (escapeRune b bs)"
  shows "32 \<le> unat c"
proof -
  obtain r rest where d: "decodeRune b bs = (r, rest)" by fastforce
  then obtain pre where "bs = pre @ rest" "\<forall>c \<in> set pre. 128 \<le> unat c"
    using decodeRune_consumes by blast
  moreover have "32 \<le> unat (hexDigit (r mod 16))" using hexDigit_ge [of "r mod 16"] by simp
  moreover have "c \<in> {92, 117, 102, 100, 50, 48, hexDigit (r mod 16)} \<union>
      set (take (Suc (length bs) - length rest) (b # bs))"
    using c d by (auto simp: escapeRune_def bytes_of_def split: if_splits)
  ultimately show ?thesis using assms(1) by auto
qed

lemma jsonEscape_ge: "c \<in> set (jsonEscape s) \<Longrightarrow> 32 \<le> unat c"
proof (induction s rule: jsonEscape.induct)
  case (2 b bs)
  then show ?case
    using escapeAscii_ge [of c b] escapeRune_ge [of b c bs]
    by (cases "unat b < 128") (auto simp: htmlSafe_def split: if_splits)
qed simp

end
