(* ===== verification/ServerOptions.thy ===== *)
theory ServerOptions
  imports Http Json
begin

text \<open>
  The server's configuration (\<^verbatim>\<open>server_options.go\<close>) and the open packet of a handshake
  (\<^verbatim>\<open>server_handshake.go\<close>). An option is a function on the configuration. A duration is its number
  of nanoseconds. A session id generator may draw on more than the request, so it also takes the
  random bytes of the call. The WebTransport upgrader is only tested for being set here.
\<close>

definition Second :: int where "Second = 1000000000"
definition Millisecond :: int where "Millisecond = 1000000"

definition DefaultPingInterval :: int where "DefaultPingInterval = 25 * Second"
definition DefaultPingTimeout :: int where "DefaultPingTimeout = 20 * Second"
definition DefaultUpgradeTimeout :: int where "DefaultUpgradeTimeout = 10 * Second"
definition DefaultMaxPayload :: int where "DefaultMaxPayload = 1000000"

record CORSOptions =
  AllowCredentials :: bool
  AllowedOrigins :: "string list"
  AllowedHeaders :: "string list"

record CookieOptions =
  co_Name :: string
  co_Path :: string
  co_HTTPOnly :: bool
  co_Secure :: bool
  co_SameSite :: SameSite
  co_MaxAge :: int

record serverConfig =
  pingInterval :: int
  pingTimeout :: int
  upgradeTimeout :: int
  maxPayload :: int
  transports :: "TransportType list"
  allowUpgrades :: bool
  cors :: CORSOptions
  generateID :: "Request \<Rightarrow> bytes \<Rightarrow> string"
  allowRequest :: "(Request \<Rightarrow> error option) option"
  cookie :: "CookieOptions option"
  httpCompression :: bool
  webTransportUpgrade :: bool

type_synonym ServerOption = "serverConfig \<Rightarrow> serverConfig"

definition WithPingInterval :: "int \<Rightarrow> ServerOption" where
  "WithPingInterval d c = c\<lparr>pingInterval := d\<rparr>"

definition WithPingTimeout :: "int \<Rightarrow> ServerOption" where
  "WithPingTimeout d c = c\<lparr>pingTimeout := d\<rparr>"

definition WithUpgradeTimeout :: "int \<Rightarrow> ServerOption" where
  "WithUpgradeTimeout d c = c\<lparr>upgradeTimeout := d\<rparr>"

definition WithMaxPayload :: "int \<Rightarrow> ServerOption" where
  "WithMaxPayload n c = c\<lparr>maxPayload := n\<rparr>"

definition WithServerTransports :: "TransportType list \<Rightarrow> ServerOption" where
  "WithServerTransports ts c = c\<lparr>transports := ts\<rparr>"

definition WithAllowUpgrades :: "bool \<Rightarrow> ServerOption" where
  "WithAllowUpgrades b c = c\<lparr>allowUpgrades := b\<rparr>"

definition WithCORS :: "CORSOptions \<Rightarrow> ServerOption" where
  "WithCORS x c = c\<lparr>cors := x\<rparr>"

definition WithGenerateID :: "(Request \<Rightarrow> bytes \<Rightarrow> string) \<Rightarrow> ServerOption" where
  "WithGenerateID g c = c\<lparr>generateID := g\<rparr>"

definition WithAllowRequest :: "(Request \<Rightarrow> error option) \<Rightarrow> ServerOption" where
  "WithAllowRequest a c = c\<lparr>allowRequest := Some a\<rparr>"

definition WithCookie :: "CookieOptions \<Rightarrow> ServerOption" where
  "WithCookie x c =
     (let x = (if co_Name x = '''' then x\<lparr>co_Name := ''io''\<rparr> else x);
          x = (if co_Path x = '''' then x\<lparr>co_Path := ''/''\<rparr> else x);
          x = (if co_SameSite x = SameSiteDefaultMode then x\<lparr>co_SameSite := SameSiteLaxMode\<rparr> else x)
      in c\<lparr>cookie := Some x\<rparr>)"

definition WithHTTPCompression :: "bool \<Rightarrow> ServerOption" where
  "WithHTTPCompression b c = c\<lparr>httpCompression := b\<rparr>"

text \<open>The server argument: nil, or a server whose HTTP/3 server is set or not.\<close>

definition WithWebTransportServer :: "bool option \<Rightarrow> ServerOption result" where
  "WithWebTransportServer wt =
     (if wt = None \<or> wt = Some False
      then Inl (Panic (PanicMessage ''engineio: WithWebTransportServer requires a non-nil *webtransport.Server with its H3 server set''))
      else Inr (\<lambda>c. c\<lparr>webTransportUpgrade := True\<rparr>))"

text \<open>\<open>buffer\<close> are the 18 bytes \<^verbatim>\<open>rand.Read\<close> fills in; it never fails on supported platforms.\<close>

definition generateSessionID :: "Request \<Rightarrow> bytes \<Rightarrow> string" where
  "generateSessionID r buffer = string_of (rawURLEncodeToString buffer)"

definition defaultServerConfig :: serverConfig where
  "defaultServerConfig =
     \<lparr>pingInterval = DefaultPingInterval, pingTimeout = DefaultPingTimeout,
      upgradeTimeout = DefaultUpgradeTimeout, maxPayload = DefaultMaxPayload,
      transports = [TransportTypePolling, TransportTypeWebSocket], allowUpgrades = True,
      cors = \<lparr>AllowCredentials = False, AllowedOrigins = [], AllowedHeaders = []\<rparr>,
      generateID = generateSessionID, allowRequest = None, cookie = None, httpCompression = True,
      webTransportUpgrade = False\<rparr>"

definition allowsTransport :: "serverConfig \<Rightarrow> TransportType \<Rightarrow> bool" where
  "allowsTransport c t \<longleftrightarrow> t \<in> set (transports c)"

section \<open>The open packet\<close>

text \<open>Go's integer division truncates toward zero.\<close>

definition quot :: "int \<Rightarrow> int \<Rightarrow> int" where
  "quot a b = sgn a * (\<bar>a\<bar> div b)"

definition offeredUpgrades :: "serverConfig \<Rightarrow> bool \<Rightarrow> TransportType list" where
  "offeredUpgrades c offerUpgrades =
     (if offerUpgrades \<and> allowUpgrades c
      then filter (\<lambda>t. t = TransportTypeWebSocket \<or> t = TransportTypeWebTransport \<and> webTransportUpgrade c)
             (transports c)
      else [])"

definition buildOpenPacket :: "serverConfig \<Rightarrow> string \<Rightarrow> bool \<Rightarrow> error + Packet" where
  "buildOpenPacket c sid offerUpgrades =
     (case json_Marshal_OpenPacket
         \<lparr>SessionID = sid, Upgrades = offeredUpgrades c offerUpgrades,
          PingInterval = quot (pingInterval c) Millisecond, PingTimeout = quot (pingTimeout c) Millisecond,
          MaxPayload = maxPayload c\<rparr> of
        Inl err \<Rightarrow> Inl (Errorf ''marshalling open packet: %w'' [] [err])
      | Inr data \<Rightarrow> Inr (text_packet PacketOpen data))"

section \<open>Properties\<close>

lemma sextet_less: "v < 65536 \<Longrightarrow> v * 4 div 4096 < (64 :: nat)"
  by (rule less_mult_imp_div_less) simp

lemma b64_encode_chars:
  "length al = 64 \<Longrightarrow> c \<in> set (b64_encode al False bs) \<Longrightarrow> c \<in> set al"
proof (induction al False bs rule: b64_encode.induct)
  case (2 al a)
  have "unat a * 16 div 64 < 64" using unat_byte_less [of a] by (intro less_mult_imp_div_less) simp
  with 2 show ?case by (auto simp: sextets2_def)
next
  case (3 al a b)
  have "unat a * 256 + unat b < 256 * 256" by (rule digit_less) simp_all
  then have "(unat a * 256 + unat b) * 4 div 4096 < 64" by (intro sextet_less) simp
  with 3 show ?case by (auto simp: sextets3_def simp del: add_mult_distrib)
next
  case (4 al a b c rest)
  have "(unat a * 256 + unat b) * 256 + unat c < 256 * 256 * 256"
    by (intro digit_less) simp_all
  then have "(unat a * 65536 + unat b * 256 + unat c) div 262144 < 64"
    by (intro less_mult_imp_div_less) (simp add: add_mult_distrib)
  with 4 show ?case by (auto simp: sextets4_def)
qed simp

lemma b64_encode_length_raw: "length (b64_encode al False bs) = (length bs * 4 + 2) div 3"
  by (induction al False bs rule: b64_encode.induct)
    (simp_all add: sextets2_def sextets3_def sextets4_def)

text \<open>
  The default session identifiers are as unpredictable as the random bytes: 18 bytes give 24
  characters of the URL-safe alphabet, and two identifiers are equal only if their bytes are.
\<close>

theorem generateSessionID_unique:
  assumes "length b1 = 18" and "length b2 = 18"
  shows "length (generateSessionID r b1) = 24 \<and>
    set (bytes_of (generateSessionID r b1)) \<subseteq> set urlAlphabet \<and>
    (generateSessionID r b1 = generateSessionID r' b2 \<longleftrightarrow> b1 = b2)"
proof -
  have "length (generateSessionID r b1) = 24"
    using assms(1) by (simp add: generateSessionID_def rawURLEncodeToString_def string_of_def
        b64_encode_length_raw)
  moreover have "set (bytes_of (generateSessionID r b1)) \<subseteq> set urlAlphabet"
    using b64_encode_chars [OF urlAlphabet(2)]
    by (auto simp: generateSessionID_def rawURLEncodeToString_def)
  moreover have "generateSessionID r b1 = generateSessionID r' b2 \<longleftrightarrow> b1 = b2"
    using rawURLEncodeToString_inj [of b1 b2] string_of_inj assms by (auto simp: generateSessionID_def)
  ultimately show ?thesis by blast
qed

theorem generateSessionID_unique_witness:
  "\<forall>r. length (generateSessionID r (replicate 18 7)) = 24 \<and>
     generateSessionID r (replicate 18 7) \<noteq> generateSessionID r (replicate 18 8)"
  using generateSessionID_unique [of "replicate 18 7" "replicate 18 8"] by simp

text \<open>The open packet holds no separator: its JSON text has no control character.\<close>

lemma json_join_ge:
  "(\<And>v. v \<in> set vs \<Longrightarrow> \<forall>c \<in> set v. 32 \<le> unat c) \<Longrightarrow> c \<in> set (join_on 44 vs) \<Longrightarrow> 32 \<le> unat (c :: byte)"
  by (induction "44 :: byte" vs rule: join_on.induct) auto

lemma json_string_ge: "c \<in> set (json_string s) \<Longrightarrow> 32 \<le> unat c"
  using jsonEscape_ge by (auto simp: json_string_def)

lemma json_int_ge: "c \<in> set (json_int i) \<Longrightarrow> 32 \<le> unat c"
  by (auto simp: json_int_def dest!: decimal_string_chars split: if_splits)

lemma json_array_ge:
  "(\<And>v. v \<in> set vs \<Longrightarrow> \<forall>c \<in> set v. 32 \<le> unat c) \<Longrightarrow> c \<in> set (json_array vs) \<Longrightarrow> 32 \<le> unat c"
  using json_join_ge [of vs c] by (auto simp: json_array_def)

lemma json_object_ge:
  "(\<And>k v. (k, v) \<in> set kvs \<Longrightarrow> \<forall>c \<in> set v. 32 \<le> unat c) \<Longrightarrow> c \<in> set (json_object kvs) \<Longrightarrow> 32 \<le> unat c"
  using json_join_ge [of "map (\<lambda>(k, v). json_string (bytes_of k) @ 58 # v) kvs" c] json_string_ge
  by (fastforce simp: json_object_def)

lemma json_Marshal_OpenPacket_ge:
  assumes "json_Marshal_OpenPacket p = Inr data" and "c \<in> set data"
  shows "32 \<le> unat c"
proof -
  let ?kvs = "[(''sid'', json_string (bytes_of (SessionID p))),
        (''upgrades'', json_array (map (\<lambda>t. json_string (bytes_of t)) (Upgrades p))),
        (''pingInterval'', json_int (PingInterval p)),
        (''pingTimeout'', json_int (PingTimeout p)),
        (''maxPayload'', json_int (MaxPayload p))]"
  have c: "c \<in> set (json_object ?kvs)" using assms by (simp add: json_Marshal_OpenPacket_def)
  have arr: "32 \<le> unat c" if "c \<in> set (json_array (map (\<lambda>t. json_string (bytes_of t)) (Upgrades p)))" for c
    using that by (rule json_array_ge [rotated]) (auto intro: json_string_ge)
  show ?thesis
    using c by (rule json_object_ge [rotated]) (auto intro: json_string_ge json_int_ge arr)
qed

lemma buildOpenPacket_safe:
  assumes "buildOpenPacket cfg sid offer = Inr p"
  shows "Type p = PacketOpen \<and> \<not> IsBinary p \<and> payload_safe p"
proof -
  obtain data where d: "p = text_packet PacketOpen data" and "\<forall>c \<in> set data. 32 \<le> unat c"
    using assms json_Marshal_OpenPacket_ge by (fastforce simp: buildOpenPacket_def split: sum.splits)
  then have "30 \<notin> set data" by fastforce
  with d show ?thesis by (simp add: payload_safe_def wf_packet_def PacketType_valid_def)
qed

lemma buildOpenPacket_Inr: "\<exists>p. buildOpenPacket cfg sid offer = Inr p"
  by (simp add: buildOpenPacket_def json_Marshal_OpenPacket_def)

text \<open>
  A handshake succeeds for every session identifier, also one a custom generator derives from
  request data: building the open packet does not fail, and the body of the handshake response
  decodes to exactly that packet, since marshalled text holds no record separator.
\<close>

theorem handshake_body_decodes:
  "\<exists>p. buildOpenPacket cfg sid offer = Inr p \<and> Type p = PacketOpen \<and>
     DecodePayload 4 (EncodePayload [p]) = Inr [p]"
proof -
  obtain p where p: "buildOpenPacket cfg sid offer = Inr p" using buildOpenPacket_Inr by blast
  then have "DecodePayload 4 (EncodePayload [p]) = Inr [p]"
    using decodeRecordSeparatorPayload_EncodePayload [of "[p]"] buildOpenPacket_safe [OF p]
    by (simp add: DecodePayload_def)
  with p buildOpenPacket_safe [OF p] show ?thesis by blast
qed

lemma offeredUpgrades_served:
  "t \<in> set (offeredUpgrades cfg offer) \<longleftrightarrow>
     offer \<and> allowUpgrades cfg \<and> allowsTransport cfg t \<and>
     (t = TransportTypeWebSocket \<or> t = TransportTypeWebTransport \<and> webTransportUpgrade cfg)"
  by (auto simp: offeredUpgrades_def allowsTransport_def)

text \<open>
  An unset SameSite attribute is not defaulted: the zero value of the type is not the default
  mode \<^verbatim>\<open>WithCookie\<close> tests for, so a cookie configured without it is set without it, whereas the
  default mode becomes Lax.
\<close>

theorem WithCookie_keeps_unset_SameSite:
  "map_option co_SameSite (cookie (WithCookie \<lparr>co_Name = n, co_Path = p, co_HTTPOnly = h, co_Secure = s,
      co_SameSite = ss, co_MaxAge = m\<rparr> cfg)) =
    Some (if ss = SameSiteDefaultMode then SameSiteLaxMode else ss)"
  by (simp add: WithCookie_def Let_def)

end
