(* ===== verification/SessionStore.thy ===== *)
theory SessionStore
  imports Prelude "HOL-Library.AList"
begin

text \<open>
  The map of live sessions (\<^verbatim>\<open>server_session_store.go\<close>). Every method runs under the store's
  lock, so a method is one state transformer. A Go map has no order; the model keeps the entries as
  an association list and states what \<^verbatim>\<open>all\<close> returns up to order. \<^verbatim>\<open>session_map\<close> is the contract
  the server relies on.
\<close>

type_synonym 'v sessionStore = "(string \<times> 'v) list"

definition newSessionStore :: "'v sessionStore" where
  "newSessionStore = []"

definition store_get :: "'v sessionStore \<Rightarrow> string \<Rightarrow> 'v option" where
  "store_get st sid = map_of st sid"

definition store_put :: "string \<Rightarrow> 'v \<Rightarrow> 'v sessionStore \<Rightarrow> 'v sessionStore" where
  "store_put sid socket st = AList.update sid socket st"

definition store_delete :: "string \<Rightarrow> 'v sessionStore \<Rightarrow> 'v sessionStore" where
  "store_delete sid st = AList.delete sid st"

definition store_all :: "'v sessionStore \<Rightarrow> 'v list" where
  "store_all st = map snd st"

definition store_count :: "'v sessionStore \<Rightarrow> nat" where
  "store_count st = length st"

definition wf_store :: "'v sessionStore \<Rightarrow> bool" where
  "wf_store st \<longleftrightarrow> distinct (map fst st)"

section \<open>The contract\<close>

locale session_map =
  fixes empty :: 'm
    and get :: "'m \<Rightarrow> 'k \<Rightarrow> 'v option"
    and put :: "'k \<Rightarrow> 'v \<Rightarrow> 'm \<Rightarrow> 'm"
    and del :: "'k \<Rightarrow> 'm \<Rightarrow> 'm"
    and all :: "'m \<Rightarrow> 'v list"
    and size :: "'m \<Rightarrow> nat"
    and wf :: "'m \<Rightarrow> bool"
  assumes wf_empty: "wf empty"
    and wf_put: "wf m \<Longrightarrow> wf (put k v m)"
    and wf_del: "wf m \<Longrightarrow> wf (del k m)"
    and get_empty: "get empty k = None"
    and get_put: "get (put k v m) k' = (if k' = k then Some v else get m k')"
    and get_del: "get (del k m) k' = (if k' = k then None else get m k')"
    and all_get: "wf m \<Longrightarrow> set (all m) = {v. \<exists>k. get m k = Some v}"
    and size_all: "wf m \<Longrightarrow> size m = length (all m)"
    and size_dom: "wf m \<Longrightarrow> finite {k. get m k \<noteq> None} \<and> size m = card {k. get m k \<noteq> None}"
begin

lemma get_del_put: "get (del k (put k v m)) k' = get (del k m) k'"
  by (simp add: get_put get_del)

lemma size_put: "wf m \<Longrightarrow> size (put k v m) = (if get m k = None then Suc (size m) else size m)"
proof -
  assume wf: "wf m"
  have eq: "{k'. get (put k v m) k' \<noteq> None} = insert k {k'. get m k' \<noteq> None}"
    by (auto simp: get_put)
  show ?thesis
    using size_dom [OF wf] size_dom [OF wf_put [OF wf, of k v]] unfolding eq
    by (auto simp: card_insert_if)
qed

lemma size_del: "wf m \<Longrightarrow> size (del k m) = (if get m k = None then size m else size m - 1)"
proof -
  assume wf: "wf m"
  have eq: "{k'. get (del k m) k' \<noteq> None} = {k'. get m k' \<noteq> None} - {k}"
    by (auto simp: get_del)
  show ?thesis
    using size_dom [OF wf] size_dom [OF wf_del [OF wf, of k]] unfolding eq by auto
qed

lemma all_del: "wf m \<Longrightarrow> v \<in> set (all (del k m)) \<Longrightarrow> v \<in> set (all m)"
  by (auto simp: all_get wf_del get_del split: if_splits)

end

interpretation store: session_map newSessionStore store_get store_put store_delete store_all store_count
  wf_store
proof unfold_locales
  fix st :: "'v sessionStore"
  assume wf: "wf_store st"
  then have d: "distinct (map fst st)" by (simp add: wf_store_def)
  show "set (store_all st) = {v. \<exists>k. store_get st k = Some v}"
    using d by (force simp: store_all_def store_get_def dest: map_of_SomeD)
  have dom: "{k. store_get st k \<noteq> None} = set (map fst st)"
    unfolding store_get_def dom_def [symmetric] by (simp add: dom_map_of_conv_image_fst)
  show "finite {k. store_get st k \<noteq> None} \<and> store_count st = card {k. store_get st k \<noteq> None}"
    unfolding dom using distinct_card [OF d] by (simp add: store_count_def)
qed (auto simp: wf_store_def newSessionStore_def store_get_def store_put_def store_delete_def
    store_all_def store_count_def distinct_update distinct_delete delete_conv' update_conv')

end
