(* ===== verification/ServerSocket.thy ===== *)
theory ServerSocket
  imports ServerTransport ServerOptions SessionStore
begin

text \<open>
  A server session (\<^verbatim>\<open>server_socket.go\<close>). The world holds what the sessions of one server share:
  the store, the heaps of sockets and transports, the payloads delivered to held polls, the timer
  callbacks that have fired and not run yet, the goroutines that flush noops, and the trace of the
  handlers invoked. Each method is one definition; its sections under the session's lock are
  separate definitions where the source has them separate. A method runs to its end here; the
  interleavings of \<^verbatim>\<open>flush\<close> with the other sections are in \<^verbatim>\<open>FlushInterleaving\<close>. A registered
  handler is represented by its being set: invoking it is an event of the trace.
\<close>

datatype sessionState = sessionOpening | sessionOpen | sessionClosing | sessionClosed

text \<open>A timer is armed until it fires; stopping a timer that has fired has no effect.\<close>

datatype timer = Armed | Fired

record ServerSocket =
  socket_id :: string
  options :: serverConfig
  state :: sessionState
  transport :: "tref option"
  upgradeTransport :: "tref option"
  upgrading :: bool
  writeBuffer :: "Packet list"
  pingTimer :: "timer option"
  pongTimer :: "timer option"
  upgradeTimer :: "(timer \<times> tref) option"
  closeTimer :: "timer option"
  probeNoopStop :: "nat option"
  onMessageHandler :: bool
  onCloseHandler :: bool

datatype serverTransport =
    PollingT serverPollingTransport
  | WebSocketT serverWebSocketTransport
  | WebTransportT serverWebTransportTransport

datatype callback = RunSendPing | RunPingTimeout | RunAbortUpgrade tref | RunForcedClose

datatype event =
    Connected sref
  | Message sref bytes bool
  | Closed sref string "error option"
  | ConnectionError Request int "error option"

record world =
  sessions :: "sref sessionStore"
  sockets :: "sref \<Rightarrow> ServerSocket"
  heap :: "tref \<Rightarrow> serverTransport"
  deliveries :: deliveries
  closedStops :: "nat list"
  noopLoops :: "(sref \<times> nat) list"
  due :: "(sref \<times> callback) list"
  trace :: "event list"
  nextRef :: nat
  panicked :: bool

definition newServerSocket :: "string \<Rightarrow> serverConfig \<Rightarrow> tref \<Rightarrow> ServerSocket" where
  "newServerSocket sid cfg tr =
     \<lparr>socket_id = sid, options = cfg, state = sessionOpening, transport = Some tr,
      upgradeTransport = None, upgrading = False, writeBuffer = [], pingTimer = None,
      pongTimer = None, upgradeTimer = None, closeTimer = None, probeNoopStop = None,
      onMessageHandler = False, onCloseHandler = False\<rparr>"

definition upd_socket :: "sref \<Rightarrow> (ServerSocket \<Rightarrow> ServerSocket) \<Rightarrow> world \<Rightarrow> world" where
  "upd_socket s f w = w\<lparr>sockets := (sockets w)(s := f (sockets w s))\<rparr>"

definition upd_heap :: "tref \<Rightarrow> serverTransport \<Rightarrow> world \<Rightarrow> world" where
  "upd_heap tr t w = w\<lparr>heap := (heap w)(tr := t)\<rparr>"

section \<open>Calling a transport\<close>

definition transportType :: "serverTransport \<Rightarrow> TransportType" where
  "transportType t =
     (case t of
        PollingT _ \<Rightarrow> TransportTypePolling
      | WebSocketT _ \<Rightarrow> TransportTypeWebSocket
      | WebTransportT _ \<Rightarrow> TransportTypeWebTransport)"

definition transport_send ::
  "network \<Rightarrow> tref \<Rightarrow> Packet list \<Rightarrow> world \<Rightarrow> (bool \<times> error option) \<times> world" where
  "transport_send N tr packets w =
     (case heap w tr of
        PollingT t \<Rightarrow>
          (case polling_send (t, deliveries w) packets of
             (r, t', log) \<Rightarrow> (r, upd_heap tr (PollingT t') (w\<lparr>deliveries := log\<rparr>)))
      | WebSocketT t \<Rightarrow>
          (case websocket_send (ws_Write N tr) t packets of
             (r, t') \<Rightarrow> (r, upd_heap tr (WebSocketT t') w))
      | WebTransportT t \<Rightarrow>
          (case webtransport_send (stream_SetWriteDeadline N tr) (stream_Write N tr) t packets of
             (r, t') \<Rightarrow> (r, upd_heap tr (WebTransportT t') w)))"

definition transport_close :: "tref \<Rightarrow> world \<Rightarrow> world" where
  "transport_close tr w =
     (case heap w tr of
        PollingT t \<Rightarrow>
          (case polling_close (t, deliveries w) of
             (t', log) \<Rightarrow> upd_heap tr (PollingT t') (w\<lparr>deliveries := log\<rparr>))
      | WebSocketT t \<Rightarrow> upd_heap tr (WebSocketT (websocket_close t)) w
      | WebTransportT t \<Rightarrow> upd_heap tr (WebTransportT (webtransport_close t)) w)"

definition transport_promote :: "tref \<Rightarrow> world \<Rightarrow> world" where
  "transport_promote tr w =
     (case heap w tr of
        PollingT t \<Rightarrow> w
      | WebSocketT t \<Rightarrow> upd_heap tr (WebSocketT (websocket_promote t)) w
      | WebTransportT t \<Rightarrow> upd_heap tr (WebTransportT (webtransport_promote t)) w)"

text \<open>Closing a closed channel is a run-time panic.\<close>

definition close_stop :: "nat option \<Rightarrow> world \<Rightarrow> world" where
  "close_stop c w =
     (case c of
        None \<Rightarrow> w
      | Some ch \<Rightarrow>
          if ch \<in> set (closedStops w) then w\<lparr>panicked := True\<rparr>
          else w\<lparr>closedStops := ch # closedStops w\<rparr>)"

section \<open>Handlers and small accessors\<close>

definition activePollingTransport :: "sref \<Rightarrow> world \<Rightarrow> tref option" where
  "activePollingTransport s w =
     (case transport (sockets w s) of
        None \<Rightarrow> None
      | Some tr \<Rightarrow> (case heap w tr of PollingT _ \<Rightarrow> Some tr | _ \<Rightarrow> None))"

definition OnMessage :: "sref \<Rightarrow> bool \<Rightarrow> world \<Rightarrow> world" where
  "OnMessage s handler w = upd_socket s (\<lambda>sk. sk\<lparr>onMessageHandler := handler\<rparr>) w"

definition OnClose :: "sref \<Rightarrow> bool \<Rightarrow> world \<Rightarrow> world" where
  "OnClose s handler w = upd_socket s (\<lambda>sk. sk\<lparr>onCloseHandler := handler\<rparr>) w"

definition deliverMessage :: "sref \<Rightarrow> bytes \<Rightarrow> bool \<Rightarrow> world \<Rightarrow> world" where
  "deliverMessage s data isBinary w =
     (if onMessageHandler (sockets w s) then w\<lparr>trace := trace w @ [Message s data isBinary]\<rparr> else w)"

section \<open>Closing\<close>

definition stopTimersLocked :: "ServerSocket \<Rightarrow> ServerSocket" where
  "stopTimersLocked sk =
     sk\<lparr>pingTimer := None, pongTimer := None, upgradeTimer := None, closeTimer := None\<rparr>"

text \<open>The snapshot of the resources to release and the socket after the claim.\<close>

definition beginTeardown ::
  "ServerSocket \<Rightarrow> (tref option \<times> tref option \<times> nat option \<times> bool \<times> ServerSocket) option" where
  "beginTeardown sk =
     (if state sk = sessionClosed then None
      else Some (transport sk, upgradeTransport sk, probeNoopStop sk, onCloseHandler sk,
             (stopTimersLocked (sk\<lparr>state := sessionClosed\<rparr>))
               \<lparr>transport := None, upgradeTransport := None, upgrading := False, probeNoopStop := None,
                writeBuffer := []\<rparr>))"

definition close_opt :: "tref option \<Rightarrow> world \<Rightarrow> world" where
  "close_opt tr w = (case tr of None \<Rightarrow> w | Some tr \<Rightarrow> transport_close tr w)"

definition closeWithReason :: "sref \<Rightarrow> string \<Rightarrow> error option \<Rightarrow> world \<Rightarrow> world" where
  "closeWithReason s reason cause w =
     (case beginTeardown (sockets w s) of
        None \<Rightarrow> w
      | Some (tr, upgrade, stop, handler, sk) \<Rightarrow>
          (let w = upd_socket s (\<lambda>_. sk) w;
               w = close_stop stop w;
               w = close_opt tr w;
               w = close_opt upgrade w;
               w = w\<lparr>sessions := store_delete (socket_id sk) (sessions w)\<rparr>
           in if handler then w\<lparr>trace := trace w @ [Closed s reason cause]\<rparr> else w))"

section \<open>Flushing\<close>

definition flush_snapshot :: "ServerSocket \<Rightarrow> (Packet list \<times> tref) option" where
  "flush_snapshot sk =
     (if state sk = sessionClosed \<or> transport sk = None \<or> writeBuffer sk = [] then None
      else Some (writeBuffer sk, the (transport sk)))"

definition flush_drop :: "nat \<Rightarrow> ServerSocket \<Rightarrow> ServerSocket" where
  "flush_drop count sk =
     sk\<lparr>writeBuffer :=
          (if count \<le> length (writeBuffer sk) then drop count (writeBuffer sk) else [])\<rparr>"

text \<open>One iteration of the loop, and whether the loop goes on.\<close>

definition flush_iteration :: "network \<Rightarrow> sref \<Rightarrow> world \<Rightarrow> bool \<times> world" where
  "flush_iteration N s w =
     (case flush_snapshot (sockets w s) of
        None \<Rightarrow> (False, w)
      | Some (packets, tr) \<Rightarrow>
          (case transport_send N tr packets w of
             ((sent, Some err), w') \<Rightarrow> (False, closeWithReason s ''transport error'' (Some err) w')
           | ((False, None), w') \<Rightarrow> (False, w')
           | ((True, None), w') \<Rightarrow>
               (let w' = upd_socket s (flush_drop (length packets)) w';
                    drained = (writeBuffer (sockets w' s) = []);
                    closing = (state (sockets w' s) = sessionClosing);
                    closed = (state (sockets w' s) = sessionClosed)
                in if drained \<and> closing then (False, closeWithReason s ''forced close'' None w')
                   else if drained \<or> closed then (False, w')
                   else (True, w'))))"

lemma transport_send_sockets: "sockets (snd (transport_send N tr packets w)) = sockets w"
  by (simp add: transport_send_def upd_heap_def split: serverTransport.splits prod.splits)

lemma flush_iteration_shrinks:
  assumes "flush_iteration N s w = (True, w')"
  shows "length (writeBuffer (sockets w' s)) < length (writeBuffer (sockets w s))"
proof -
  obtain packets tr where snap: "flush_snapshot (sockets w s) = Some (packets, tr)"
    using assms by (auto simp: flush_iteration_def split: option.splits)
  obtain w1 where send: "transport_send N tr packets w = ((True, None), w1)"
    and w': "w' = upd_socket s (flush_drop (length packets)) w1"
    using assms snap
    by (auto simp: flush_iteration_def Let_def split: prod.splits option.splits bool.splits if_splits)
  have "sockets w1 = sockets w"
    using transport_send_sockets [of N tr packets w] send by simp
  with snap w' show ?thesis
    by (auto simp: flush_snapshot_def flush_drop_def upd_socket_def split: if_splits)
qed

function flush :: "network \<Rightarrow> sref \<Rightarrow> world \<Rightarrow> world" where
  "flush N s w = (case flush_iteration N s w of (True, w') \<Rightarrow> flush N s w' | (False, w') \<Rightarrow> w')"
  by pat_completeness auto
termination
  by (relation "measure (\<lambda>(N, s, w). length (writeBuffer (sockets w s)))")
    (simp_all add: flush_iteration_shrinks)

declare flush.simps [simp del]

section \<open>Sending and closing\<close>

definition Send :: "network \<Rightarrow> sref \<Rightarrow> bytes \<Rightarrow> bool \<Rightarrow> world \<Rightarrow> error option \<times> world" where
  "Send N s data isBinary w =
     (if state (sockets w s) = sessionClosed \<or> state (sockets w s) = sessionClosing
      then (Some ErrSocketClosed, w)
      else (None, flush N s (upd_socket s (\<lambda>sk. sk\<lparr>writeBuffer := writeBuffer sk @
              [\<lparr>Type = PacketMessage, Data = data, IsBinary = isBinary\<rparr>]\<rparr>) w)))"

definition beginClose :: "ServerSocket \<Rightarrow> ServerSocket option" where
  "beginClose sk =
     (if state sk \<noteq> sessionOpening \<and> state sk \<noteq> sessionOpen then None
      else (let sk = stopTimersLocked (sk\<lparr>state := sessionClosing\<rparr>)
            in Some (sk\<lparr>writeBuffer := writeBuffer sk @ [text_packet PacketClose []]\<rparr>)))"

definition ServerSocket_Close :: "network \<Rightarrow> sref \<Rightarrow> world \<Rightarrow> world" where
  "ServerSocket_Close N s w =
     (case beginClose (sockets w s) of
        None \<Rightarrow> w
      | Some sk \<Rightarrow>
          (let w = flush N s (upd_socket s (\<lambda>_. sk) w)
           in if state (sockets w s) = sessionClosing \<and> closeTimer (sockets w s) = None
              then upd_socket s (\<lambda>sk. sk\<lparr>closeTimer := Some Armed\<rparr>) w
              else w))"

section \<open>Opening and heartbeat\<close>

definition armPingLocked :: "ServerSocket \<Rightarrow> ServerSocket" where
  "armPingLocked sk = sk\<lparr>pingTimer := Some Armed\<rparr>"

definition ServerSocket_open :: "sref \<Rightarrow> world \<Rightarrow> world" where
  "ServerSocket_open s w =
     (if state (sockets w s) \<noteq> sessionOpening then w
      else upd_socket s (\<lambda>sk. armPingLocked (sk\<lparr>state := sessionOpen\<rparr>)) w)"

definition onPong :: "sref \<Rightarrow> world \<Rightarrow> world" where
  "onPong s w =
     (if state (sockets w s) \<noteq> sessionOpen then w
      else upd_socket s (\<lambda>sk. armPingLocked (sk\<lparr>pongTimer := None\<rparr>)) w)"

definition sendPing :: "network \<Rightarrow> sref \<Rightarrow> world \<Rightarrow> world" where
  "sendPing N s w =
     (if state (sockets w s) \<noteq> sessionOpen then w
      else flush N s (upd_socket s
             (\<lambda>sk. sk\<lparr>writeBuffer := writeBuffer sk @ [text_packet PacketPing []],
                     pongTimer := Some Armed\<rparr>) w))"

definition handlePacket :: "sref \<Rightarrow> Packet \<Rightarrow> world \<Rightarrow> world" where
  "handlePacket s p w =
     (if Type p = PacketPong then onPong s w
      else if Type p = PacketMessage then deliverMessage s (Data p) (IsBinary p) w
      else if Type p = PacketClose then closeWithReason s ''transport close'' None w
      else w)"

section \<open>Upgrading\<close>

definition startUpgrade :: "sref \<Rightarrow> tref \<Rightarrow> world \<Rightarrow> bool \<times> world" where
  "startUpgrade s tr w =
     (let sk = sockets w s
      in if state sk \<noteq> sessionOpen \<or> upgrading sk \<or> transport sk = None \<or>
            transportType (heap w (the (transport sk))) \<noteq> TransportTypePolling
         then (False, w)
         else (True, upd_socket s (\<lambda>sk. sk\<lparr>upgrading := True, upgradeTransport := Some tr,
                  upgradeTimer := Some (Armed, tr)\<rparr>) w))"

definition onProbe :: "sref \<Rightarrow> world \<Rightarrow> world" where
  "onProbe s w =
     (if \<not> upgrading (sockets w s) \<or> probeNoopStop (sockets w s) \<noteq> None then w
      else (let stop = nextRef w
            in (upd_socket s (\<lambda>sk. sk\<lparr>probeNoopStop := Some stop\<rparr>) w)
                 \<lparr>noopLoops := noopLoops w @ [(s, stop)], nextRef := Suc stop\<rparr>))"

definition flushProbeNoop :: "sref \<Rightarrow> world \<Rightarrow> world" where
  "flushProbeNoop s w =
     (case activePollingTransport s w of
        None \<Rightarrow> w
      | Some tr \<Rightarrow>
          (case heap w tr of
             PollingT t \<Rightarrow>
               (case polling_writeNoop (t, deliveries w) of
                  (t', log) \<Rightarrow> upd_heap tr (PollingT t') (w\<lparr>deliveries := log\<rparr>))
           | _ \<Rightarrow> w))"

definition beginCompleteUpgrade ::
  "ServerSocket \<Rightarrow> tref \<Rightarrow> (tref option \<times> nat option \<times> ServerSocket) option" where
  "beginCompleteUpgrade sk tr =
     (if \<not> upgrading sk \<or> upgradeTransport sk \<noteq> Some tr then None
      else Some (transport sk, probeNoopStop sk,
             sk\<lparr>upgrading := False, transport := Some tr, upgradeTransport := None,
                upgradeTimer := None, probeNoopStop := None\<rparr>))"

definition completeUpgrade :: "network \<Rightarrow> sref \<Rightarrow> tref \<Rightarrow> world \<Rightarrow> world" where
  "completeUpgrade N s tr w =
     (case beginCompleteUpgrade (sockets w s) tr of
        None \<Rightarrow> w
      | Some (old, stop, sk) \<Rightarrow>
          (let w = upd_socket s (\<lambda>_. sk) w;
               w = transport_promote tr w;
               w = close_stop stop w;
               w = close_opt old w
           in flush N s w))"

definition beginAbortUpgrade :: "ServerSocket \<Rightarrow> tref \<Rightarrow> (nat option \<times> ServerSocket) option" where
  "beginAbortUpgrade sk tr =
     (if \<not> upgrading sk \<or> upgradeTransport sk \<noteq> Some tr then None
      else Some (probeNoopStop sk,
             sk\<lparr>upgrading := False, upgradeTransport := None, upgradeTimer := None,
                probeNoopStop := None\<rparr>))"

definition abortUpgrade :: "sref \<Rightarrow> tref \<Rightarrow> world \<Rightarrow> world" where
  "abortUpgrade s tr w =
     (case beginAbortUpgrade (sockets w s) tr of
        None \<Rightarrow> w
      | Some (stop, sk) \<Rightarrow> transport_close tr (close_stop stop (upd_socket s (\<lambda>_. sk) w)))"

section \<open>Timers\<close>

text \<open>A timer fires: its callback is started, and runs at some later point.\<close>

definition fireTimers :: "sref \<Rightarrow> callback \<Rightarrow> world \<Rightarrow> world option" where
  "fireTimers s cb w =
     (let sk = sockets w s; start = (\<lambda>sk. (upd_socket s (\<lambda>_. sk) w)\<lparr>due := due w @ [(s, cb)]\<rparr>)
      in case cb of
           RunSendPing \<Rightarrow>
             if pingTimer sk = Some Armed then Some (start (sk\<lparr>pingTimer := Some Fired\<rparr>)) else None
         | RunPingTimeout \<Rightarrow>
             if pongTimer sk = Some Armed then Some (start (sk\<lparr>pongTimer := Some Fired\<rparr>)) else None
         | RunAbortUpgrade tr \<Rightarrow>
             if upgradeTimer sk = Some (Armed, tr)
             then Some (start (sk\<lparr>upgradeTimer := Some (Fired, tr)\<rparr>)) else None
         | RunForcedClose \<Rightarrow>
             if closeTimer sk = Some Armed then Some (start (sk\<lparr>closeTimer := Some Fired\<rparr>)) else None)"

definition runCallback :: "network \<Rightarrow> sref \<times> callback \<Rightarrow> world \<Rightarrow> world" where
  "runCallback N c w =
     (case c of
        (s, RunSendPing) \<Rightarrow> sendPing N s w
      | (s, RunPingTimeout) \<Rightarrow> closeWithReason s ''ping timeout'' None w
      | (s, RunAbortUpgrade tr) \<Rightarrow> abortUpgrade s tr w
      | (s, RunForcedClose) \<Rightarrow> closeWithReason s ''forced close'' None w)"

section \<open>What the operations leave alone\<close>

lemma upd_socket_simps [session_simps, simp]:
  "sockets (upd_socket s f w) = (sockets w)(s := f (sockets w s))"
  "heap (upd_socket s f w) = heap w" "deliveries (upd_socket s f w) = deliveries w"
  "sessions (upd_socket s f w) = sessions w" "closedStops (upd_socket s f w) = closedStops w"
  "noopLoops (upd_socket s f w) = noopLoops w" "due (upd_socket s f w) = due w"
  "trace (upd_socket s f w) = trace w" "nextRef (upd_socket s f w) = nextRef w"
  "panicked (upd_socket s f w) = panicked w"
  by (simp_all add: upd_socket_def)

lemma upd_heap_simps [session_simps, simp]:
  "sockets (upd_heap tr t w) = sockets w" "heap (upd_heap tr t w) = (heap w)(tr := t)"
  "deliveries (upd_heap tr t w) = deliveries w"
  "sessions (upd_heap tr t w) = sessions w" "closedStops (upd_heap tr t w) = closedStops w"
  "noopLoops (upd_heap tr t w) = noopLoops w" "due (upd_heap tr t w) = due w"
  "trace (upd_heap tr t w) = trace w" "nextRef (upd_heap tr t w) = nextRef w"
  "panicked (upd_heap tr t w) = panicked w"
  by (simp_all add: upd_heap_def)

text \<open>Everything but the transports and what was delivered to polls.\<close>

definition same_session :: "world \<Rightarrow> world \<Rightarrow> bool" where
  "same_session w w' \<longleftrightarrow>
     sockets w' = sockets w \<and> sessions w' = sessions w \<and> closedStops w' = closedStops w \<and>
     noopLoops w' = noopLoops w \<and> due w' = due w \<and> trace w' = trace w \<and> nextRef w' = nextRef w \<and>
     panicked w' = panicked w"

lemma same_session_refl [simp]: "same_session w w"
  by (simp add: same_session_def)

lemma transport_send_same: "same_session w (snd (transport_send N tr ps w))"
  by (simp add: transport_send_def same_session_def split: serverTransport.splits prod.splits)

lemma transport_close_same: "same_session w (transport_close tr w)"
  by (simp add: transport_close_def same_session_def split: serverTransport.splits prod.splits)

lemma close_opt_same: "same_session w (close_opt tr w)"
  by (simp add: close_opt_def transport_close_same split: option.splits)

lemma transport_promote_same: "same_session w (transport_promote tr w)"
  by (simp add: transport_promote_def same_session_def split: serverTransport.splits)

lemma close_opt_simps [session_simps, simp]:
  "sockets (close_opt tr w) = sockets w" "sessions (close_opt tr w) = sessions w"
  "closedStops (close_opt tr w) = closedStops w" "noopLoops (close_opt tr w) = noopLoops w"
  "due (close_opt tr w) = due w" "trace (close_opt tr w) = trace w"
  "nextRef (close_opt tr w) = nextRef w" "panicked (close_opt tr w) = panicked w"
  using close_opt_same [of w tr] by (simp_all add: same_session_def)

lemma close_stop_simps [session_simps, simp]:
  "sockets (close_stop c w) = sockets w" "heap (close_stop c w) = heap w"
  "sessions (close_stop c w) = sessions w" "deliveries (close_stop c w) = deliveries w"
  "noopLoops (close_stop c w) = noopLoops w"
  "due (close_stop c w) = due w" "trace (close_stop c w) = trace w"
  "nextRef (close_stop c w) = nextRef w"
  by (simp_all add: close_stop_def split: option.splits)

section \<open>Teardown\<close>

definition torn_down :: "ServerSocket \<Rightarrow> ServerSocket" where
  "torn_down sk =
     sk\<lparr>state := sessionClosed, transport := None, upgradeTransport := None, upgrading := False,
        writeBuffer := [], pingTimer := None, pongTimer := None, upgradeTimer := None,
        closeTimer := None, probeNoopStop := None\<rparr>"

lemma beginTeardown_eq:
  "beginTeardown sk =
     (if state sk = sessionClosed then None
      else Some (transport sk, upgradeTransport sk, probeNoopStop sk, onCloseHandler sk, torn_down sk))"
  by (simp add: beginTeardown_def torn_down_def stopTimersLocked_def)

lemma torn_down_simps [session_simps, simp]:
  "state (torn_down sk) = sessionClosed" "transport (torn_down sk) = None"
  "writeBuffer (torn_down sk) = []" "socket_id (torn_down sk) = socket_id sk"
  "upgrading (torn_down sk) = False" "upgradeTransport (torn_down sk) = None"
  "probeNoopStop (torn_down sk) = None" "options (torn_down sk) = options sk"
  "onCloseHandler (torn_down sk) = onCloseHandler sk"
  by (simp_all add: torn_down_def)

lemma closeWithReason_closed:
  "state (sockets w s) = sessionClosed \<Longrightarrow> closeWithReason s reason cause w = w"
  by (simp add: closeWithReason_def beginTeardown_eq)

lemma closeWithReason_live:
  "state (sockets w s) \<noteq> sessionClosed \<Longrightarrow>
     closeWithReason s reason cause w =
       (let sk = sockets w s;
            w' = close_opt (upgradeTransport sk) (close_opt (transport sk)
                   (close_stop (probeNoopStop sk) (upd_socket s torn_down w)))
        in w'\<lparr>sessions := store_delete (socket_id sk) (sessions w'),
              trace := trace w' @ (if onCloseHandler sk then [Closed s reason cause] else [])\<rparr>)"
  by (simp add: closeWithReason_def beginTeardown_eq Let_def upd_socket_def)

lemma closeWithReason_sockets:
  "sockets (closeWithReason s reason cause w) =
     (if state (sockets w s) = sessionClosed then sockets w
      else (sockets w)(s := torn_down (sockets w s)))"
  by (simp add: closeWithReason_closed closeWithReason_live Let_def)

lemma closeWithReason_state [simp]:
  "state (sockets (closeWithReason s reason cause w) s) = sessionClosed"
  by (simp add: closeWithReason_sockets)

lemma closeWithReason_idem:
  "closeWithReason s reason' cause' (closeWithReason s reason cause w) = closeWithReason s reason cause w"
  by (rule closeWithReason_closed) simp

section \<open>Flushing hands the buffer over at once\<close>

lemma transport_send_simps [session_simps]:
  "transport_send N tr ps w = (r, w') \<Longrightarrow> sockets w' = sockets w"
  using transport_send_same [of w N tr ps] by (simp add: same_session_def)

text \<open>Nothing else touches the session while this model's flush runs, so one iteration does it.\<close>

lemma flush_once:
  "flush N s w =
     (case flush_snapshot (sockets w s) of
        None \<Rightarrow> w
      | Some (packets, tr) \<Rightarrow>
          (case transport_send N tr packets w of
             ((sent, Some err), w') \<Rightarrow> closeWithReason s ''transport error'' (Some err) w'
           | ((False, None), w') \<Rightarrow> w'
           | ((True, None), w') \<Rightarrow>
               (let w' = upd_socket s (\<lambda>sk. sk\<lparr>writeBuffer := []\<rparr>) w'
                in if state (sockets w' s) = sessionClosing
                   then closeWithReason s ''forced close'' None w' else w')))"
proof (cases "flush_snapshot (sockets w s)")
  case None
  then show ?thesis by (subst flush.simps) (simp add: flush_iteration_def)
next
  case (Some pt)
  then obtain tr where pt: "pt = (writeBuffer (sockets w s), tr)"
    by (auto simp: flush_snapshot_def split: if_splits)
  have drop: "upd_socket s (flush_drop (length (writeBuffer (sockets w s)))) w' =
      upd_socket s (\<lambda>sk. sk\<lparr>writeBuffer := []\<rparr>) w'" if "sockets w' = sockets w" for w'
    using that by (simp add: upd_socket_def flush_drop_def)
  obtain sent err w' where send: "transport_send N tr (writeBuffer (sockets w s)) w = ((sent, err), w')"
    by (metis prod.exhaust)
  show ?thesis
    using Some pt send drop [OF transport_send_simps(1) [OF send]]
    by (subst flush.simps) (auto simp: flush_iteration_def Let_def split: option.splits bool.splits)
qed

lemma upd_socket_upd_socket [simp]: "upd_socket s f (upd_socket s g w) = upd_socket s (f \<circ> g) w"
  by (simp add: upd_socket_def)

lemma torn_down_buffer [simp]: "torn_down (sk\<lparr>writeBuffer := b\<rparr>) = torn_down sk"
  by (simp add: torn_down_def)

lemma closeWithReason_upd_buffer:
  "closeWithReason s reason cause (upd_socket s (\<lambda>sk. sk\<lparr>writeBuffer := b\<rparr>) w) =
     (if state (sockets w s) = sessionClosed then upd_socket s (\<lambda>sk. sk\<lparr>writeBuffer := b\<rparr>) w
      else closeWithReason s reason cause w)"
  by (simp add: closeWithReason_closed closeWithReason_live Let_def comp_def)

text \<open>Whatever sending, emptying the buffer of a live session and closing preserve, flushing preserves.\<close>

lemma flush_rule:
  assumes "P w"
    and send: "\<And>tr ps r w'. transport (sockets w s) = Some tr \<Longrightarrow> ps = writeBuffer (sockets w s) \<Longrightarrow>
      transport_send N tr ps w = (r, w') \<Longrightarrow> P w'"
    and clear: "\<And>w. P w \<Longrightarrow> state (sockets w s) \<in> {sessionOpening, sessionOpen} \<Longrightarrow>
      P (upd_socket s (\<lambda>sk. sk\<lparr>writeBuffer := []\<rparr>) w)"
    and close: "\<And>w reason cause. P w \<Longrightarrow> P (closeWithReason s reason cause w)"
  shows "P (flush N s w)"
proof (cases "flush_snapshot (sockets w s)")
  case None
  with assms(1) show ?thesis by (simp add: flush_once)
next
  case (Some pt)
  then obtain tr where pt: "pt = (writeBuffer (sockets w s), tr)" and tr: "transport (sockets w s) = Some tr"
    and live: "state (sockets w s) \<noteq> sessionClosed"
    by (auto simp: flush_snapshot_def split: if_splits)
  obtain sent err w' where snd: "transport_send N tr (writeBuffer (sockets w s)) w = ((sent, err), w')"
    by (metis prod.exhaust)
  have P: "P w'" using send [OF tr refl snd] .
  have sock: "sockets w' = sockets w" using transport_send_simps(1) [OF snd] .
  have unfold: "flush N s w = (case (sent, err) of
      (_, Some err) \<Rightarrow> closeWithReason s ''transport error'' (Some err) w'
    | (False, None) \<Rightarrow> w'
    | (True, None) \<Rightarrow>
        if state (sockets w s) = sessionClosing then closeWithReason s ''forced close'' None w'
        else upd_socket s (\<lambda>sk. sk\<lparr>writeBuffer := []\<rparr>) w')"
    using Some pt snd sock by (simp add: flush_once Let_def closeWithReason_upd_buffer
        split: option.splits bool.splits)
  have "state (sockets w s) = sessionClosing \<or> state (sockets w' s) \<in> {sessionOpening, sessionOpen}"
    using live sock by (cases "state (sockets w s)") simp_all
  with P clear [OF P] close [OF P] show ?thesis
    unfolding unfold by (cases err; cases sent) auto
qed

end
