(* ===== verification/ServerReadLoop.thy ===== *)
theory ServerReadLoop
  imports ServerSocket
begin

text \<open>
  The read loops of the server's websocket and webtransport transports
  (\<^verbatim>\<open>server_transport_websocket.go\<close>, \<^verbatim>\<open>server_transport_webtransport.go\<close>) and the upgrade handshake a
  probing transport drives. One iteration of a loop is a definition of its own, which also says
  whether the loop goes on. A websocket loop is driven by the results of \<^verbatim>\<open>ws.Read\<close>; a webtransport
  loop reads from the stream its transport holds.
\<close>

definition isProbing :: "tref \<Rightarrow> world \<Rightarrow> bool" where
  "isProbing tr w =
     (case heap w tr of
        PollingT _ \<Rightarrow> False
      | WebSocketT t \<Rightarrow> ws_probing t
      | WebTransportT t \<Rightarrow> wt_probing t)"

definition probe_ping :: "Packet \<Rightarrow> bool" where
  "probe_ping packet \<longleftrightarrow> Type packet = PacketPing \<and> Data packet = bytes_of ''probe''"

section \<open>WebSocket\<close>

definition websocket_handleProbePacket ::
  "network \<Rightarrow> tref \<Rightarrow> serverWebSocketTransport \<Rightarrow> Packet \<Rightarrow> world \<Rightarrow> world" where
  "websocket_handleProbePacket N tr t packet w =
     (if probe_ping packet then
        (case websocket_writeProbePong (ws_Write N tr) t of
           (Some err, t') \<Rightarrow> abortUpgrade (ws_socket t) tr (upd_heap tr (WebSocketT t') w)
         | (None, t') \<Rightarrow> onProbe (ws_socket t) (upd_heap tr (WebSocketT t') w))
      else if Type packet = PacketUpgrade then completeUpgrade N (ws_socket t) tr w
      else w)"

text \<open>The iteration for a read that failed, and for a frame.\<close>

definition websocket_readFailed ::
  "tref \<Rightarrow> serverWebSocketTransport \<Rightarrow> error \<Rightarrow> world \<Rightarrow> world" where
  "websocket_readFailed tr t err w =
     (if ws_closed t then w
      else if ws_probing t then abortUpgrade (ws_socket t) tr w
      else closeWithReason (ws_socket t) ''transport close'' (Some err) w)"

definition websocket_readStep ::
  "network \<Rightarrow> tref \<Rightarrow> serverWebSocketTransport \<Rightarrow> error + frame \<Rightarrow> world \<Rightarrow> bool \<times> world" where
  "websocket_readStep N tr t input w =
     (case input of
        Inl err \<Rightarrow> (False, websocket_readFailed tr t err w)
      | Inr (messageType, frame) \<Rightarrow>
          (case decodeWebSocketFrame messageType frame of
             Inl err \<Rightarrow>
               (False, if ws_probing t then abortUpgrade (ws_socket t) tr w
                       else closeWithReason (ws_socket t) ''parse error'' (Some err) w)
           | Inr packet \<Rightarrow>
               (True, if ws_probing t then websocket_handleProbePacket N tr t packet w
                      else handlePacket (ws_socket t) packet w)))"

definition websocket_done :: "tref \<Rightarrow> world \<Rightarrow> world" where
  "websocket_done tr w =
     (case heap w tr of
        WebSocketT t \<Rightarrow> upd_heap tr (WebSocketT (t\<lparr>ws_done := True\<rparr>)) w
      | _ \<Rightarrow> w)"

text \<open>The loop over what the connection gives; it is left waiting in a read when that runs out.\<close>

fun websocket_readLoop :: "network \<Rightarrow> tref \<Rightarrow> (error + frame) list \<Rightarrow> world \<Rightarrow> world" where
  "websocket_readLoop N tr [] w = w"
| "websocket_readLoop N tr (input # inputs) w =
     (case heap w tr of
        WebSocketT t \<Rightarrow>
          (case websocket_readStep N tr t input w of
             (True, w') \<Rightarrow> websocket_readLoop N tr inputs w'
           | (False, w') \<Rightarrow> websocket_done tr w')
      | _ \<Rightarrow> w)"

section \<open>WebTransport\<close>

definition webtransport_handleProbePacket ::
  "network \<Rightarrow> tref \<Rightarrow> serverWebTransportTransport \<Rightarrow> Packet \<Rightarrow> world \<Rightarrow> world" where
  "webtransport_handleProbePacket N tr t packet w =
     (if probe_ping packet then
        (case webtransport_writeProbePong (stream_SetWriteDeadline N tr) (stream_Write N tr) t of
           (Some err, t') \<Rightarrow> abortUpgrade (wt_socket t) tr (upd_heap tr (WebTransportT t') w)
         | (None, t') \<Rightarrow> onProbe (wt_socket t) (upd_heap tr (WebTransportT t') w))
      else if Type packet = PacketUpgrade then completeUpgrade N (wt_socket t) tr w
      else w)"

definition webtransport_readFailed ::
  "tref \<Rightarrow> serverWebTransportTransport \<Rightarrow> error \<Rightarrow> world \<Rightarrow> world" where
  "webtransport_readFailed tr t err w =
     (if wt_closed t then w
      else if wt_probing t then abortUpgrade (wt_socket t) tr w
      else if isWebTransportParseError err
      then closeWithReason (wt_socket t) ''parse error'' (Some err) w
      else closeWithReason (wt_socket t) ''transport close'' (Some err) w)"

definition webtransport_readStep ::
  "network \<Rightarrow> tref \<Rightarrow> serverWebTransportTransport \<Rightarrow> world \<Rightarrow> bool \<times> world" where
  "webtransport_readStep N tr t w =
     (case readWebTransportPacket (wt_reader t)
             (webTransportServerReadLimit (maxPayload (options (sockets w (wt_socket t))))) of
        (Inl (Panic p), r) \<Rightarrow> (False, w\<lparr>panicked := True\<rparr>)
      | (Inl (Error err), r) \<Rightarrow>
          (False, webtransport_readFailed tr t err (upd_heap tr (WebTransportT (t\<lparr>wt_reader := r\<rparr>)) w))
      | (Inr packet, r) \<Rightarrow>
          (let w = upd_heap tr (WebTransportT (t\<lparr>wt_reader := r\<rparr>)) w
           in (True, if wt_probing t
                     then webtransport_handleProbePacket N tr (t\<lparr>wt_reader := r\<rparr>) packet w
                     else handlePacket (wt_socket t) packet w)))"

definition webtransport_done :: "tref \<Rightarrow> world \<Rightarrow> world" where
  "webtransport_done tr w =
     (case heap w tr of
        WebTransportT t \<Rightarrow> upd_heap tr (WebTransportT (t\<lparr>wt_done := True\<rparr>)) w
      | _ \<Rightarrow> w)"

text \<open>What is left to read on a transport; nothing the session does changes it.\<close>

definition unread :: "serverTransport \<Rightarrow> bytes" where
  "unread t = (case t of WebTransportT t \<Rightarrow> pending (wt_reader t) | _ \<Rightarrow> [])"

lemma unread_simp [simp]: "unread (WebTransportT t) = pending (wt_reader t)"
  by (simp add: unread_def)

lemma unread_close: "unread (heap (transport_close tr' w) tr) = unread (heap w tr)"
  by (auto simp: transport_close_def unread_def webtransport_close_def
      split: serverTransport.splits prod.splits)

lemma unread_close_opt: "unread (heap (close_opt tr' w) tr) = unread (heap w tr)"
  by (simp add: close_opt_def unread_close split: option.splits)

lemma unread_promote: "unread (heap (transport_promote tr' w) tr) = unread (heap w tr)"
  by (auto simp: transport_promote_def unread_def webtransport_promote_def split: serverTransport.splits)

lemma webtransport_send_reader:
  "wt_reader (snd (webtransport_send dl wr t ps)) = wt_reader t"
  by (simp add: webtransport_send_def webtransport_writeFrames_def Let_def split: option.splits)

lemma unread_send: "unread (heap (snd (transport_send N tr' ps w)) tr) = unread (heap w tr)"
  using webtransport_send_reader
  by (auto simp: transport_send_def unread_def split: serverTransport.splits prod.splits)
    (metis snd_conv)+

lemma unread_closeWithReason: "unread (heap (closeWithReason s reason cause w) tr) = unread (heap w tr)"
  by (cases "state (sockets w s) = sessionClosed")
    (simp_all add: closeWithReason_closed closeWithReason_live Let_def unread_close_opt)

lemma unread_flush: "unread (heap (flush N s w) tr) = unread (heap w tr)"
proof (rule flush_rule [where P = "\<lambda>w'. unread (heap w' tr) = unread (heap w tr)"])
  show "unread (heap w' tr) = unread (heap w tr)" if "transport_send N tr' ps w = (r, w')" for tr' ps r w'
    using unread_send [of N tr' ps w tr] that by simp
qed (simp_all add: unread_closeWithReason)

lemma unread_abortUpgrade: "unread (heap (abortUpgrade s tr' w) tr) = unread (heap w tr)"
  by (simp add: abortUpgrade_def unread_close split: option.splits prod.splits)

lemma unread_completeUpgrade: "unread (heap (completeUpgrade N s tr' w) tr) = unread (heap w tr)"
  by (simp add: completeUpgrade_def Let_def unread_flush unread_close_opt unread_promote
      split: option.splits prod.splits)

lemma unread_onProbe: "unread (heap (onProbe s w) tr) = unread (heap w tr)"
  by (simp add: onProbe_def Let_def)

lemma unread_handlePacket: "unread (heap (handlePacket s p w) tr) = unread (heap w tr)"
  by (simp add: handlePacket_def onPong_def deliverMessage_def unread_closeWithReason)

lemmas unread_simps = unread_close unread_close_opt unread_promote unread_closeWithReason unread_flush
  unread_abortUpgrade unread_completeUpgrade unread_onProbe unread_handlePacket

lemma webtransport_writeProbePong_reader:
  "wt_reader (snd (webtransport_writeProbePong dl wr t)) = wt_reader t"
  by (simp add: webtransport_writeProbePong_def webtransport_writeFrames_def Let_def split: option.splits)

lemma unread_webtransport_handleProbePacket:
  assumes "heap w tr = WebTransportT t"
  shows "unread (heap (webtransport_handleProbePacket N tr t packet w) tr) = pending (wt_reader t)"
  using assms webtransport_writeProbePong_reader [of "stream_SetWriteDeadline N tr" "stream_Write N tr" t]
  by (auto simp: webtransport_handleProbePacket_def unread_simps split: prod.splits option.splits)

lemma webtransport_readStep_shrinks:
  assumes "heap w tr = WebTransportT t" and "webtransport_readStep N tr t w = (True, w')"
  shows "length (unread (heap w' tr)) < length (unread (heap w tr))"
proof -
  obtain packet r where read: "readWebTransportPacket (wt_reader t)
      (webTransportServerReadLimit (maxPayload (options (sockets w (wt_socket t))))) = (Inr packet, r)"
    and w': "w' = (let w = upd_heap tr (WebTransportT (t\<lparr>wt_reader := r\<rparr>)) w
           in if wt_probing t then webtransport_handleProbePacket N tr (t\<lparr>wt_reader := r\<rparr>) packet w
              else handlePacket (wt_socket t) packet w)"
    using assms(2) by (auto simp: webtransport_readStep_def Let_def split: prod.splits sum.splits failure.splits)
  have "unread (heap w' tr) = pending r"
    using unread_webtransport_handleProbePacket [of "upd_heap tr (WebTransportT (t\<lparr>wt_reader := r\<rparr>)) w" tr
        "t\<lparr>wt_reader := r\<rparr>" N packet]
    by (simp add: w' Let_def unread_handlePacket)
  moreover have "length (pending r) < length (pending (wt_reader t))"
    using readWebTransportPacket_Inr [OF read] by auto
  ultimately show ?thesis using assms(1) by simp
qed

function webtransport_readLoop :: "network \<Rightarrow> tref \<Rightarrow> world \<Rightarrow> world" where
  "webtransport_readLoop N tr w =
     (case heap w tr of
        WebTransportT t \<Rightarrow>
          (case webtransport_readStep N tr t w of
             (True, w') \<Rightarrow> webtransport_readLoop N tr w'
           | (False, w') \<Rightarrow> webtransport_done tr w')
      | _ \<Rightarrow> w)"
  by pat_completeness auto
termination
  by (relation "measure (\<lambda>(N, tr, w). length (unread (heap w tr)))")
    (use webtransport_readStep_shrinks in \<open>force+\<close>)

declare webtransport_readLoop.simps [simp del]

end
