(* ===== verification/JsonDecode.thy ===== *)
theory JsonDecode
  imports Json
begin

text \<open>
  What the package unmarshals with encoding/json: the open packet of a handshake, on the client, and
  the session id of a WebTransport upgrade, on the server. \<^verbatim>\<open>json.Unmarshal\<close> first checks the syntax
  of the whole text, nesting included, then stores the members into the fields they name. A number is
  kept as its literal, a string as the bytes it decodes to. A member names a field by its exact name
  or, failing that, up to case; a null leaves a field alone; a value of another kind is an error that
  is reported once the object is done.
\<close>

datatype json =
    JNull
  | JBool bool
  | JNumber bytes
  | JString bytes
  | JArray "json list"
  | JObject "(bytes \<times> json) list"

definition skipSpace :: "bytes \<Rightarrow> bytes" where
  "skipSpace bs = dropWhile (\<lambda>b. b \<in> {32, 9, 10, 13}) bs"

lemma skipSpace_length: "length (skipSpace bs) \<le> length bs"
  by (simp add: skipSpace_def length_dropWhile_le)

section \<open>Strings\<close>

definition hexValue :: "byte \<Rightarrow> nat option" where
  "hexValue b =
     (let n = unat b
      in if 48 \<le> n \<and> n \<le> 57 then Some (n - 48)
         else if 97 \<le> n \<and> n \<le> 102 then Some (n - 87)
         else if 65 \<le> n \<and> n \<le> 70 then Some (n - 55)
         else None)"

fun hex4 :: "bytes \<Rightarrow> (nat \<times> bytes) option" where
  "hex4 (a # b # c # d # rest) =
     (case (hexValue a, hexValue b, hexValue c, hexValue d) of
        (Some x, Some y, Some z, Some w) \<Rightarrow> Some (((x * 16 + y) * 16 + z) * 16 + w, rest)
      | _ \<Rightarrow> None)"
| "hex4 _ = None"

text \<open>Two \<^verbatim>\<open>\\u\<close> escapes that form a surrogate pair are one rune; a surrogate alone is replaced.\<close>

fun lowSurrogate :: "bytes \<Rightarrow> (nat \<times> bytes) option" where
  "lowSurrogate (b # c # rest) =
     (if b = 92 \<and> c = 117 then
        (case hex4 rest of
           Some (r, rest') \<Rightarrow> if 0xDC00 \<le> r \<and> r < 0xE000 then Some (r, rest') else None
         | None \<Rightarrow> None)
      else None)"
| "lowSurrogate _ = None"

definition unescapeU :: "bytes \<Rightarrow> (bytes \<times> bytes) option" where
  "unescapeU bs =
     (case hex4 bs of
        None \<Rightarrow> None
      | Some (r, rest) \<Rightarrow>
          if 0xD800 \<le> r \<and> r < 0xE000 then
            (case lowSurrogate rest of
               Some (r', rest') \<Rightarrow>
                 if r < 0xDC00
                 then Some (encodeRune ((r - 0xD800) * 1024 + (r' - 0xDC00) + 0x10000), rest')
                 else Some (encodeRune RuneError, rest)
             | None \<Rightarrow> Some (encodeRune RuneError, rest))
          else Some (encodeRune r, rest))"

definition unescape :: "byte \<Rightarrow> bytes \<Rightarrow> (bytes \<times> bytes) option" where
  "unescape c rest =
     (if c = 34 \<or> c = 92 \<or> c = 47 then Some ([c], rest)
      else if c = 98 then Some ([8], rest)
      else if c = 102 then Some ([12], rest)
      else if c = 110 then Some ([10], rest)
      else if c = 114 then Some ([13], rest)
      else if c = 116 then Some ([9], rest)
      else if c = 117 then unescapeU rest
      else None)"

lemma hex4_length: "hex4 bs = Some (r, rest) \<Longrightarrow> length rest < length bs"
  by (cases bs rule: hex4.cases) (auto split: option.splits)

lemma lowSurrogate_length: "lowSurrogate bs = Some (r, rest) \<Longrightarrow> length rest < length bs"
  by (cases bs rule: lowSurrogate.cases) (auto split: option.splits if_splits dest: hex4_length)

lemma unescapeU_length: "unescapeU bs = Some (out, rest) \<Longrightarrow> length rest < length bs"
  by (auto simp: unescapeU_def split: option.splits if_splits prod.splits
      dest!: hex4_length lowSurrogate_length)

lemma unescape_length: "unescape c bs = Some (out, rest) \<Longrightarrow> length rest \<le> length bs"
  by (auto simp: unescape_def split: if_splits dest: unescapeU_length)

text \<open>The text of a string after its opening quote: what it decodes to, and the input behind it.\<close>

function unquote :: "bytes \<Rightarrow> (bytes \<times> bytes) option" where
  "unquote [] = None"
| "unquote (b # bs) =
     (if b = 34 then Some ([], bs)
      else if b = 92 then
        (case bs of
           [] \<Rightarrow> None
         | c # rest \<Rightarrow>
             (case unescape c rest of
                None \<Rightarrow> None
              | Some (out, rest') \<Rightarrow> map_option (map_prod ((@) out) id) (unquote rest')))
      else if unat b < 32 then None
      else
        (case decodeRune b bs of
           (r, rest) \<Rightarrow> map_option (map_prod ((@) (encodeRune r)) id) (unquote rest)))"
  by pat_completeness auto
termination
  by (relation "measure length")
    (auto simp: less_Suc_eq_le dest!: unescape_length sym [THEN decodeRune_length])

lemma unquote_length: "unquote bs = Some (out, rest) \<Longrightarrow> length rest < length bs"
proof (induction bs arbitrary: out rest rule: unquote.induct)
  case (2 b bs)
  show ?case
  proof (cases "b = 34")
    case False
    show ?thesis
    proof (cases "b = 92")
      case True
      with 2(3) obtain c bs' out' rest' out2 where "bs = c # bs'" "unescape c bs' = Some (out', rest')"
        "unquote rest' = Some (out2, rest)"
        by (auto split: list.splits option.splits)
      with 2(1) [OF False True] unescape_length [of c bs' out' rest'] show ?thesis by fastforce
    next
      case b: False
      with False 2(3) obtain r rest' out2 where "decodeRune b bs = (r, rest')" "\<not> unat b < 32"
        "unquote rest' = Some (out2, rest)"
        by (auto split: prod.splits if_splits)
      with 2(2) [OF False b] decodeRune_length [of b bs r rest'] show ?thesis by fastforce
    qed
  qed (use 2(3) in simp)
qed simp

section \<open>Numbers\<close>

definition isDigit :: "byte \<Rightarrow> bool" where
  "isDigit b \<longleftrightarrow> 48 \<le> unat b \<and> unat b \<le> 57"

definition digits :: "bytes \<Rightarrow> (bytes \<times> bytes) option" where
  "digits bs =
     (if takeWhile isDigit bs = [] then None else Some (takeWhile isDigit bs, dropWhile isDigit bs))"

definition intPart :: "bytes \<Rightarrow> (bytes \<times> bytes) option" where
  "intPart bs =
     (case bs of
        [] \<Rightarrow> None
      | b # rest \<Rightarrow> if b = 48 then Some ([48], rest) else digits bs)"

definition fracPart :: "bytes \<Rightarrow> (bytes \<times> bytes) option" where
  "fracPart bs =
     (case bs of
        b # rest \<Rightarrow>
          if b = 46 then map_option (map_prod ((#) b) id) (digits rest) else Some ([], bs)
      | [] \<Rightarrow> Some ([], bs))"

definition expPart :: "bytes \<Rightarrow> (bytes \<times> bytes) option" where
  "expPart bs =
     (case bs of
        b # rest \<Rightarrow>
          if b = 101 \<or> b = 69 then
            (case rest of
               c # rest' \<Rightarrow>
                 if c = 43 \<or> c = 45 then map_option (map_prod ((@) [b, c]) id) (digits rest')
                 else map_option (map_prod ((#) b) id) (digits rest)
             | [] \<Rightarrow> None)
          else Some ([], bs)
      | [] \<Rightarrow> Some ([], bs))"

definition number :: "bytes \<Rightarrow> (bytes \<times> bytes) option" where
  "number bs =
     (let (sign, bs) = (case bs of b # rest \<Rightarrow> if b = 45 then ([45], rest) else ([], bs) | [] \<Rightarrow> ([], bs))
      in case intPart bs of
           None \<Rightarrow> None
         | Some (i, bs) \<Rightarrow>
             (case fracPart bs of
                None \<Rightarrow> None
              | Some (f, bs) \<Rightarrow>
                  (case expPart bs of
                     None \<Rightarrow> None
                   | Some (e, bs) \<Rightarrow> Some (sign @ i @ f @ e, bs))))"

lemma digits_length: "digits bs = Some (ds, rest) \<Longrightarrow> length rest < length bs"
proof -
  assume "digits bs = Some (ds, rest)"
  then have "takeWhile isDigit bs \<noteq> []" "rest = dropWhile isDigit bs"
    by (auto simp: digits_def split: if_splits)
  moreover have "length bs = length (takeWhile isDigit bs) + length (dropWhile isDigit bs)"
    by (metis length_append takeWhile_dropWhile_id)
  ultimately show ?thesis by simp
qed

lemma number_length: "number bs = Some (lit, rest) \<Longrightarrow> length rest < length bs"
proof -
  have i: "intPart bs = Some (x, r) \<Longrightarrow> length r < length bs" for x r bs
    by (auto simp: intPart_def split: list.splits if_splits dest: digits_length)
  have f: "fracPart bs = Some (x, r) \<Longrightarrow> length r \<le> length bs" for x r bs
    by (auto simp: fracPart_def split: list.splits if_splits dest: digits_length)
  have e: "expPart bs = Some (x, r) \<Longrightarrow> length r \<le> length bs" for x r bs
    by (auto simp: expPart_def split: list.splits if_splits dest: digits_length)
  assume "number bs = Some (lit, rest)"
  then show ?thesis
    by (auto simp: number_def split: list.splits if_splits option.splits dest!: i f e)
qed

section \<open>Values\<close>

text \<open>
  \<open>depth\<close> is how many more arrays and objects may be opened; the scanner allows 10000. The
  comparisons of lengths hold at every call (\<open>parse_length\<close> below) and make the recursion visibly
  well-founded.
\<close>

definition literal :: "bytes \<Rightarrow> json \<Rightarrow> bytes \<Rightarrow> (json \<times> bytes) option" where
  "literal l v bs = (if take (length l) bs = l then Some (v, drop (length l) bs) else None)"

definition scalar :: "byte \<Rightarrow> bytes \<Rightarrow> (json \<times> bytes) option" where
  "scalar b bs =
     (if b = 34 then map_option (map_prod JString id) (unquote bs)
      else if b = 116 then literal (bytes_of ''rue'') (JBool True) bs
      else if b = 102 then literal (bytes_of ''alse'') (JBool False) bs
      else if b = 110 then literal (bytes_of ''ull'') JNull bs
      else map_option (map_prod JNumber id) (number (b # bs)))"

function (sequential) parseValue :: "nat \<Rightarrow> bytes \<Rightarrow> (json \<times> bytes) option"
  and parseElements :: "nat \<Rightarrow> bytes \<Rightarrow> (json list \<times> bytes) option"
  and parseMembers :: "nat \<Rightarrow> bytes \<Rightarrow> ((bytes \<times> json) list \<times> bytes) option" where
  "parseValue depth [] = None"
| "parseValue depth (b # bs) =
     (if b = 91 then
        (if depth = 0 then None
         else
           (case skipSpace bs of
              [] \<Rightarrow> None
            | c # rest \<Rightarrow>
                if c = 93 then Some (JArray [], rest)
                else map_option (map_prod JArray id) (parseElements (depth - 1) (skipSpace bs))))
      else if b = 123 then
        (if depth = 0 then None
         else
           (case skipSpace bs of
              [] \<Rightarrow> None
            | c # rest \<Rightarrow>
                if c = 125 then Some (JObject [], rest)
                else map_option (map_prod JObject id) (parseMembers (depth - 1) (skipSpace bs))))
      else scalar b bs)"
| "parseElements depth bs =
     (case parseValue depth bs of
        None \<Rightarrow> None
      | Some (v, rest) \<Rightarrow>
          (case skipSpace rest of
             [] \<Rightarrow> None
           | c # rest' \<Rightarrow>
               if c = 93 then Some ([v], rest')
               else if c = 44 \<and> length rest' < length bs
               then map_option (map_prod ((#) v) id) (parseElements depth (skipSpace rest'))
               else None))"
| "parseMembers depth [] = None"
| "parseMembers depth (b # bs) =
     (if b \<noteq> 34 then None
      else
        (case unquote bs of
           None \<Rightarrow> None
         | Some (k, rest) \<Rightarrow>
             (case skipSpace rest of
                [] \<Rightarrow> None
              | c # rest' \<Rightarrow>
                  if c \<noteq> 58 then None
                  else
                    (case parseValue depth (skipSpace rest') of
                       None \<Rightarrow> None
                     | Some (v, rest'') \<Rightarrow>
                         (case skipSpace rest'' of
                            [] \<Rightarrow> None
                          | c # rest3 \<Rightarrow>
                              if c = 125 then Some ([(k, v)], rest3)
                              else if c = 44 \<and> length rest3 < length bs
                              then map_option (map_prod ((#) (k, v)) id)
                                     (parseMembers depth (skipSpace rest3))
                              else None)))))"
  by pat_completeness auto
termination
proof (relation "measures [\<lambda>x. case x of Inl (d, bs) \<Rightarrow> length bs | Inr (Inl (d, bs)) \<Rightarrow> length bs
    | Inr (Inr (d, bs)) \<Rightarrow> length bs, \<lambda>x. case x of Inl _ \<Rightarrow> 0 | Inr _ \<Rightarrow> 1]", goal_cases)
  case (2 depth b bs) then show ?case using skipSpace_length [of bs] by simp
next
  case (3 depth b bs) then show ?case using skipSpace_length [of bs] by simp
next
  case (5 depth bs a v rest c rest') then show ?case using skipSpace_length [of rest'] by simp
next
  case (6 depth b bs a k rest c rest')
  then show ?case
    using skipSpace_length [of rest] skipSpace_length [of rest'] unquote_length [of bs k rest] by simp
next
  case (7 depth b bs a k rest c rest' aa v rest'' ca rest3)
  then show ?case using skipSpace_length [of rest3] by simp
qed simp_all

declare parseElements.simps [simp del]

definition maxNestingDepth :: nat where
  "maxNestingDepth = 10000"

definition parseDocument :: "bytes \<Rightarrow> error + json" where
  "parseDocument data =
     (case parseValue maxNestingDepth (skipSpace data) of
        None \<Rightarrow> Inl JsonSyntaxError
      | Some (v, rest) \<Rightarrow> if skipSpace rest = [] then Inr v else Inl JsonSyntaxError)"

section \<open>Fields\<close>

text \<open>
  \<^verbatim>\<open>foldName\<close>: names are compared up to Unicode case folding. The names of the fields are ASCII, and
  the only runes beyond ASCII that fold to an ASCII letter are the long s and the Kelvin sign.
\<close>

definition foldRune :: "nat \<Rightarrow> nat" where
  "foldRune r =
     (if 97 \<le> r \<and> r \<le> 122 then r - 32 else if r = 0x17F then 83 else if r = 0x212A then 75 else r)"

definition foldName :: "bytes \<Rightarrow> nat list" where
  "foldName name = map foldRune (runes_of name)"

definition fieldFor :: "string list \<Rightarrow> bytes \<Rightarrow> string option" where
  "fieldFor names key =
     (case find (\<lambda>n. bytes_of n = key) names of
        Some n \<Rightarrow> Some n
      | None \<Rightarrow> find (\<lambda>n. foldName (bytes_of n) = foldName key) names)"

definition storeString :: "json \<Rightarrow> string \<Rightarrow> error + string" where
  "storeString v old =
     (case v of JNull \<Rightarrow> Inr old | JString s \<Rightarrow> Inr (string_of s) | _ \<Rightarrow> Inl JsonUnmarshalTypeError)"

text \<open>A number is stored into an int if its literal is an integer that fits; \<^verbatim>\<open>strconv.ParseInt\<close> reads it.\<close>

definition storeInt :: "json \<Rightarrow> int \<Rightarrow> error + int" where
  "storeInt v old =
     (case v of
        JNull \<Rightarrow> Inr old
      | JNumber lit \<Rightarrow> (case Atoi lit of Inl _ \<Rightarrow> Inl JsonUnmarshalTypeError | Inr n \<Rightarrow> Inr n)
      | _ \<Rightarrow> Inl JsonUnmarshalTypeError)"

text \<open>
  An array is stored element by element over the elements the slice already has; a null element
  leaves its element alone. A null makes the slice nil.
\<close>

fun storeElements :: "json list \<Rightarrow> string list \<Rightarrow> error + string list" where
  "storeElements [] old = Inr []"
| "storeElements (v # vs) old =
     (case storeString v (case old of [] \<Rightarrow> '''' | s # _ \<Rightarrow> s) of
        Inl e \<Rightarrow> Inl e
      | Inr s \<Rightarrow> (case storeElements vs (tl old) of Inl e \<Rightarrow> Inl e | Inr ss \<Rightarrow> Inr (s # ss)))"

definition storeStrings :: "json \<Rightarrow> string list \<Rightarrow> error + string list" where
  "storeStrings v old =
     (case v of JNull \<Rightarrow> Inr [] | JArray vs \<Rightarrow> storeElements vs old | _ \<Rightarrow> Inl JsonUnmarshalTypeError)"

text \<open>
  The members of an object are stored in order. After an error decoding goes on, but the error is
  what the caller gets, and no caller looks at the value then; so the first error ends the fold here.
\<close>

fun storeMembers :: "(bytes \<Rightarrow> json \<Rightarrow> 'a \<Rightarrow> error + 'a) \<Rightarrow> (bytes \<times> json) list \<Rightarrow> 'a \<Rightarrow> error + 'a" where
  "storeMembers store [] x = Inr x"
| "storeMembers store ((k, v) # kvs) x =
     (case store k v x of Inl e \<Rightarrow> Inl e | Inr y \<Rightarrow> storeMembers store kvs y)"

definition unmarshal :: "(bytes \<Rightarrow> json \<Rightarrow> 'a \<Rightarrow> error + 'a) \<Rightarrow> 'a \<Rightarrow> bytes \<Rightarrow> error + 'a" where
  "unmarshal store zero data =
     (case parseDocument data of
        Inl e \<Rightarrow> Inl e
      | Inr JNull \<Rightarrow> Inr zero
      | Inr (JObject kvs) \<Rightarrow> storeMembers store kvs zero
      | Inr _ \<Rightarrow> Inl JsonUnmarshalTypeError)"

section \<open>The two structures\<close>

definition store_sid :: "bytes \<Rightarrow> json \<Rightarrow> string \<Rightarrow> error + string" where
  "store_sid k v sid = (case fieldFor [''sid''] k of None \<Rightarrow> Inr sid | Some _ \<Rightarrow> storeString v sid)"

definition json_Unmarshal_sid :: "bytes \<Rightarrow> error + string" where
  "json_Unmarshal_sid data = unmarshal store_sid '''' data"

definition store_OpenPacket :: "bytes \<Rightarrow> json \<Rightarrow> OpenPacket \<Rightarrow> error + OpenPacket" where
  "store_OpenPacket k v p =
     (case fieldFor [''sid'', ''upgrades'', ''pingInterval'', ''pingTimeout'', ''maxPayload''] k of
        None \<Rightarrow> Inr p
      | Some f \<Rightarrow>
          if f = ''sid'' then map_sum id (\<lambda>s. p\<lparr>SessionID := s\<rparr>) (storeString v (SessionID p))
          else if f = ''upgrades'' then map_sum id (\<lambda>ts. p\<lparr>Upgrades := ts\<rparr>) (storeStrings v (Upgrades p))
          else if f = ''pingInterval'' then map_sum id (\<lambda>n. p\<lparr>PingInterval := n\<rparr>) (storeInt v (PingInterval p))
          else if f = ''pingTimeout'' then map_sum id (\<lambda>n. p\<lparr>PingTimeout := n\<rparr>) (storeInt v (PingTimeout p))
          else map_sum id (\<lambda>n. p\<lparr>MaxPayload := n\<rparr>) (storeInt v (MaxPayload p)))"

definition zero_OpenPacket :: OpenPacket where
  "zero_OpenPacket =
     \<lparr>SessionID = '''', Upgrades = [], PingInterval = 0, PingTimeout = 0, MaxPayload = 0\<rparr>"

definition json_Unmarshal_OpenPacket :: "bytes \<Rightarrow> error + OpenPacket" where
  "json_Unmarshal_OpenPacket data = unmarshal store_OpenPacket zero_OpenPacket data"

section \<open>Parsing consumes its input\<close>

lemma literal_length: "literal l v bs = Some (x, rest) \<Longrightarrow> length rest \<le> length bs"
  by (auto simp: literal_def split: if_splits)

lemma scalar_length: "scalar b bs = Some (v, rest) \<Longrightarrow> length rest \<le> length bs"
  by (auto simp: scalar_def split: if_splits dest!: unquote_length literal_length number_length)

lemma parse_length:
  "parseValue d bs = Some (v, rest) \<Longrightarrow> length rest < length bs"
  "parseElements d bs = Some (vs, rest) \<Longrightarrow> length rest < length bs"
  "parseMembers d bs = Some (kvs, rest) \<Longrightarrow> length rest < length bs"
proof (induction d bs and d bs and d bs arbitrary: v rest and vs rest and kvs rest
    rule: parseValue_parseElements_parseMembers.induct)
  case (2 depth b bs)
  note sk = skipSpace_length [of bs]
  show ?case
  proof (cases "b = 91 \<or> b = 123")
    case True
    then obtain c cs where c: "skipSpace bs = c # cs" "depth \<noteq> 0"
      using 2(3) by (cases "skipSpace bs") (auto split: if_splits)
    show ?thesis
    proof (cases "b = 91")
      case True
      then consider "v = JArray []" "rest = cs" | vs where "c \<noteq> 93" "parseElements (depth - 1) (skipSpace bs) = Some (vs, rest)"
        using 2(3) c by (auto split: if_splits)
      then show ?thesis
      proof cases
        case 2
        from "2.IH"(1) [OF True c(2) c(1) this] sk show ?thesis by simp
      qed (use sk c(1) in simp)
    next
      case False
      with True have b: "b = 123" by simp
      with False consider "v = JObject []" "rest = cs"
        | kvs where "c \<noteq> 125" "parseMembers (depth - 1) (skipSpace bs) = Some (kvs, rest)"
        using 2(3) c by (auto split: if_splits)
      then show ?thesis
      proof cases
        case 2
        from "2.IH"(2) [OF False b c(2) c(1) this] sk show ?thesis by simp
      qed (use sk c(1) in simp)
    qed
  next
    case False
    with 2(3) have "scalar b bs = Some (v, rest)" by simp
    then show ?thesis using scalar_length by fastforce
  qed
next
  case (3 depth bs)
  note p = 3(3) [unfolded parseElements.simps [of depth bs]]
  then obtain v rest1 c rest' where v: "parseValue depth bs = Some (v, rest1)" "skipSpace rest1 = c # rest'"
    by (auto split: option.splits list.splits)
  have l: "length rest' < length bs"
    using 3(1) [OF v(1)] skipSpace_length [of rest1] v(2) by simp
  show ?case
  proof (cases "c = 93")
    case False
    with p v l obtain vs' where "c = 44" "parseElements depth (skipSpace rest') = Some (vs', rest)"
      by (auto split: if_splits)
    then show ?thesis
      using 3(2) [OF v(1) refl v(2) False _] l skipSpace_length [of rest'] by fastforce
  qed (use p v l in auto)
next
  case (5 depth b bs)
  note p = 5(3)
  then obtain k rest1 c rest' where k: "unquote bs = Some (k, rest1)" "skipSpace rest1 = c # rest'"
    "\<not> b \<noteq> 34" "\<not> c \<noteq> 58"
    by (auto split: option.splits list.splits if_splits)
  with p obtain v rest2 c' rest3 where v: "parseValue depth (skipSpace rest') = Some (v, rest2)"
    "skipSpace rest2 = c' # rest3"
    by (auto split: option.splits list.splits)
  have l: "length rest3 < length bs"
    using 5(1) [OF k(3) k(1) refl k(2) k(4) v(1)] v(2) k(2) skipSpace_length [of rest1]
      skipSpace_length [of rest'] skipSpace_length [of rest2] unquote_length [OF k(1)] by simp
  show ?case
  proof (cases "c' = 125")
    case False
    with p k v l obtain kvs' where "c' = 44" "parseMembers depth (skipSpace rest3) = Some (kvs', rest)"
      by (auto split: if_splits)
    then show ?thesis
      using 5(2) [OF k(3) k(1) refl k(2) k(4) v(1) refl v(2) False] l skipSpace_length [of rest3] by fastforce
  qed (use p k v l in auto)
qed simp_all

section \<open>Unmarshalling inverts marshalling\<close>

definition escaped :: "nat \<Rightarrow> bytes" where
  "escaped r =
     (if r < 128 then (if htmlSafe (octet r) then [octet r] else escapeAscii (octet r))
      else if r = 0x2028 \<or> r = 0x2029 then 92 # bytes_of ''u202'' @ [hexDigit (r mod 16)]
      else encodeRune r)"

lemma decodeRune_lead: "decodeRune b bs = (r, rest) \<Longrightarrow> 128 \<le> r \<Longrightarrow> 128 \<le> unat b"
  by (cases "unat b < 128") (auto simp: decodeRune_def)

lemma encodeRune_length: "128 \<le> r \<Longrightarrow> 2 \<le> length (encodeRune r)"
  by (simp add: encodeRune_def)

lemma jsonEscape_rune:
  assumes "valid_rune r"
  shows "jsonEscape (encodeRune r @ bs) = escaped r @ jsonEscape bs"
proof (cases "r < 128")
  case True
  then show ?thesis by (simp add: encodeRune_def escaped_def)
next
  case False
  obtain b pre where e: "encodeRune r = b # pre" "\<And>bs. decodeRune b (pre @ bs) = (r, bs)"
    using encodeRune_decode [OF assms] by blast
  have "128 \<le> unat b" using decodeRune_lead [OF e(2)] False by simp
  moreover have "pre \<noteq> []" using encodeRune_length [of r] False e(1) by auto
  moreover have "take (Suc (length pre)) (b # pre @ bs) = encodeRune r" by (simp add: e(1))
  ultimately show ?thesis using e False by (simp add: escapeRune_def escaped_def)
qed

lemma hexValue_hexDigit: "n < 16 \<Longrightarrow> hexValue (hexDigit n) = Some n"
  by (simp add: hexValue_def hexDigit_def Let_def)

lemma unquote_hex:
  assumes "r < 128"
  shows "unquote (92 # 117 # 48 # 48 # hexDigit (r div 16) # hexDigit (r mod 16) # rest) =
      map_option (map_prod ((@) [octet r]) id) (unquote rest)"
proof -
  have "hexValue 48 = Some 0" by (simp add: hexValue_def)
  moreover have "r div 16 < 16" using assms by (intro less_mult_imp_div_less) simp
  moreover have "r div 16 * 16 + r mod 16 = r" by simp
  moreover have "encodeRune r = [octet r]" using assms by (simp add: encodeRune_def)
  ultimately have "unescape 117 (48 # 48 # hexDigit (r div 16) # hexDigit (r mod 16) # rest) =
      Some ([octet r], rest)"
    using assms by (simp add: unescape_def unescapeU_def hexValue_hexDigit)
  then show ?thesis by simp
qed

lemma unquote_ascii:
  assumes "r < 128"
  shows "unquote (escaped r @ rest) = map_option (map_prod ((@) (encodeRune r)) id) (unquote rest)"
proof (cases "htmlSafe (octet r)")
  case True
  then have "octet r \<noteq> 34" "octet r \<noteq> 92" "\<not> r < 32" using assms by (auto simp: htmlSafe_def)
  with True assms show ?thesis by (simp add: escaped_def decodeRune_def)
next
  case False
  consider "octet r \<in> {92, 34, 8, 12, 10, 13, 9}" | "escapeAscii (octet r) =
      [92, 117, 48, 48, hexDigit (r div 16), hexDigit (r mod 16)]"
    using assms by (cases "octet r \<in> {92, 34, 8, 12, 10, 13, 9}") (auto simp: escapeAscii_def)
  then show ?thesis
  proof cases
    case 1
    with False assms show ?thesis
      by (auto simp: escaped_def escapeAscii_def unescape_def encodeRune_def)
  next
    case 2
    with False assms show ?thesis
      by (simp add: escaped_def encodeRune_def unquote_hex del: unquote.simps)
  qed
qed

lemma unquote_rune:
  assumes "valid_rune r"
  shows "unquote (escaped r @ rest) = map_option (map_prod ((@) (encodeRune r)) id) (unquote rest)"
proof (cases "r < 128")
  case True
  then show ?thesis by (rule unquote_ascii)
next
  case False
  show ?thesis
  proof (cases "r = 0x2028 \<or> r = 0x2029")
    case True
    have "hexValue 48 = Some 0" "hexValue 50 = Some 2" by (simp_all add: hexValue_def)
    with True have "unescape 117 (50 # 48 # 50 # hexDigit (r mod 16) # rest) = Some (encodeRune r, rest)"
      by (auto simp: unescape_def unescapeU_def hexValue_hexDigit)
    with True show ?thesis by (auto simp: escaped_def bytes_of_def)
  next
    case sep: False
    obtain b pre where e: "encodeRune r = b # pre" "\<And>bs. decodeRune b (pre @ bs) = (r, bs)"
      using encodeRune_decode [OF assms] by blast
    have "128 \<le> unat b" using decodeRune_lead [OF e(2)] False by simp
    then have "b \<noteq> 34" "b \<noteq> 92" "\<not> unat b < 32" by auto
    moreover have "unquote (b # pre @ rest) = map_option (map_prod ((@) (encodeRune r)) id) (unquote rest)"
      using calculation e(2) by simp
    ultimately show ?thesis using False sep e(1) by (simp add: escaped_def)
  qed
qed

lemma unquote_jsonEscape:
  assumes "valid_utf8 s"
  shows "unquote (jsonEscape s @ 34 # rest) = Some (s, rest)"
proof -
  have "(\<And>r. r \<in> set rs \<Longrightarrow> valid_rune r) \<Longrightarrow>
      unquote (jsonEscape (string_of_runes rs) @ 34 # rest) = Some (string_of_runes rs, rest)" for rs
    by (induction rs) (simp_all add: jsonEscape_rune unquote_rune)
  from this [of "runes_of s"] show ?thesis
    using assms runes_of_valid by (simp add: valid_utf8_def)
qed

lemma skipSpace_simps [simp]:
  "skipSpace [] = []"
  "skipSpace (b # bs) = (if b \<in> {32, 9, 10, 13} then skipSpace bs else b # bs)"
  by (simp_all add: skipSpace_def)

lemma parseValue_string:
  "valid_utf8 s \<Longrightarrow> parseValue d (json_string s @ rest) = Some (JString s, rest)"
  by (simp add: json_string_def scalar_def unquote_jsonEscape)

text \<open>A number ends where it is followed by one of the characters that can follow a value.\<close>

definition delimited :: "bytes \<Rightarrow> bool" where
  "delimited rest \<longleftrightarrow> rest \<noteq> [] \<and> hd rest \<in> {44, 93, 125}"

lemma delimited_Cons [simp]: "delimited (c # cs) \<longleftrightarrow> c \<in> {44, 93, 125}"
  by (simp add: delimited_def)

lemma digits_decimal_string:
  assumes "delimited rest"
  shows "digits (decimal_string n @ rest) = Some (decimal_string n, rest)"
proof -
  have all: "\<forall>b \<in> set (decimal_string n). isDigit b"
    using decimal_string_chars by (simp add: isDigit_def)
  have "takeWhile isDigit rest = []" "dropWhile isDigit rest = rest"
    using assms by (cases rest; auto simp: isDigit_def)+
  with all have "takeWhile isDigit (decimal_string n @ rest) = decimal_string n"
    "dropWhile isDigit (decimal_string n @ rest) = rest"
    by (simp_all add: takeWhile_append2 dropWhile_append2)
  then show ?thesis by (simp add: digits_def)
qed

lemma hd_decimal: "0 < n \<Longrightarrow> 0 < hd (decimal n)"
proof (induction n rule: decimal.induct)
  case (1 n)
  then show ?case
    by (cases "n < 10") (subst decimal.simps, simp add: hd_append)+
qed

lemma hd_decimal_string:
  "b \<in> {45, 46, 43, 101, 69} \<or> b = 48 \<and> 0 < n \<Longrightarrow> hd (decimal_string n) \<noteq> b"
proof -
  have "octet (48 + hd (decimal n)) = hd (decimal_string n)"
    by (simp add: decimal_string_def hd_map)
  moreover have lt: "hd (decimal n) < 10" using decimal_digits [of _ n] by simp
  ultimately have "unat (hd (decimal_string n)) = 48 + hd (decimal n)"
    using unat_octet [of "48 + hd (decimal n)"] by simp
  then show ?thesis if "b \<in> {45, 46, 43, 101, 69} \<or> b = 48 \<and> 0 < n"
    using that lt hd_decimal [of n] by auto
qed

lemma intPart_decimal_string:
  assumes "delimited rest"
  shows "intPart (decimal_string n @ rest) = Some (decimal_string n, rest)"
proof (cases "n = 0")
  case True
  then show ?thesis by (simp add: decimal_string_def decimal.simps intPart_def octet_def)
next
  case False
  obtain c cs where c: "decimal_string n = c # cs" using decimal_string_nonempty by (cases "decimal_string n") auto
  with False have "c \<noteq> 48" using hd_decimal_string [of 48 n] by simp
  then show ?thesis using digits_decimal_string [OF assms, of n] by (simp add: c intPart_def)
qed

lemma fracPart_delimited: "delimited rest \<Longrightarrow> fracPart rest = Some ([], rest)"
  by (cases rest) (auto simp: fracPart_def)

lemma expPart_delimited: "delimited rest \<Longrightarrow> expPart rest = Some ([], rest)"
  by (cases rest) (auto simp: expPart_def)

lemma number_json_int:
  assumes "delimited rest"
  shows "number (json_int i @ rest) = Some (json_int i, rest)"
proof (cases "i < 0")
  case True
  then show ?thesis
    using assms by (simp add: number_def json_int_def intPart_decimal_string fracPart_delimited expPart_delimited)
next
  case False
  obtain c cs where c: "decimal_string (nat i) = c # cs"
    using decimal_string_nonempty by (cases "decimal_string (nat i)") auto
  then have "c \<noteq> 45" using hd_decimal_string [of 45 "nat i"] by simp
  with False show ?thesis
    using assms intPart_decimal_string [OF assms, of "nat i"]
    by (simp add: number_def json_int_def c fracPart_delimited expPart_delimited)
qed

lemma json_int_lead: "\<exists>c cs. json_int i = c # cs \<and> (c = 45 \<or> isDigit c)"
proof (cases "i < 0")
  case False
  obtain c cs where c: "decimal_string (nat i) = c # cs"
    using decimal_string_nonempty by (cases "decimal_string (nat i)") auto
  then have "isDigit c" using decimal_string_chars [of c "nat i"] by (simp add: isDigit_def)
  with False c show ?thesis by (simp add: json_int_def)
qed (simp add: json_int_def)

lemma parseValue_int:
  assumes "delimited rest"
  shows "parseValue d (json_int i @ rest) = Some (JNumber (json_int i), rest)"
proof -
  obtain c cs where c: "json_int i = c # cs" "c = 45 \<or> isDigit c" using json_int_lead by blast
  then have "c \<notin> {91, 123, 34, 116, 102, 110}" by (auto simp: isDigit_def)
  then show ?thesis using number_json_int [OF assms, of i] by (simp add: c scalar_def)
qed

lemma Atoi_json_int:
  assumes "- (2 ^ 63) \<le> i" "i < 2 ^ 63"
  shows "Atoi (json_int i) = Inr i"
proof (cases "i < 0")
  case True
  let ?n = "nat (- i)"
  have "parseUint 0 (decimal_string ?n) = Inr ?n"
    unfolding decimal_string_def
    using parseUint_digits [of "decimal ?n" 0] decimal_digits [of _ ?n] foldl_decimal [of ?n] assms by simp
  with True assms show ?thesis by (simp add: json_int_def Atoi_def Let_def)
next
  case False
  with assms show ?thesis by (simp add: json_int_def Atoi_decimal_string nat_less_iff)
qed

text \<open>\<open>t\<close> is a text of the value \<open>v\<close>, wherever a value may stand.\<close>

definition reads :: "nat \<Rightarrow> bytes \<Rightarrow> json \<Rightarrow> bool" where
  "reads d t v \<longleftrightarrow>
     t \<noteq> [] \<and> hd t \<notin> {32, 9, 10, 13, 93} \<and>
     (\<forall>rest. delimited rest \<longrightarrow> parseValue d (t @ rest) = Some (v, rest))"

lemma reads_lead: "reads d t v \<Longrightarrow> \<exists>c cs. t = c # cs \<and> c \<notin> {32, 9, 10, 13, 93}"
  by (cases t) (auto simp: reads_def)

lemma reads_skip: "reads d t v \<Longrightarrow> skipSpace (t @ rest) = t @ rest"
  using reads_lead [of d t v] by auto

lemma reads_parse: "reads d t v \<Longrightarrow> delimited rest \<Longrightarrow> parseValue d (t @ rest) = Some (v, rest)"
  by (simp add: reads_def)

lemma reads_string: "valid_utf8 s \<Longrightarrow> reads d (json_string s) (JString s)"
  unfolding reads_def using parseValue_string [of s d] by (simp add: json_string_def)

lemma reads_int: "reads d (json_int i) (JNumber (json_int i))"
proof -
  obtain c cs where c: "json_int i = c # cs" "c = 45 \<or> isDigit c" using json_int_lead by blast
  then have "c \<notin> {32, 9, 10, 13, 93}" by (auto simp: isDigit_def)
  then show ?thesis unfolding reads_def using parseValue_int [of _ d i] by (simp add: c(1))
qed

lemma parseElements_join:
  assumes "list_all2 (reads d) ts vs" "ts \<noteq> []"
  shows "parseElements d (join_on 44 ts @ 93 # rest) = Some (vs, rest)"
  using assms
proof (induction ts vs rule: list_all2_induct)
  case (Cons t ts v vs)
  note t = reads_parse [OF Cons(1)]
  show ?case
  proof (cases ts)
    case Nil
    then show ?thesis using Cons(2) t by (subst parseElements.simps) simp
  next
    case ts: (Cons t' ts')
    then obtain v' where v': "reads d t' v'" using Cons(2) by (auto simp: list_all2_Cons1)
    have sk: "skipSpace (join_on 44 ts @ 93 # rest) = join_on 44 ts @ 93 # rest"
      using reads_skip [OF v'] by (simp add: ts join_on_concat)
    have "join_on 44 (t # ts) @ 93 # rest = t @ 44 # join_on 44 ts @ 93 # rest"
      by (simp add: ts join_on_concat)
    then show ?thesis
      using t [of "44 # join_on 44 ts @ 93 # rest"] Cons(3) ts sk
      by (subst parseElements.simps) simp
  qed
qed simp

lemma reads_array:
  assumes "list_all2 (reads d) ts vs"
  shows "reads (Suc d) (json_array ts) (JArray vs)"
proof (cases ts)
  case Nil
  with assms show ?thesis by (simp add: reads_def json_array_def)
next
  case (Cons t ts')
  then obtain v where "reads d t v" using assms by (auto simp: list_all2_Cons1)
  from reads_lead [OF this] obtain c cs where c: "t = c # cs" "c \<notin> {32, 9, 10, 13, 93}" by blast
  have j: "\<exists>ds. join_on 44 ts @ 93 # rest = c # ds" for rest by (simp add: Cons c join_on_concat)
  have "parseValue (Suc d) (json_array ts @ rest) = Some (JArray vs, rest)" for rest
    using parseElements_join [OF assms, of rest] j [of rest] c(2) Cons by (auto simp: json_array_def)
  then show ?thesis by (simp add: reads_def json_array_def)
qed

definition member_text :: "string \<times> bytes \<Rightarrow> bytes" where
  "member_text = (\<lambda>(k, v). json_string (bytes_of k) @ 58 # v)"

lemma parseMembers_join:
  assumes "list_all2 (\<lambda>(k, t) (k', v). k' = bytes_of k \<and> valid_utf8 k' \<and> reads d t v) kts kvs" "kts \<noteq> []"
  shows "parseMembers d (join_on 44 (map member_text kts) @ 125 # rest) = Some (kvs, rest)"
  using assms
proof (induction kts kvs rule: list_all2_induct)
  case (Cons kt kts kv kvs)
  obtain k t v where kt: "kt = (k, t)" "kv = (bytes_of k, v)" "valid_utf8 (bytes_of k)" "reads d t v"
    using Cons(1) by (cases kt; cases kv) auto
  have one: "parseMembers d (member_text kt @ c # more) =
      (if c = 125 then Some ([kv], more)
       else if c = 44 then map_option (map_prod ((#) kv) id) (parseMembers d (skipSpace more)) else None)"
    if "c = 125 \<or> c = 44" for c more
  proof -
    have "unquote (jsonEscape (bytes_of k) @ 34 # 58 # t @ c # more) =
        Some (bytes_of k, 58 # t @ c # more)"
      by (rule unquote_jsonEscape [OF kt(3)])
    moreover have "parseValue d (t @ c # more) = Some (v, c # more)"
      by (rule reads_parse [OF kt(4)]) (use that in auto)
    ultimately show ?thesis
      using that reads_skip [OF kt(4)] by (auto simp: member_text_def kt json_string_def)
  qed
  show ?case
  proof (cases kts)
    case Nil
    then show ?thesis using Cons(2) one [of 125 rest] by simp
  next
    case ks: (Cons kt' kts')
    have "skipSpace (join_on 44 (map member_text kts) @ 125 # rest) =
        join_on 44 (map member_text kts) @ 125 # rest"
      by (simp add: ks join_on_concat member_text_def json_string_def split_beta)
    moreover have "join_on 44 (map member_text (kt # kts)) @ 125 # rest =
        member_text kt @ 44 # join_on 44 (map member_text kts) @ 125 # rest"
      by (simp add: ks join_on_concat)
    ultimately show ?thesis
      using one [of 44 "join_on 44 (map member_text kts) @ 125 # rest"] Cons(3) ks by simp
  qed
qed simp

lemma parseDocument_object:
  assumes "list_all2 (\<lambda>(k, t) (k', v). k' = bytes_of k \<and> valid_utf8 k' \<and> reads 9999 t v) kts kvs" "kts \<noteq> []"
  shows "parseDocument (json_object kts) = Inr (JObject kvs)"
proof -
  have t: "json_object kts = 123 # join_on 44 (map member_text kts) @ [125]"
    by (simp add: json_object_def member_text_def)
  obtain ds where ds: "join_on 44 (map member_text kts) @ [125] = 34 # ds"
    using assms(2) by (cases kts) (auto simp: join_on_concat member_text_def json_string_def split_beta)
  have "parseMembers 9999 (join_on 44 (map member_text kts) @ [125]) = Some (kvs, [])"
    by (rule parseMembers_join [OF assms])
  then show ?thesis by (simp add: parseDocument_def maxNestingDepth_def t ds)
qed

lemma storeElements_strings:
  "storeElements (map (\<lambda>t. JString (bytes_of t)) ts) [] = Inr ts"
  by (induction ts) (simp_all add: storeString_def)

lemma store_OpenPacket_fields:
  "store_OpenPacket (bytes_of ''sid'') v p = map_sum id (\<lambda>s. p\<lparr>SessionID := s\<rparr>) (storeString v (SessionID p))"
  "store_OpenPacket (bytes_of ''upgrades'') v p = map_sum id (\<lambda>ts. p\<lparr>Upgrades := ts\<rparr>) (storeStrings v (Upgrades p))"
  "store_OpenPacket (bytes_of ''pingInterval'') v p = map_sum id (\<lambda>n. p\<lparr>PingInterval := n\<rparr>) (storeInt v (PingInterval p))"
  "store_OpenPacket (bytes_of ''pingTimeout'') v p = map_sum id (\<lambda>n. p\<lparr>PingTimeout := n\<rparr>) (storeInt v (PingTimeout p))"
  "store_OpenPacket (bytes_of ''maxPayload'') v p = map_sum id (\<lambda>n. p\<lparr>MaxPayload := n\<rparr>) (storeInt v (MaxPayload p))"
  by (simp_all add: store_OpenPacket_def fieldFor_def bytes_of_inj)

lemma valid_utf8_names: "s \<in> {''sid'', ''upgrades'', ''pingInterval'', ''pingTimeout'', ''maxPayload''} \<Longrightarrow> valid_utf8 (bytes_of s)"
  by (rule conjunct1 [OF valid_utf8_ascii]) (auto simp: bytes_of_def)

lemma storeInt_json_int: "fits_int i \<Longrightarrow> storeInt (JNumber (json_int i)) old = Inr i"
  using Atoi_json_int [of i] by (simp add: fits_int_def storeInt_def)

text \<open>The open packet the server marshals is the one the client unmarshals.\<close>

lemma open_packet_json_round_trip:
  assumes "valid_utf8 (bytes_of (SessionID p))"
    and "\<And>t. t \<in> set (Upgrades p) \<Longrightarrow> valid_utf8 (bytes_of t)"
    and "fits_int (PingInterval p)" "fits_int (PingTimeout p)" "fits_int (MaxPayload p)"
  shows "\<exists>data. json_Marshal_OpenPacket p = Inr data \<and> json_Unmarshal_OpenPacket data = Inr p"
proof -
  let ?ts = "map (\<lambda>t. json_string (bytes_of t)) (Upgrades p)"
  let ?kts = "[(''sid'', json_string (bytes_of (SessionID p))), (''upgrades'', json_array ?ts),
    (''pingInterval'', json_int (PingInterval p)), (''pingTimeout'', json_int (PingTimeout p)),
    (''maxPayload'', json_int (MaxPayload p))]"
  let ?kvs = "[(bytes_of ''sid'', JString (bytes_of (SessionID p))),
    (bytes_of ''upgrades'', JArray (map (\<lambda>t. JString (bytes_of t)) (Upgrades p))),
    (bytes_of ''pingInterval'', JNumber (json_int (PingInterval p))),
    (bytes_of ''pingTimeout'', JNumber (json_int (PingTimeout p))),
    (bytes_of ''maxPayload'', JNumber (json_int (MaxPayload p)))]"
  have "list_all2 (reads 9998) ?ts (map (\<lambda>t. JString (bytes_of t)) (Upgrades p))"
    using assms(2) by (simp add: list.rel_map list_all2_same reads_string)
  then have "reads 9999 (json_array ?ts) (JArray (map (\<lambda>t. JString (bytes_of t)) (Upgrades p)))"
    using reads_array [of 9998] by simp
  then have "parseDocument (json_object ?kts) = Inr (JObject ?kvs)"
    using assms(1) by (intro parseDocument_object) (simp_all add: reads_string reads_int valid_utf8_names)
  then have "json_Unmarshal_OpenPacket (json_object ?kts) = Inr p"
    using assms(3-) by (simp add: json_Unmarshal_OpenPacket_def unmarshal_def store_OpenPacket_fields
      storeInt_json_int storeElements_strings storeStrings_def storeString_def zero_OpenPacket_def)
  then show ?thesis by (simp add: json_Marshal_OpenPacket_def)
qed

text \<open>The same for the packet that asks for a WebTransport upgrade.\<close>

lemma sid_json_round_trip:
  assumes "valid_utf8 (bytes_of sid)"
  shows "\<exists>data. json_Marshal_sid sid = Inr data \<and> json_Unmarshal_sid data = Inr sid"
proof -
  have "parseDocument (json_object [(''sid'', json_string (bytes_of sid))]) =
      Inr (JObject [(bytes_of ''sid'', JString (bytes_of sid))])"
    using assms by (intro parseDocument_object) (simp_all add: reads_string valid_utf8_names)
  then show ?thesis
    by (simp add: json_Marshal_sid_def json_Unmarshal_sid_def unmarshal_def store_sid_def fieldFor_def
        storeString_def)
qed

end
