(* ===== verification/Server.thy ===== *)
theory Server
  imports ServerReadLoop JsonDecode
begin

text \<open>
  The HTTP side of the server (\<^verbatim>\<open>server.go\<close>, and the WebTransport handlers of
  \<^verbatim>\<open>server_transport_webtransport.go\<close>). A request is served by a function of the server, the request
  and its response; the random bytes a session id is drawn from are an argument. A long poll that is
  held stops at the \<^verbatim>\<open>select\<close> of \<^verbatim>\<open>handlePoll\<close>; its two cases are definitions of their own. A request
  that hands its connection to a transport ends when the read loop of \<^verbatim>\<open>ServerReadLoop\<close> takes over.

  What is not under the repository is a parameter: the \<open>platform\<close> compresses, and accepts WebSocket
  and WebTransport connections.
\<close>

text \<open>A WebTransport session a client opened: its first stream, and whether deadlines can be set.\<close>

record wtSession =
  AcceptStream :: "error + Reader"
  SetReadDeadline :: "error option"
  ClearReadDeadline :: "error option"

record platform =
  gzip_Compress :: "bytes \<Rightarrow> error + bytes"
  websocket_Accept :: "Request \<Rightarrow> bool \<Rightarrow> string list \<Rightarrow> error option"
  wt_Upgrade :: "Request \<Rightarrow> error + wtSession"

record Server =
  srv_options :: serverConfig
  onConnection :: bool
  onConnectionError :: bool

text \<open>
  How serving a request ends: with a response; waiting in a held poll; with a connection that a
  transport now reads, and the response that opened it; with a connection that was refused and is closed; with a response the library
  wrote; with a panic.
\<close>

datatype outcome =
    Responded ResponseWriter
  | Held sref tref chan ResponseWriter
  | Serving tref ResponseWriter
  | Refused string
  | AcceptFailed
  | Panicked

section \<open>Error codes\<close>

type_synonym ConnectionErrorCode = int

definition ConnectionErrorUnknownTransport :: ConnectionErrorCode where
  "ConnectionErrorUnknownTransport = 0"
definition ConnectionErrorUnknownSessionID :: ConnectionErrorCode where
  "ConnectionErrorUnknownSessionID = 1"
definition ConnectionErrorBadHandshakeMethod :: ConnectionErrorCode where
  "ConnectionErrorBadHandshakeMethod = 2"
definition ConnectionErrorBadRequest :: ConnectionErrorCode where
  "ConnectionErrorBadRequest = 3"
definition ConnectionErrorForbidden :: ConnectionErrorCode where
  "ConnectionErrorForbidden = 4"
definition ConnectionErrorUnsupportedProtocolVersion :: ConnectionErrorCode where
  "ConnectionErrorUnsupportedProtocolVersion = 5"

definition message :: "ConnectionErrorCode \<Rightarrow> string" where
  "message c =
     (if c = ConnectionErrorUnknownTransport then ''Transport unknown''
      else if c = ConnectionErrorUnknownSessionID then ''Session ID unknown''
      else if c = ConnectionErrorBadHandshakeMethod then ''Bad handshake method''
      else if c = ConnectionErrorBadRequest then ''Bad request''
      else if c = ConnectionErrorForbidden then ''Forbidden''
      else if c = ConnectionErrorUnsupportedProtocolVersion then ''Unsupported protocol version''
      else ''Bad request'')"

definition status :: "ConnectionErrorCode \<Rightarrow> int" where
  "status c = (if c = ConnectionErrorForbidden then 403 else 400)"

text \<open>\<^verbatim>\<open>http.Error\<close>, for a body that cannot be marshalled.\<close>

definition http_Error :: "string \<Rightarrow> int \<Rightarrow> ResponseWriter \<Rightarrow> ResponseWriter" where
  "http_Error msg code resp =
     snd (resp_Write (bytes_of (msg @ [CHR 0x0A]))
       (resp_WriteHeader code (resp_Set ''X-Content-Type-Options'' ''nosniff''
         (resp_Set ''Content-Type'' ''text/plain; charset=utf-8'' resp))))"

definition writeServerError :: "ConnectionErrorCode \<Rightarrow> ResponseWriter \<Rightarrow> ResponseWriter" where
  "writeServerError code resp =
     (case json_Marshal_error code (message code) of
        Inl err \<Rightarrow> http_Error (message code) (status code) resp
      | Inr body \<Rightarrow>
          snd (resp_Write body (resp_WriteHeader (status code)
            (resp_Set ''Content-Type'' ''application/json'' resp))))"

section \<open>Construction and handlers\<close>

definition NewServer :: "ServerOption list \<Rightarrow> Server" where
  "NewServer opts =
     \<lparr>srv_options = fold (\<lambda>f c. f c) opts defaultServerConfig, onConnection = False,
      onConnectionError = False\<rparr>"

text \<open>
  The state before the first request. References that are not allocated read as a closed session and
  a closed transport.
\<close>

definition emptyWorld :: "serverConfig \<Rightarrow> world" where
  "emptyWorld cfg =
     \<lparr>sessions = newSessionStore, sockets = (\<lambda>_. torn_down (newServerSocket [] cfg 0)),
      heap = (\<lambda>_. PollingT \<lparr>pt_closed = True, dataCh = None\<rparr>), deliveries = [], closedStops = [],
      noopLoops = [], due = [], trace = [], nextRef = 0, panicked = False\<rparr>"

definition OnConnection :: "bool \<Rightarrow> Server \<Rightarrow> Server" where
  "OnConnection handler S = S\<lparr>onConnection := handler\<rparr>"

definition OnConnectionError :: "bool \<Rightarrow> Server \<Rightarrow> Server" where
  "OnConnectionError handler S = S\<lparr>onConnectionError := handler\<rparr>"

text \<open>The reason of a rejection: the error of the gate, or the message of the code.\<close>

definition report :: "Server \<Rightarrow> Request \<Rightarrow> ConnectionErrorCode \<Rightarrow> error option \<Rightarrow> world \<Rightarrow> world" where
  "report S r code reason w =
     (if onConnectionError S then w\<lparr>trace := trace w @ [ConnectionError r code reason]\<rparr> else w)"

definition rejectConnection ::
  "Server \<Rightarrow> ResponseWriter \<Rightarrow> Request \<Rightarrow> ConnectionErrorCode \<Rightarrow> error option \<Rightarrow> world \<Rightarrow> outcome \<times> world" where
  "rejectConnection S resp r code reason w =
     (Responded (writeServerError code resp), report S r code reason w)"

definition connected :: "Server \<Rightarrow> sref \<Rightarrow> world \<Rightarrow> world" where
  "connected S s w = (if onConnection S then w\<lparr>trace := trace w @ [Connected s]\<rparr> else w)"

text \<open>\<open>None\<close> if the request may go on, else how it was rejected.\<close>

definition allowHandshake ::
  "Server \<Rightarrow> ResponseWriter \<Rightarrow> Request \<Rightarrow> world \<Rightarrow> (outcome \<times> world) option" where
  "allowHandshake S resp r w =
     (case allowRequest (srv_options S) of
        None \<Rightarrow> None
      | Some gate \<Rightarrow>
          (case gate r of
             None \<Rightarrow> None
           | Some err \<Rightarrow> Some (rejectConnection S resp r ConnectionErrorForbidden (Some err) w)))"

definition setSessionCookie :: "Server \<Rightarrow> string \<Rightarrow> ResponseWriter \<Rightarrow> ResponseWriter" where
  "setSessionCookie S sid resp =
     (case cookie (srv_options S) of
        None \<Rightarrow> resp
      | Some c \<Rightarrow>
          SetCookie \<lparr>cookie_Name = co_Name c, cookie_Value = sid, cookie_Path = co_Path c,
            cookie_HttpOnly = co_HTTPOnly c, cookie_Secure = co_Secure c,
            cookie_SameSite = co_SameSite c, cookie_MaxAge = co_MaxAge c\<rparr> resp)"

definition pollCompressionThreshold :: nat where
  "pollCompressionThreshold = 1024"

definition writePollHeaders :: "ResponseWriter \<Rightarrow> ResponseWriter" where
  "writePollHeaders resp =
     resp_Set ''Cache-Control'' ''no-store'' (resp_Set ''Content-Type'' ''text/plain; charset=UTF-8'' resp)"

definition writePollResponse ::
  "platform \<Rightarrow> Server \<Rightarrow> ResponseWriter \<Rightarrow> Request \<Rightarrow> bytes \<Rightarrow> error option \<times> ResponseWriter" where
  "writePollResponse P S resp r payload =
     (let resp = writePollHeaders resp
      in if httpCompression (srv_options S) \<and> pollCompressionThreshold \<le> length payload \<and> acceptsGzip r
         then (case gzip_Compress P payload of
                 Inl err \<Rightarrow> (Some err, resp)
               | Inr buffer \<Rightarrow> resp_Write buffer (resp_Set ''Content-Encoding'' ''gzip'' resp))
         else resp_Write payload resp)"

section \<open>The registry\<close>

definition Server_Close :: "world \<Rightarrow> world" where
  "Server_Close w = fold (\<lambda>s. closeWithReason s ''forced close'' None) (store_all (sessions w)) w"

definition Sockets :: "world \<Rightarrow> sref list" where
  "Sockets w = store_all (sessions w)"

definition Count :: "world \<Rightarrow> nat" where
  "Count w = store_count (sessions w)"

definition Socket_by_id :: "string \<Rightarrow> world \<Rightarrow> sref option" where
  "Socket_by_id sid w = store_get (sessions w) sid"

section \<open>Cross-origin requests\<close>

definition allowsAllOrigins :: "Server \<Rightarrow> bool" where
  "allowsAllOrigins S =
     (AllowedOrigins (cors (srv_options S)) = [] \<or> ''*'' \<in> set (AllowedOrigins (cors (srv_options S))))"

definition allowOrigin :: "Server \<Rightarrow> string \<Rightarrow> string" where
  "allowOrigin S origin =
     (if allowsAllOrigins S then
        (if AllowCredentials (cors (srv_options S)) \<and> origin \<noteq> '''' then origin else ''*'')
      else if origin \<noteq> '''' \<and> origin \<in> set (AllowedOrigins (cors (srv_options S))) then origin
      else '''')"

definition applyCORS :: "Server \<Rightarrow> ResponseWriter \<Rightarrow> Request \<Rightarrow> bool \<times> ResponseWriter" where
  "applyCORS S resp r =
     (let c = cors (srv_options S);
          allow = allowOrigin S (header_Get (ReqHeader r) ''Origin'');
          resp = (if allow \<noteq> '''' then
                    (let resp = resp_Set ''Access-Control-Allow-Origin'' allow resp;
                         resp = (if allow \<noteq> ''*'' then resp_Add ''Vary'' ''Origin'' resp else resp)
                     in if AllowCredentials c
                        then resp_Set ''Access-Control-Allow-Credentials'' ''true'' resp else resp)
                  else resp)
      in if Method r = ''OPTIONS'' then
           (let allowedHeaders = (if AllowedHeaders c = [] then [''Content-Type''] else AllowedHeaders c);
                resp = resp_Set ''Access-Control-Allow-Methods'' ''GET, POST, OPTIONS'' resp;
                resp = resp_Set ''Access-Control-Allow-Headers'' (strings_Join allowedHeaders '', '') resp
            in (True, resp_WriteHeader 204 resp))
         else (False, resp))"

section \<open>Long polling\<close>

text \<open>
  A new session and its transport are allocated at the next two references of the heap, the
  transport first.
\<close>

definition allocate :: "serverTransport \<Rightarrow> ServerSocket \<Rightarrow> world \<Rightarrow> world" where
  "allocate t sk w =
     w\<lparr>heap := (heap w)(nextRef w := t), sockets := (sockets w)(Suc (nextRef w) := sk),
       nextRef := Suc (Suc (nextRef w))\<rparr>"

definition handleHandshake ::
  "Server \<Rightarrow> bytes \<Rightarrow> ResponseWriter \<Rightarrow> Request \<Rightarrow> world \<Rightarrow> outcome \<times> world" where
  "handleHandshake S rnd resp r w =
     (case allowHandshake S resp r w of
        Some rejected \<Rightarrow> rejected
      | None \<Rightarrow>
          (let sid = generateID (srv_options S) r rnd;
               resp = setSessionCookie S sid resp;
               polling = nextRef w;
               socket = Suc polling;
               w = allocate (PollingT newServerPollingTransport)
                     (newServerSocket sid (srv_options S) polling) w
           in case buildOpenPacket (srv_options S) sid True of
                Inl err \<Rightarrow> (Responded (writeServerError ConnectionErrorBadRequest resp), w)
              | Inr open' \<Rightarrow>
                  (let w = w\<lparr>sessions := store_put sid socket (sessions w)\<rparr>;
                       resp = resp_WriteHeader 200 (writePollHeaders resp)
                   in case resp_Write (EncodePayload [open']) resp of
                        (Some err, resp) \<Rightarrow>
                          (Responded resp, w\<lparr>sessions := store_delete sid (sessions w)\<rparr>)
                      | (None, resp) \<Rightarrow>
                          (Responded resp, connected S socket (ServerSocket_open socket w)))))"

text \<open>Up to the \<^verbatim>\<open>select\<close>; then the case of a payload, and the case of a request that is cancelled.\<close>

definition handlePoll ::
  "network \<Rightarrow> ResponseWriter \<Rightarrow> sref \<Rightarrow> tref \<Rightarrow> serverPollingTransport \<Rightarrow> world \<Rightarrow> outcome \<times> world" where
  "handlePoll N resp s tr t w =
     (let channel = nextRef w; w = w\<lparr>nextRef := Suc channel\<rparr>
      in case polling_hold t channel of
           (Some err, _) \<Rightarrow>
             if errors_Is err errPollOverlap
             then (Responded (writeServerError ConnectionErrorBadRequest resp),
                   closeWithReason s ''transport error'' None w)
             else (Responded (writeServerError ConnectionErrorUnknownSessionID resp), w)
         | (None, t') \<Rightarrow> (Held s tr channel resp, flush N s (upd_heap tr (PollingT t') w)))"

definition handlePoll_deliver ::
  "platform \<Rightarrow> Server \<Rightarrow> ResponseWriter \<Rightarrow> Request \<Rightarrow> sref \<Rightarrow> bytes \<Rightarrow> world \<Rightarrow> outcome \<times> world" where
  "handlePoll_deliver P S resp r s buffer w =
     (case writePollResponse P S resp r buffer of
        (Some err, resp) \<Rightarrow> (Responded resp, closeWithReason s ''transport error'' (Some err) w)
      | (None, resp) \<Rightarrow> (Responded resp, w))"

definition handlePoll_cancel ::
  "ResponseWriter \<Rightarrow> sref \<Rightarrow> tref \<Rightarrow> chan \<Rightarrow> error \<Rightarrow> world \<Rightarrow> outcome \<times> world" where
  "handlePoll_cancel resp s tr channel err w =
     (let w = (case heap w tr of
                 PollingT t \<Rightarrow> upd_heap tr (PollingT (snd (polling_release t channel))) w
               | _ \<Rightarrow> w)
      in (Responded resp, closeWithReason s ''transport close'' (Some err) w))"

definition handleSend ::
  "Server \<Rightarrow> ResponseWriter \<Rightarrow> Request \<Rightarrow> sref \<Rightarrow> world \<Rightarrow> outcome \<times> world" where
  "handleSend S resp r s w =
     (let ok = (\<lambda>w. (Responded (snd (resp_Write (bytes_of ''ok'')
             (resp_WriteHeader 200 (resp_Set ''Content-Type'' ''text/html'' resp)))), w))
      in if HasPrefix (header_Get (ReqHeader r) ''Content-Type'') ''application/octet-stream''
         then (Responded (writeServerError ConnectionErrorBadRequest resp),
               closeWithReason s ''transport error'' None w)
         else
           (case readLimited (Body r) (wrap64 (maxPayload (srv_options S) + 1)) of
              Inl err \<Rightarrow> (Responded (writeServerError ConnectionErrorBadRequest resp), w)
            | Inr body \<Rightarrow>
                if maxPayload (srv_options S) < int (length body)
                then (Responded (resp_WriteHeader 413 resp), w)
                else if body = [] then ok w
                else
                  (case DecodePayload ProtocolVersion4 body of
                     Inl (Panic _) \<Rightarrow> (Panicked, w\<lparr>panicked := True\<rparr>)
                   | Inl (Error err) \<Rightarrow>
                       (Responded (writeServerError ConnectionErrorBadRequest resp),
                        closeWithReason s ''parse error'' (Some err) w)
                   | Inr packets \<Rightarrow> ok (fold (handlePacket s) packets w))))"

definition handlePolling ::
  "network \<Rightarrow> Server \<Rightarrow> bytes \<Rightarrow> ResponseWriter \<Rightarrow> Request \<Rightarrow> string \<Rightarrow> world \<Rightarrow> outcome \<times> world" where
  "handlePolling N S rnd resp r sid w =
     (if sid = '''' then
        (if Method r \<noteq> ''GET''
         then rejectConnection S resp r ConnectionErrorBadHandshakeMethod None w
         else handleHandshake S rnd resp r w)
      else
        (case store_get (sessions w) sid of
           None \<Rightarrow> rejectConnection S resp r ConnectionErrorUnknownSessionID None w
         | Some s \<Rightarrow>
             if Method r = ''GET'' then
               (case activePollingTransport s w of
                  Some tr \<Rightarrow>
                    (case heap w tr of
                       PollingT t \<Rightarrow> handlePoll N resp s tr t w
                     | _ \<Rightarrow> (Responded (writeServerError ConnectionErrorBadRequest resp), w))
                | None \<Rightarrow> (Responded (writeServerError ConnectionErrorBadRequest resp), w))
             else if Method r = ''POST'' then handleSend S resp r s w
             else (Responded (writeServerError ConnectionErrorBadRequest resp), w)))"

section \<open>WebSocket and WebTransport\<close>

text \<open>
  A fresh session on a transport of its own, once the connection is there; \<open>t\<close> is the transport for
  a given session reference. The two sources of this are the same but for the transport.
\<close>

definition startSession ::
  "network \<Rightarrow> Server \<Rightarrow> ResponseWriter \<Rightarrow> (sref \<Rightarrow> serverTransport) \<Rightarrow> string \<Rightarrow> string \<Rightarrow> world \<Rightarrow>
     outcome \<times> world" where
  "startSession N S resp t sid refusal w =
     (let tr = nextRef w;
          socket = Suc tr;
          w = allocate (t socket) (newServerSocket sid (srv_options S) tr) w
      in case buildOpenPacket (srv_options S) sid False of
           Inl err \<Rightarrow> (Refused refusal, w)
         | Inr open' \<Rightarrow>
             (let w = w\<lparr>sessions := store_put sid socket (sessions w)\<rparr>
              in case transport_send N tr [open'] w of
                   ((_, Some err), w) \<Rightarrow>
                     (Refused '''', transport_close tr (w\<lparr>sessions := store_delete sid (sessions w)\<rparr>))
                 | ((_, None), w) \<Rightarrow>
                     (Serving tr resp, connected S socket (ServerSocket_open socket w))))"

definition handleWebSocketHandshake ::
  "network \<Rightarrow> Server \<Rightarrow> ResponseWriter \<Rightarrow> string \<Rightarrow> world \<Rightarrow> outcome \<times> world" where
  "handleWebSocketHandshake N S resp sid w =
     startSession N S resp (\<lambda>socket. WebSocketT (newServerWebSocketTransport socket False)) sid
       ''handshake failed'' w"

definition startProbe ::
  "ResponseWriter \<Rightarrow> (sref \<Rightarrow> serverTransport) \<Rightarrow> string \<Rightarrow> string \<Rightarrow> world \<Rightarrow> outcome \<times> world" where
  "startProbe resp t sid refusal w =
     (case store_get (sessions w) sid of
        None \<Rightarrow> (Refused refusal, w)
      | Some s \<Rightarrow>
          (let tr = nextRef w;
               w = upd_heap tr (t s) (w\<lparr>nextRef := Suc tr\<rparr>)
           in case startUpgrade s tr w of
                (False, w) \<Rightarrow> (Refused '''', transport_close tr w)
              | (True, w) \<Rightarrow> (Serving tr resp, w)))"

definition handleWebSocketUpgrade :: "ResponseWriter \<Rightarrow> string \<Rightarrow> world \<Rightarrow> outcome \<times> world" where
  "handleWebSocketUpgrade resp sid w =
     startProbe resp (\<lambda>socket. WebSocketT (newServerWebSocketTransport socket True)) sid
       ''Session ID unknown'' w"

definition handleWebSocket ::
  "platform \<Rightarrow> network \<Rightarrow> Server \<Rightarrow> bytes \<Rightarrow> ResponseWriter \<Rightarrow> Request \<Rightarrow> string \<Rightarrow> world \<Rightarrow> outcome \<times> world" where
  "handleWebSocket P N S rnd resp r sid w =
     (case (if sid = '''' then allowHandshake S resp r w else None) of
        Some rejected \<Rightarrow> rejected
      | None \<Rightarrow>
          (let fresh = generateID (srv_options S) r rnd;
               resp = (if sid = '''' then setSessionCookie S fresh resp else resp);
               insecureSkipVerify = allowsAllOrigins S;
               originPatterns = (if insecureSkipVerify then [] else AllowedOrigins (cors (srv_options S)))
           in case websocket_Accept P r insecureSkipVerify originPatterns of
                Some err \<Rightarrow> (AcceptFailed, w)
              | None \<Rightarrow>
                  if sid = '''' then handleWebSocketHandshake N S resp fresh w
                  else handleWebSocketUpgrade resp sid w))"

definition parseWebTransportSessionID :: "bytes \<Rightarrow> error + string" where
  "parseWebTransportSessionID data =
     (case json_Unmarshal_sid data of
        Inl err \<Rightarrow> Inl (Errorf ''parsing webtransport session id: %w'' [] [err])
      | Inr sid \<Rightarrow> if sid = '''' then Inl errWebTransportMissingSessionID else Inr sid)"

definition webTransportHandshake ::
  "network \<Rightarrow> Server \<Rightarrow> bytes \<Rightarrow> ResponseWriter \<Rightarrow> Request \<Rightarrow> Reader \<Rightarrow> world \<Rightarrow> outcome \<times> world" where
  "webTransportHandshake N S rnd resp r reader w =
     (case (case allowRequest (srv_options S) of None \<Rightarrow> None | Some gate \<Rightarrow> gate r) of
        Some err \<Rightarrow> (Refused '''', report S r ConnectionErrorForbidden (Some err) w)
      | None \<Rightarrow>
          startSession N S resp (\<lambda>socket. WebTransportT (newServerWebTransportTransport socket reader False))
            (generateID (srv_options S) r rnd) '''' w)"

definition webTransportUpgrade_session :: "ResponseWriter \<Rightarrow> Reader \<Rightarrow> string \<Rightarrow> world \<Rightarrow> outcome \<times> world" where
  "webTransportUpgrade_session resp reader sid w =
     startProbe resp (\<lambda>socket. WebTransportT (newServerWebTransportTransport socket reader True)) sid '''' w"

definition serveWebTransport ::
  "platform \<Rightarrow> network \<Rightarrow> Server \<Rightarrow> bytes \<Rightarrow> ResponseWriter \<Rightarrow> Request \<Rightarrow> world \<Rightarrow> outcome \<times> world" where
  "serveWebTransport P N S rnd resp r w =
     (case wt_Upgrade P r of
        Inl err \<Rightarrow> (Responded (resp_WriteHeader 400 resp), w)
      | Inr session \<Rightarrow>
          (case (AcceptStream session, SetReadDeadline session) of
             (Inl err, _) \<Rightarrow> (Refused '''', w)
           | (_, Some err) \<Rightarrow> (Refused '''', w)
           | (Inr stream, None) \<Rightarrow>
               (case readWebTransportPacket stream
                       (webTransportServerReadLimit (maxPayload (srv_options S))) of
                  (Inl (Panic _), _) \<Rightarrow> (Panicked, w\<lparr>panicked := True\<rparr>)
                | (Inl (Error err), _) \<Rightarrow> (Refused '''', w)
                | (Inr first, reader) \<Rightarrow>
                    if Type first \<noteq> PacketOpen then (Refused '''', w)
                    else if ClearReadDeadline session \<noteq> None then (Refused '''', w)
                    else if Data first = [] then webTransportHandshake N S rnd resp r reader w
                    else
                      (case parseWebTransportSessionID (Data first) of
                         Inl err \<Rightarrow> (Refused '''', w)
                       | Inr sid \<Rightarrow> webTransportUpgrade_session resp reader sid w))))"

section \<open>The handler\<close>

definition webTransportProtocol :: string where
  "webTransportProtocol = ''webtransport''"

definition ServeHTTP ::
  "platform \<Rightarrow> network \<Rightarrow> Server \<Rightarrow> bytes \<Rightarrow> ResponseWriter \<Rightarrow> Request \<Rightarrow> world \<Rightarrow> outcome \<times> world" where
  "ServeHTTP P N S rnd resp r w =
     (case applyCORS S resp r of
        (True, resp) \<Rightarrow> (Responded resp, w)
      | (False, resp) \<Rightarrow>
          if Method r = ''CONNECT'' \<and> Proto r = webTransportProtocol then
            (if \<not> webTransportUpgrade (srv_options S) \<or>
                \<not> allowsTransport (srv_options S) TransportTypeWebTransport
             then rejectConnection S resp r ConnectionErrorUnknownTransport None w
             else serveWebTransport P N S rnd resp r w)
          else
            (let query = parseQuery (RawQuery r)
             in if values_Get query ''EIO'' \<noteq> ''4''
                then rejectConnection S resp r ConnectionErrorUnsupportedProtocolVersion None w
                else
                  (let transport = values_Get query ''transport''
                   in if \<not> allowsTransport (srv_options S) transport
                      then rejectConnection S resp r ConnectionErrorUnknownTransport None w
                      else
                        (let sid = values_Get query ''sid''
                         in if transport = TransportTypeWebSocket
                            then handleWebSocket P N S rnd resp r sid w
                            else if transport = TransportTypePolling
                            then handlePolling N S rnd resp r sid w
                            else rejectConnection S resp r ConnectionErrorUnknownTransport None w))))"

end
