(* ===== verification/SessionInvariant.thy ===== *)
theory SessionInvariant
  imports ServerSocket
begin

text \<open>
  The invariant of one session, that its fields fit together, with a preservation lemma for each
  operation.
\<close>

section \<open>The invariant of one session\<close>

definition close_packet :: Packet where
  "close_packet = text_packet PacketClose []"

definition wf_buffer :: "ServerSocket \<Rightarrow> bool" where
  "wf_buffer sk \<longleftrightarrow>
     (transport sk = None \<longleftrightarrow> state sk = sessionClosed) \<and>
     (state sk = sessionClosed \<longrightarrow> writeBuffer sk = []) \<and>
     (state sk = sessionClosing \<longrightarrow> (\<exists>ps. writeBuffer sk = ps @ [close_packet]))"

definition wf_upgrade :: "ServerSocket \<Rightarrow> bool" where
  "wf_upgrade sk \<longleftrightarrow>
     (upgrading sk \<longrightarrow> state sk \<in> {sessionOpen, sessionClosing}) \<and>
     (upgradeTransport sk = None \<longleftrightarrow> \<not> upgrading sk) \<and>
     (probeNoopStop sk \<noteq> None \<longrightarrow> upgrading sk) \<and>
     (\<forall>t tr. upgradeTimer sk = Some (t, tr) \<longrightarrow> upgradeTransport sk = Some tr)"

definition wf_timers :: "ServerSocket \<Rightarrow> bool" where
  "wf_timers sk \<longleftrightarrow>
     (pingTimer sk \<noteq> None \<longrightarrow> state sk = sessionOpen) \<and>
     (pongTimer sk \<noteq> None \<longrightarrow> state sk = sessionOpen) \<and>
     (closeTimer sk \<noteq> None \<longrightarrow> state sk = sessionClosing)"

definition wf_socket :: "ServerSocket \<Rightarrow> bool" where
  "wf_socket sk \<longleftrightarrow> wf_buffer sk \<and> wf_upgrade sk \<and> wf_timers sk"

lemma wf_buffer_upd [simp]:
  "wf_buffer (sk\<lparr>upgradeTransport := a\<rparr>) = wf_buffer sk" "wf_buffer (sk\<lparr>upgrading := b\<rparr>) = wf_buffer sk"
  "wf_buffer (sk\<lparr>pingTimer := c\<rparr>) = wf_buffer sk" "wf_buffer (sk\<lparr>pongTimer := c\<rparr>) = wf_buffer sk"
  "wf_buffer (sk\<lparr>upgradeTimer := d\<rparr>) = wf_buffer sk" "wf_buffer (sk\<lparr>closeTimer := c\<rparr>) = wf_buffer sk"
  "wf_buffer (sk\<lparr>probeNoopStop := e\<rparr>) = wf_buffer sk" "wf_buffer (sk\<lparr>onMessageHandler := b\<rparr>) = wf_buffer sk"
  "wf_buffer (sk\<lparr>onCloseHandler := b\<rparr>) = wf_buffer sk"
  by (simp_all add: wf_buffer_def)

lemma wf_upgrade_upd [simp]:
  "wf_upgrade (sk\<lparr>transport := a\<rparr>) = wf_upgrade sk" "wf_upgrade (sk\<lparr>writeBuffer := b\<rparr>) = wf_upgrade sk"
  "wf_upgrade (sk\<lparr>pingTimer := c\<rparr>) = wf_upgrade sk" "wf_upgrade (sk\<lparr>pongTimer := c\<rparr>) = wf_upgrade sk"
  "wf_upgrade (sk\<lparr>closeTimer := c\<rparr>) = wf_upgrade sk" "wf_upgrade (sk\<lparr>onMessageHandler := d\<rparr>) = wf_upgrade sk"
  "wf_upgrade (sk\<lparr>onCloseHandler := d\<rparr>) = wf_upgrade sk"
  by (simp_all add: wf_upgrade_def)

lemma wf_timers_upd [simp]:
  "wf_timers (sk\<lparr>transport := a\<rparr>) = wf_timers sk" "wf_timers (sk\<lparr>writeBuffer := b\<rparr>) = wf_timers sk"
  "wf_timers (sk\<lparr>upgradeTransport := a\<rparr>) = wf_timers sk" "wf_timers (sk\<lparr>upgrading := d\<rparr>) = wf_timers sk"
  "wf_timers (sk\<lparr>upgradeTimer := e\<rparr>) = wf_timers sk" "wf_timers (sk\<lparr>probeNoopStop := f\<rparr>) = wf_timers sk"
  "wf_timers (sk\<lparr>onMessageHandler := d\<rparr>) = wf_timers sk" "wf_timers (sk\<lparr>onCloseHandler := d\<rparr>) = wf_timers sk"
  by (simp_all add: wf_timers_def)

lemmas wf_parts = wf_buffer_def wf_upgrade_def wf_timers_def

definition wf_sockets :: "world \<Rightarrow> bool" where
  "wf_sockets w \<longleftrightarrow> (\<forall>s. wf_socket (sockets w s))"

lemma wf_new: "wf_socket (newServerSocket sid cfg tr)"
  by (simp add: wf_socket_def wf_parts newServerSocket_def)

lemma wf_torn_down: "wf_socket (torn_down sk)"
  by (simp add: wf_socket_def wf_parts torn_down_def)

lemma wf_sockets_upd: "wf_sockets w \<Longrightarrow> wf_socket (f (sockets w s)) \<Longrightarrow> wf_sockets (upd_socket s f w)"
  by (simp add: wf_sockets_def)

lemma wf_sockets_cong: "sockets w' = sockets w \<Longrightarrow> wf_sockets w' = wf_sockets w"
  by (simp add: wf_sockets_def)

lemma wf_closeWithReason: "wf_sockets w \<Longrightarrow> wf_sockets (closeWithReason s reason cause w)"
  by (simp add: wf_sockets_def closeWithReason_sockets wf_torn_down)

lemma wf_clear:
  "wf_socket sk \<Longrightarrow> state sk \<in> {sessionOpening, sessionOpen} \<Longrightarrow> wf_socket (sk\<lparr>writeBuffer := []\<rparr>)"
  by (auto simp: wf_socket_def wf_buffer_def)

lemma wf_sockets_at: "wf_sockets w \<Longrightarrow> wf_socket (sockets w s)"
  by (simp add: wf_sockets_def)

lemma wf_flush:
  assumes "wf_sockets w"
  shows "wf_sockets (flush N s w)"
proof (rule flush_rule [where P = wf_sockets])
  show "wf_sockets w'" if "transport_send N tr ps w = (r, w')" for tr ps r w'
    using assms transport_send_simps(1) [OF that] by (simp add: wf_sockets_def)
qed (use assms in \<open>simp_all add: wf_closeWithReason wf_sockets_upd wf_clear wf_sockets_at\<close>)

lemma wf_push:
  "wf_socket sk \<Longrightarrow> state sk \<in> {sessionOpening, sessionOpen} \<Longrightarrow>
     wf_socket (sk\<lparr>writeBuffer := writeBuffer sk @ ps\<rparr>)"
  by (auto simp: wf_socket_def wf_buffer_def)

lemma wf_Send: "wf_sockets w \<Longrightarrow> wf_sockets (snd (Send N s data b w))"
proof -
  assume wf: "wf_sockets w"
  have "state (sockets w s) \<in> {sessionOpening, sessionOpen}"
    if "state (sockets w s) \<noteq> sessionClosed" "state (sockets w s) \<noteq> sessionClosing"
    using that by (cases "state (sockets w s)") simp_all
  with wf show ?thesis by (simp add: Send_def wf_flush wf_sockets_upd wf_push wf_sockets_at)
qed

lemma wf_beginClose:
  assumes "wf_socket sk" and "beginClose sk = Some sk'"
  shows "wf_socket sk'"
proof -
  have live: "state sk = sessionOpening \<or> state sk = sessionOpen"
    and sk': "sk' = sk\<lparr>state := sessionClosing, pingTimer := None, pongTimer := None, upgradeTimer := None,
      closeTimer := None, writeBuffer := writeBuffer sk @ [close_packet]\<rparr>"
    using assms(2) by (auto simp: beginClose_def stopTimersLocked_def close_packet_def Let_def split: if_splits)
  have "transport sk \<noteq> None" "wf_upgrade sk"
    using assms(1) live by (auto simp: wf_socket_def wf_buffer_def)
  then show ?thesis
    unfolding wf_socket_def sk' by (simp add: wf_buffer_def wf_upgrade_def wf_timers_def)
qed

lemma wf_closeTimer: "wf_socket sk \<Longrightarrow> state sk = sessionClosing \<Longrightarrow> wf_socket (sk\<lparr>closeTimer := t\<rparr>)"
  by (simp add: wf_socket_def wf_timers_def)

lemma wf_Close: 
  assumes "wf_sockets w"
  shows "wf_sockets (ServerSocket_Close N s w)"
proof (cases "beginClose (sockets w s)")
  case None
  with assms show ?thesis by (simp add: ServerSocket_Close_def)
next
  case (Some sk)
  then have "wf_sockets (flush N s (upd_socket s (\<lambda>_. sk) w))"
    using assms wf_beginClose [OF wf_sockets_at [OF assms] Some] by (simp add: wf_flush wf_sockets_upd)
  with Some show ?thesis
    by (simp add: ServerSocket_Close_def Let_def wf_sockets_upd wf_closeTimer wf_sockets_at)
qed

lemma wf_open: "wf_sockets w \<Longrightarrow> wf_sockets (ServerSocket_open s w)"
proof -
  have "wf_socket sk \<Longrightarrow> state sk = sessionOpening \<Longrightarrow> wf_socket (armPingLocked (sk\<lparr>state := sessionOpen\<rparr>))" for sk
    by (auto simp: wf_socket_def wf_parts armPingLocked_def)
  then show "wf_sockets w \<Longrightarrow> wf_sockets (ServerSocket_open s w)"
    by (simp add: ServerSocket_open_def wf_sockets_upd wf_sockets_at)
qed

lemma wf_onPong: "wf_sockets w \<Longrightarrow> wf_sockets (onPong s w)"
proof -
  have "wf_socket sk \<Longrightarrow> state sk = sessionOpen \<Longrightarrow> wf_socket (armPingLocked (sk\<lparr>pongTimer := None\<rparr>))" for sk
    by (auto simp: wf_socket_def wf_parts armPingLocked_def)
  then show "wf_sockets w \<Longrightarrow> wf_sockets (onPong s w)"
    by (simp add: onPong_def wf_sockets_upd wf_sockets_at)
qed

lemma wf_sendPing: "wf_sockets w \<Longrightarrow> wf_sockets (sendPing N s w)"
proof -
  have "wf_socket sk \<Longrightarrow> state sk = sessionOpen \<Longrightarrow>
      wf_socket (sk\<lparr>writeBuffer := writeBuffer sk @ ps, pongTimer := Some Armed\<rparr>)" for sk ps
    by (auto simp: wf_socket_def wf_buffer_def wf_timers_def)
  then show "wf_sockets w \<Longrightarrow> wf_sockets (sendPing N s w)"
    by (simp add: sendPing_def wf_flush wf_sockets_upd wf_sockets_at)
qed

lemma wf_socket_handlers [simp]:
  "wf_socket (sk\<lparr>onMessageHandler := h\<rparr>) = wf_socket sk"
  "wf_socket (sk\<lparr>onCloseHandler := h\<rparr>) = wf_socket sk"
  unfolding wf_socket_def by simp_all

lemma wf_handlers:
  "wf_sockets w \<Longrightarrow> wf_sockets (OnMessage s h w)" "wf_sockets w \<Longrightarrow> wf_sockets (OnClose s h w)"
  by (simp_all add: OnMessage_def OnClose_def wf_sockets_upd wf_sockets_at)

lemma wf_deliverMessage: "wf_sockets w \<Longrightarrow> wf_sockets (deliverMessage s data b w)"
  by (simp add: deliverMessage_def wf_sockets_def)

lemma wf_handlePacket: "wf_sockets w \<Longrightarrow> wf_sockets (handlePacket s p w)"
  unfolding handlePacket_def by (simp add: wf_onPong wf_closeWithReason wf_deliverMessage)

end
