(* ===== verification/ServerInvariant.thy ===== *)
theory ServerInvariant
  imports Server SessionInvariant
begin

text \<open>
  Everything that can happen to a server, as a step relation: requests, polls that are answered or
  cancelled, calls of the application, frames that arrive, timers that fire and their callbacks, and
  the goroutines that flush noops. The steps come in any order; each method runs as one step.

  An invariant of the server is a predicate with the laws of the locales below, which name the few
  changes the methods are made of; the locales show once and for all that it then holds in every
  reachable state. The invariants, interpretations of these locales, are in the theories that follow:
  \<^verbatim>\<open>ServerReferences\<close>, \<^verbatim>\<open>ServerPolls\<close>, \<^verbatim>\<open>ServerLifecycle\<close>, \<^verbatim>\<open>ServerTimers\<close> and
  \<^verbatim>\<open>ServerTyping\<close>.
\<close>

section \<open>Steps\<close>

definition loop_end :: "(tref \<Rightarrow> world \<Rightarrow> world) \<Rightarrow> tref \<Rightarrow> bool \<times> world \<Rightarrow> world" where
  "loop_end done tr = (\<lambda>(again, w). if again then w else done tr w)"

inductive server_step :: "platform \<Rightarrow> network \<Rightarrow> serverConfig \<Rightarrow> world \<Rightarrow> world \<Rightarrow> bool" for P N cfg where
  serve: "srv_options S = cfg \<Longrightarrow> server_step P N cfg w (snd (ServeHTTP P N S rnd resp r w))"
| deliver: "srv_options S = cfg \<Longrightarrow> server_step P N cfg w (snd (handlePoll_deliver P S resp r s buffer w))"
| cancel: "server_step P N cfg w (snd (handlePoll_cancel resp s tr ch err w))"
| send: "server_step P N cfg w (snd (Send N s data isBinary w))"
| close: "server_step P N cfg w (ServerSocket_Close N s w)"
| message_handler: "server_step P N cfg w (OnMessage s h w)"
| close_handler: "server_step P N cfg w (OnClose s h w)"
| shutdown: "server_step P N cfg w (Server_Close w)"
| websocket: "heap w tr = WebSocketT t \<Longrightarrow> \<not> ws_done t \<Longrightarrow>
    server_step P N cfg w (loop_end websocket_done tr (websocket_readStep N tr t input w))"
| webtransport: "heap w tr = WebTransportT t \<Longrightarrow> \<not> wt_done t \<Longrightarrow>
    server_step P N cfg w (loop_end webtransport_done tr (webtransport_readStep N tr t w))"
| arrives: "heap w tr = WebTransportT t \<Longrightarrow>
    server_step P N cfg w (upd_heap tr (WebTransportT (t\<lparr>wt_reader := reader\<rparr>)) w)"
| fire: "fireTimers s cb w = Some w' \<Longrightarrow> server_step P N cfg w w'"
| callback: "c \<in> set (due w) \<Longrightarrow>
    server_step P N cfg w (runCallback N c (w\<lparr>due := remove1 c (due w)\<rparr>))"
| noop: "(s, stop) \<in> set (noopLoops w) \<Longrightarrow> server_step P N cfg w (flushProbeNoop s w)"
| noop_exit: "stop \<in> set (closedStops w) \<Longrightarrow>
    server_step P N cfg w (w\<lparr>noopLoops := remove1 (s, stop) (noopLoops w)\<rparr>)"

inductive server_reachable :: "platform \<Rightarrow> network \<Rightarrow> serverConfig \<Rightarrow> world \<Rightarrow> bool" for P N cfg where
  start: "server_reachable P N cfg (emptyWorld cfg)"
| step: "server_reachable P N cfg w \<Longrightarrow> server_step P N cfg w w' \<Longrightarrow> server_reachable P N cfg w'"

section \<open>Laws\<close>

text \<open>
  What a session may hand to its transport, and what writing may add to a connection: packets of its
  buffer, and well-formed ones.
\<close>

definition outgoing :: "ServerSocket \<Rightarrow> Packet list \<Rightarrow> bool" where
  "outgoing sk ps \<longleftrightarrow> (\<forall>p \<in> set ps. p \<in> set (writeBuffer sk) \<or> wf_packet p)"

definition adds_frames :: "serverWebSocketTransport \<Rightarrow> serverWebSocketTransport \<Rightarrow> bool" where
  "adds_frames t t' \<longleftrightarrow> (\<exists>ps. list_all wf_packet ps \<and> ws_frames t' = ws_frames t @ map websocket_frame ps)"

definition adds_bytes :: "serverWebTransportTransport \<Rightarrow> serverWebTransportTransport \<Rightarrow> bool" where
  "adds_bytes t t' \<longleftrightarrow> (\<exists>ps. list_all wf_packet ps \<and> wt_stream t' = wt_stream t @ framesBuffer [] ps)"

lemma adds_nothing: "ws_frames t' = ws_frames t \<Longrightarrow> adds_frames t t'" "wt_stream u' = wt_stream u \<Longrightarrow> adds_bytes u u'"
  unfolding adds_frames_def adds_bytes_def by (rule exI [of _ "[]"], simp)+

lemma wf_probe_pong: "wf_packet probe_pong"
  by (simp add: probe_pong_def wf_packet_def PacketType_valid_def)

lemma well_formed_ping: "list_all wf_packet [text_packet PacketPing []]"
  by (simp add: wf_packet_def PacketType_valid_def)

lemma adds_probe_pong:
  "websocket_writeProbePong wr t = (err, t') \<Longrightarrow> adds_frames t t'"
  "webtransport_writeProbePong dl wu u = (err, u') \<Longrightarrow> adds_bytes u u'"
  unfolding adds_frames_def adds_bytes_def websocket_writeProbePong_def websocket_writeFrame_def
    webtransport_writeProbePong_def webtransport_writeFrames_def Let_def
  by (auto simp: wf_probe_pong split: option.splits intro: exI [of _ "[]"] exI [of _ "[probe_pong]"])

locale flush_invariant =
  fixes I :: "world \<Rightarrow> bool" and N :: network
  assumes close: "I w \<Longrightarrow> I (closeWithReason s reason cause w)"
    and send: "I w \<Longrightarrow> transport (sockets w s) = Some tr \<Longrightarrow> outgoing (sockets w s) ps \<Longrightarrow>
      transport_send N tr ps w = (r, w') \<Longrightarrow> I w'"
    and clear: "I w \<Longrightarrow> state (sockets w s) \<in> {sessionOpening, sessionOpen} \<Longrightarrow>
      I (upd_socket s (\<lambda>sk. sk\<lparr>writeBuffer := []\<rparr>) w)"
begin

lemma flush: "I w \<Longrightarrow> I (flush N s w)"
  by (rule flush_rule [where P = I]) (auto simp: outgoing_def intro: send clear close)

end

text \<open>A transport as the handlers create it for a session.\<close>

definition fresh_transport :: "bool \<Rightarrow> (sref \<Rightarrow> serverTransport) \<Rightarrow> bool" where
  "fresh_transport probing t \<longleftrightarrow>
     t = (\<lambda>s. WebSocketT (newServerWebSocketTransport s probing)) \<or>
     (\<exists>reader. t = (\<lambda>s. WebTransportT (newServerWebTransportTransport s reader probing)))"

lemma allocate_simps [simp]:
  "sessions (allocate t sk w) = sessions w" "deliveries (allocate t sk w) = deliveries w"
  "closedStops (allocate t sk w) = closedStops w" "noopLoops (allocate t sk w) = noopLoops w"
  "due (allocate t sk w) = due w" "trace (allocate t sk w) = trace w"
  "panicked (allocate t sk w) = panicked w" "nextRef (allocate t sk w) = Suc (Suc (nextRef w))"
  "heap (allocate t sk w) = (heap w)(nextRef w := t)"
  "sockets (allocate t sk w) = (sockets w)(Suc (nextRef w) := sk)"
  by (simp_all add: allocate_def)

definition started :: "(sref \<Rightarrow> serverTransport) \<Rightarrow> string \<Rightarrow> serverConfig \<Rightarrow> world \<Rightarrow> world" where
  "started t sid cfg w =
     (allocate (t (Suc (nextRef w))) (newServerSocket sid cfg (nextRef w)) w)
       \<lparr>sessions := store_put sid (Suc (nextRef w)) (sessions w)\<rparr>"

locale session_invariant = flush_invariant +
  fixes cfg :: serverConfig
  assumes fits: "I w \<Longrightarrow> maxPayload cfg \<le> int maxAlloc"
    and init: "maxPayload cfg \<le> int maxAlloc \<Longrightarrow> I (emptyWorld cfg)"
    and configured: "I w \<Longrightarrow> options (sockets w s) = cfg"
    and push: "I w \<Longrightarrow> state (sockets w s) \<in> {sessionOpening, sessionOpen} \<Longrightarrow> list_all wf_packet ps \<Longrightarrow>
      I (upd_socket s (\<lambda>sk. sk\<lparr>writeBuffer := writeBuffer sk @ ps\<rparr>) w)"
    and ping: "I w \<Longrightarrow> state (sockets w s) = sessionOpen \<Longrightarrow> list_all wf_packet ps \<Longrightarrow>
      I (upd_socket s (\<lambda>sk. sk\<lparr>writeBuffer := writeBuffer sk @ ps, pongTimer := Some Armed\<rparr>) w)"
    and opened: "I w \<Longrightarrow> I (ServerSocket_open s w)"
    and pong: "I w \<Longrightarrow> I (onPong s w)"
    and handlers: "I w \<Longrightarrow> I (OnMessage s h w)" "I w \<Longrightarrow> I (OnClose s h w)"
    and event: "I w \<Longrightarrow> (\<And>s reason cause. e \<noteq> Closed s reason cause) \<Longrightarrow>
      I (w\<lparr>trace := trace w @ [e]\<rparr>)"
    and start: "I w \<Longrightarrow> fresh_transport True mk \<Longrightarrow> I (snd (startProbe resp mk sid refusal w))"
    and probe: "I w \<Longrightarrow> I (onProbe s w)"
    and noop: "I w \<Longrightarrow> I (flushProbeNoop s w)"
    and swap: "I w \<Longrightarrow> beginCompleteUpgrade (sockets w s) tr = Some (old, stop, sk) \<Longrightarrow>
      I (close_opt old (close_stop stop (transport_promote tr (upd_socket s (\<lambda>_. sk) w))))"
    and abort: "I w \<Longrightarrow> I (abortUpgrade s tr w)"
    and fire: "I w \<Longrightarrow> fireTimers s cb w = Some w' \<Longrightarrow> I w'"
    and channel: "I w \<Longrightarrow> I (w\<lparr>nextRef := Suc (nextRef w)\<rparr>)"
    and hold: "I w \<Longrightarrow> heap w tr = PollingT pt \<Longrightarrow> polling_hold pt (nextRef w) = (None, pt') \<Longrightarrow>
      I (upd_heap tr (PollingT pt') (w\<lparr>nextRef := Suc (nextRef w)\<rparr>))"
    and release: "I w \<Longrightarrow> heap w tr = PollingT pt \<Longrightarrow>
      I (upd_heap tr (PollingT (snd (polling_release pt ch))) w)"
    and websocket_io: "I w \<Longrightarrow> heap w tr = WebSocketT t \<Longrightarrow> ws_closed t' = ws_closed t \<Longrightarrow>
      ws_probing t' = ws_probing t \<Longrightarrow> ws_socket t' = ws_socket t \<Longrightarrow> adds_frames t t' \<Longrightarrow> I (upd_heap tr (WebSocketT t') w)"
    and webtransport_io: "I w \<Longrightarrow> heap w tr = WebTransportT wt \<Longrightarrow> wt_closed wt' = wt_closed wt \<Longrightarrow>
      wt_probing wt' = wt_probing wt \<Longrightarrow> wt_socket wt' = wt_socket wt \<Longrightarrow> adds_bytes wt wt' \<Longrightarrow>
      I (upd_heap tr (WebTransportT wt') w)"
    and born: "I w \<Longrightarrow> fresh_transport False mk \<or> mk = (\<lambda>_. PollingT newServerPollingTransport) \<Longrightarrow>
      I (started mk sid cfg w)"
    and unborn: "I w \<Longrightarrow> I (w\<lparr>sessions := store_delete sid (sessions w)\<rparr>)"
    and stillborn: "I w \<Longrightarrow> transport (sockets w s) = Some tr \<Longrightarrow> I (transport_close tr w)"
begin

lemma Send: "I w \<Longrightarrow> I (snd (Send N s data isBinary w))"
  unfolding Send_def
  by (cases "state (sockets w s)") (auto simp: wf_packet_def PacketType_valid_def intro!: flush push)

lemma sendPing: "I w \<Longrightarrow> I (sendPing N s w)"
  unfolding sendPing_def
  by (auto simp: wf_packet_def PacketType_valid_def intro!: flush ping)

lemma deliverMessage: "I w \<Longrightarrow> I (deliverMessage s data isBinary w)"
  unfolding deliverMessage_def by (auto intro: event)

lemma handlePacket: "I w \<Longrightarrow> I (handlePacket s p w)"
  unfolding handlePacket_def by (auto intro: pong deliverMessage close)

lemma handlePackets: "I w \<Longrightarrow> I (fold (handlePacket s) ps w)"
  by (induction ps arbitrary: w) (auto intro: handlePacket)

lemma completeUpgrade: "I w \<Longrightarrow> I (completeUpgrade N s tr w)"
  unfolding completeUpgrade_def Let_def
  by (auto split: option.splits intro: flush swap)

lemma websocket_handleProbePacket:
  assumes "I w" "heap w tr = WebSocketT t"
  shows "I (websocket_handleProbePacket N tr t packet w)"
proof -
  obtain err t' where w: "websocket_writeProbePong (ws_Write N tr) t = (err, t')" by fastforce
  then have "I (upd_heap tr (WebSocketT t') w)"
    by (intro websocket_io [OF assms])
      (auto simp: websocket_writeProbePong_def websocket_writeFrame_def adds_probe_pong(1) [OF w] split: option.splits)
  then show ?thesis
    using w assms unfolding websocket_handleProbePacket_def
    by (auto split: option.splits intro: abort probe completeUpgrade)
qed

lemma websocket_readStep:
  assumes "I w" "heap w tr = WebSocketT t"
  shows "I (snd (websocket_readStep N tr t input w))"
  using assms unfolding websocket_readStep_def websocket_readFailed_def
  by (auto split: sum.splits prod.splits
      intro: abort close handlePacket websocket_handleProbePacket)

lemma websocket_done: "I w \<Longrightarrow> I (websocket_done tr w)"
  unfolding websocket_done_def by (auto split: serverTransport.splits intro!: websocket_io adds_nothing)

lemma server_read_no_panic:
  assumes "I w" "readWebTransportPacket r (webTransportServerReadLimit (maxPayload cfg)) = (Inl (Panic p), r')"
  shows False
proof -
  have "never_panics (fst (readWebTransportPacket r (webTransportServerReadLimit (maxPayload cfg))))"
    by (rule readWebTransportPacket_no_panic)
      (use fits [OF assms(1)] in \<open>simp_all add: webTransportServerReadLimit_def webTransportReadLimit_def maxAlloc_def\<close>)
  with assms(2) show False by simp
qed

lemma webtransport_handleProbePacket:
  assumes "I w" "heap w tr = WebTransportT t"
  shows "I (webtransport_handleProbePacket N tr t packet w)"
proof -
  obtain err t' where w:
    "webtransport_writeProbePong (stream_SetWriteDeadline N tr) (stream_Write N tr) t = (err, t')"
    by fastforce
  then have "I (upd_heap tr (WebTransportT t') w)"
    by (intro webtransport_io [OF assms])
      (auto simp: webtransport_writeProbePong_def webtransport_writeFrames_def Let_def
        adds_probe_pong(2) [OF w] split: option.splits)
  then show ?thesis
    using w assms unfolding webtransport_handleProbePacket_def
    by (auto split: option.splits intro: abort probe completeUpgrade)
qed

lemma webtransport_readStep:
  assumes "I w" "heap w tr = WebTransportT t"
  shows "I (snd (webtransport_readStep N tr t w))"
proof -
  obtain res r where res: "readWebTransportPacket (wt_reader t)
      (webTransportServerReadLimit (maxPayload cfg)) = (res, r)" by fastforce
  have I: "I (upd_heap tr (WebTransportT (t\<lparr>wt_reader := r\<rparr>)) w)"
    by (rule webtransport_io [OF assms]) (simp_all add: adds_nothing)
  have opt: "maxPayload (options (sockets w (wt_socket t))) = maxPayload cfg"
    by (simp add: configured [OF assms(1)])
  show ?thesis
  proof (cases res)
    case (Inl f)
    then show ?thesis
      using res opt I server_read_no_panic [OF assms(1), of "wt_reader t"]
      unfolding webtransport_readStep_def webtransport_readFailed_def
      by (cases f) (auto intro: abort close)
  next
    case (Inr p)
    then show ?thesis
      using res opt I unfolding webtransport_readStep_def
      by (auto simp: Let_def intro: handlePacket webtransport_handleProbePacket)
  qed
qed

lemma webtransport_done: "I w \<Longrightarrow> I (webtransport_done tr w)"
  unfolding webtransport_done_def by (auto split: serverTransport.splits intro!: webtransport_io adds_nothing)

lemma loop_end:
  assumes "I (snd x)" "\<And>w. I w \<Longrightarrow> I (fin tr w)"
  shows "I (loop_end fin tr x)"
  using assms by (auto simp: loop_end_def split: prod.splits)

lemma report: "I w \<Longrightarrow> I (report S r code reason w)"
  unfolding report_def by (auto intro: event)

lemma rejectConnection: "I w \<Longrightarrow> I (snd (rejectConnection S resp r code reason w))"
  unfolding rejectConnection_def by (auto intro: report)

lemma allowHandshake: "I w \<Longrightarrow> allowHandshake S resp r w = Some x \<Longrightarrow> I (snd x)"
  unfolding allowHandshake_def by (auto split: option.splits intro: rejectConnection)

lemma connected: "I w \<Longrightarrow> I (connected S s w)"
  unfolding connected_def by (auto intro: event)

lemma handleHandshake:
  assumes "I w" "srv_options S = cfg"
  shows "I (snd (handleHandshake S rnd resp r w))"
proof (cases "allowHandshake S resp r w")
  case (Some x)
  then show ?thesis using allowHandshake [OF assms(1) Some] by (simp add: handleHandshake_def)
next
  case None
  let ?sid = "generateID cfg r rnd"
  obtain p where p: "buildOpenPacket cfg ?sid True = Inr p" using buildOpenPacket_Inr by blast
  have b: "I (started (\<lambda>_. PollingT newServerPollingTransport) ?sid cfg w)"
    by (rule born) (use assms in simp_all)
  show ?thesis
    using None p assms(2) unborn [OF b, of ?sid] connected [OF opened [OF b]]
    by (auto simp: handleHandshake_def Let_def started_def split: prod.splits option.splits)
qed

lemma startSession:
  assumes "I w" "srv_options S = cfg" "fresh_transport False mk"
  shows "I (snd (startSession N S resp mk sid refusal w))"
proof -
  obtain p where p: "buildOpenPacket cfg sid False = Inr p" using buildOpenPacket_Inr by blast
  have b: "I (started mk sid cfg w)" by (rule born) (use assms in simp_all)
  have tr: "transport (sockets (started mk sid cfg w) (Suc (nextRef w))) = Some (nextRef w)"
    by (simp add: started_def allocate_def newServerSocket_def)
  obtain sent err w' where w': "transport_send N (nextRef w) [p] (started mk sid cfg w) = ((sent, err), w')"
    by (metis prod.exhaust)
  have i: "I w'" by (rule send [OF b tr _ w']) (simp add: outgoing_def buildOpenPacket_safe [OF p, unfolded payload_safe_def])
  have s': "transport (sockets w' (Suc (nextRef w))) = Some (nextRef w)"
    using tr transport_send_simps(1) [OF w'] by simp
  have "I (transport_close (nextRef w) (w'\<lparr>sessions := store_delete sid (sessions w')\<rparr>))"
    by (rule stillborn [OF unborn [OF i]]) (use s' in simp)
  then show ?thesis
    using p w' assms(2) connected [OF opened [OF i]]
    by (auto simp: startSession_def Let_def started_def split: option.splits)
qed

end

locale server_invariant = session_invariant +
  assumes closing: "I w \<Longrightarrow> I (ServerSocket_Close N s w)"
    and callback: "I w \<Longrightarrow> c \<in> set (due w) \<Longrightarrow> I (runCallback N c (w\<lparr>due := remove1 c (due w)\<rparr>))"
    and exit: "I w \<Longrightarrow> stop \<in> set (closedStops w) \<Longrightarrow>
      I (w\<lparr>noopLoops := remove1 (s, stop) (noopLoops w)\<rparr>)"
begin

lemma handlePoll:
  assumes "I w" "heap w tr = PollingT t"
  shows "I (snd (handlePoll N resp s tr t w))"
proof -
  obtain err t' where t': "polling_hold t (nextRef w) = (err, t')" by fastforce
  show ?thesis
  proof (cases err)
    case None
    then show ?thesis
      using flush [OF hold [OF assms t' [unfolded None]]] t' by (simp add: handlePoll_def Let_def)
  next
    case (Some e)
    then show ?thesis
      using channel [OF assms(1)] close [OF channel [OF assms(1)]] t'
      by (simp add: handlePoll_def Let_def)
  qed
qed

lemma handleSend:
  assumes "I w"
  shows "I (snd (handleSend S resp r s w))"
proof -
  have "DecodePayload ProtocolVersion4 body \<noteq> Inl (Panic p)" for body p
    by (simp add: DecodePayload_def lift_error_def split: sum.splits)
  then show ?thesis
    using assms unfolding handleSend_def Let_def
    by (auto split: sum.splits failure.splits intro: close handlePackets)
qed

lemma activePollingTransport_polling:
  "activePollingTransport s w = Some tr \<Longrightarrow> \<exists>t. heap w tr = PollingT t"
  by (auto simp: activePollingTransport_def split: option.splits serverTransport.splits)

lemma handlePolling:
  assumes "I w" "srv_options S = cfg"
  shows "I (snd (handlePolling N S rnd resp r sid w))"
  using assms unfolding handlePolling_def
  by (auto split: option.splits serverTransport.splits
      intro: rejectConnection handleHandshake handlePoll handleSend)

lemma fresh_transports [simp]:
  "fresh_transport b (\<lambda>s. WebSocketT (newServerWebSocketTransport s b))"
  "fresh_transport b (\<lambda>s. WebTransportT (newServerWebTransportTransport s reader b))"
  by (auto simp: fresh_transport_def)

lemma handleWebSocket:
  assumes "I w" "srv_options S = cfg"
  shows "I (snd (handleWebSocket P N S rnd resp r sid w))"
  using assms allowHandshake [OF assms(1)]
  unfolding handleWebSocket_def handleWebSocketHandshake_def handleWebSocketUpgrade_def Let_def
  by (auto split: option.splits intro: startSession start)

lemma serveWebTransport:
  assumes "I w" "srv_options S = cfg"
  shows "I (snd (serveWebTransport P N S rnd resp r w))"
  using assms server_read_no_panic [OF assms(1)]
  unfolding serveWebTransport_def webTransportHandshake_def webTransportUpgrade_session_def
  by (auto split: sum.splits option.splits prod.splits failure.splits intro: startSession start report)

lemma ServeHTTP:
  assumes "I w" "srv_options S = cfg"
  shows "I (snd (ServeHTTP P N S rnd resp r w))"
  using assms unfolding ServeHTTP_def Let_def
  by (auto split: prod.splits bool.splits intro: rejectConnection handleWebSocket handlePolling serveWebTransport)

lemma handlePoll_deliver: "I w \<Longrightarrow> I (snd (handlePoll_deliver P S resp r s buffer w))"
  unfolding handlePoll_deliver_def by (auto split: prod.splits option.splits intro: close)

lemma handlePoll_cancel: "I w \<Longrightarrow> I (snd (handlePoll_cancel resp s tr ch err w))"
  unfolding handlePoll_cancel_def Let_def by (auto split: serverTransport.splits intro: close release)

lemma Server_Close: "I w \<Longrightarrow> I (Server_Close w)"
proof -
  have "I w \<Longrightarrow> I (fold (\<lambda>s. closeWithReason s reason cause) ss w)" for ss w reason cause
    by (induction ss arbitrary: w) (auto intro: close)
  then show "I w \<Longrightarrow> I (Server_Close w)" by (simp add: Server_Close_def)
qed

lemma step: "server_step P N cfg w w' \<Longrightarrow> I w \<Longrightarrow> I w'"
proof (induction rule: server_step.induct)
  case (arrives w tr t reader)
  show ?case by (rule webtransport_io [OF arrives(2,1)]) (simp_all add: adds_nothing)
qed (auto intro: ServeHTTP handlePoll_deliver handlePoll_cancel Send closing handlers Server_Close
    loop_end websocket_readStep websocket_done webtransport_readStep webtransport_done fire callback
    noop exit)

lemma reachable: "server_reachable P N cfg w \<Longrightarrow> maxPayload cfg \<le> int maxAlloc \<Longrightarrow> I w"
  by (induction rule: server_reachable.induct) (auto intro: init step)

end

text \<open>
  Most invariants do not look at the callbacks that are due, and hold between the two sections of a
  graceful close.
\<close>

locale plain_invariant = session_invariant +
  assumes due: "I w \<Longrightarrow> I (w\<lparr>due := d\<rparr>)"
    and begin_close: "I w \<Longrightarrow> beginClose (sockets w s) = Some sk \<Longrightarrow> I (upd_socket s (\<lambda>_. sk) w)"
    and close_timer: "I w \<Longrightarrow> state (sockets w s) = sessionClosing \<Longrightarrow>
      I (upd_socket s (\<lambda>sk. sk\<lparr>closeTimer := Some Armed\<rparr>) w)"
    and noop_exit: "I w \<Longrightarrow> stop \<in> set (closedStops w) \<Longrightarrow>
      I (w\<lparr>noopLoops := remove1 (s, stop) (noopLoops w)\<rparr>)"

sublocale plain_invariant \<subseteq> server_invariant
proof unfold_locales
  show "I (ServerSocket_Close N s w)" if "I w" for w s
    using that unfolding ServerSocket_Close_def Let_def
    by (auto split: option.splits intro: close_timer flush begin_close)
  show "I (runCallback N c (w\<lparr>due := remove1 c (due w)\<rparr>))" if "I w" for w c
    using due [OF that] unfolding runCallback_def
    by (auto split: prod.splits callback.splits intro: sendPing close abort)
qed (rule noop_exit)

end
