(* ===== verification/ServerReferences.thy ===== *)
theory ServerReferences
  imports ServerInvariant
begin

text \<open>
  The first invariant of the server: references are allocated in order, the fields of every session
  fit together, and a transport belongs to at most one session. The lemmas at the start rewrite the
  methods that upgrade, abort, close and fire timers to the change they make.
\<close>

section \<open>What the changes do to the sessions\<close>

lemma sockets_open: "sockets (ServerSocket_open s w) =
    (if state (sockets w s) \<noteq> sessionOpening then sockets w
     else (sockets w)(s := (sockets w s)\<lparr>state := sessionOpen, pingTimer := Some Armed\<rparr>))"
  by (simp add: ServerSocket_open_def armPingLocked_def)

lemma sockets_pong: "sockets (onPong s w) =
    (if state (sockets w s) \<noteq> sessionOpen then sockets w
     else (sockets w)(s := (sockets w s)\<lparr>pongTimer := None, pingTimer := Some Armed\<rparr>))"
  by (simp add: onPong_def armPingLocked_def)

lemma sockets_probe: "sockets (onProbe s w) =
    (if \<not> upgrading (sockets w s) \<or> probeNoopStop (sockets w s) \<noteq> None then sockets w
     else (sockets w)(s := (sockets w s)\<lparr>probeNoopStop := Some (nextRef w)\<rparr>))"
  by (simp add: onProbe_def Let_def)

lemma sockets_noop [simp]: "sockets (flushProbeNoop s w) = sockets w"
  by (simp add: flushProbeNoop_def split: option.splits serverTransport.splits prod.splits)

lemma transport_close_simps [simp]:
  "sockets (transport_close tr w) = sockets w" "sessions (transport_close tr w) = sessions w"
  "closedStops (transport_close tr w) = closedStops w" "noopLoops (transport_close tr w) = noopLoops w"
  "due (transport_close tr w) = due w" "trace (transport_close tr w) = trace w"
  "nextRef (transport_close tr w) = nextRef w" "panicked (transport_close tr w) = panicked w"
  using transport_close_same [of w tr] by (simp_all add: same_session_def)

lemma transport_promote_simps [simp]:
  "sockets (transport_promote tr w) = sockets w" "sessions (transport_promote tr w) = sessions w"
  "closedStops (transport_promote tr w) = closedStops w" "noopLoops (transport_promote tr w) = noopLoops w"
  "due (transport_promote tr w) = due w" "trace (transport_promote tr w) = trace w"
  "nextRef (transport_promote tr w) = nextRef w" "panicked (transport_promote tr w) = panicked w"
  "deliveries (transport_promote tr w) = deliveries w"
  using transport_promote_same [of w tr]
  by (simp_all add: same_session_def transport_promote_def split: serverTransport.splits)

definition aborted :: "ServerSocket \<Rightarrow> ServerSocket" where
  "aborted sk = sk\<lparr>upgrading := False, upgradeTransport := None, upgradeTimer := None, probeNoopStop := None\<rparr>"

lemma abortUpgrade_eq: "abortUpgrade s tr w =
    (if \<not> upgrading (sockets w s) \<or> upgradeTransport (sockets w s) \<noteq> Some tr then w
     else transport_close tr (close_stop (probeNoopStop (sockets w s)) (upd_socket s aborted w)))"
  by (simp add: abortUpgrade_def beginAbortUpgrade_def aborted_def upd_socket_def)

definition upgraded :: "tref \<Rightarrow> ServerSocket \<Rightarrow> ServerSocket" where
  "upgraded tr sk = sk\<lparr>upgrading := False, transport := Some tr, upgradeTransport := None, upgradeTimer := None,
     probeNoopStop := None\<rparr>"

lemma beginCompleteUpgrade_SomeD:
  "beginCompleteUpgrade sk tr = Some (old, stop, sk') \<Longrightarrow>
     upgrading sk \<and> upgradeTransport sk = Some tr \<and> old = transport sk \<and> stop = probeNoopStop sk \<and>
     sk' = upgraded tr sk"
  by (auto simp: beginCompleteUpgrade_def upgraded_def split: if_splits)

definition probing_at :: "tref \<Rightarrow> ServerSocket \<Rightarrow> ServerSocket" where
  "probing_at tr sk = sk\<lparr>upgrading := True, upgradeTransport := Some tr, upgradeTimer := Some (Armed, tr)\<rparr>"

definition may_upgrade :: "world \<Rightarrow> sref \<Rightarrow> bool" where
  "may_upgrade w s \<longleftrightarrow>
     state (sockets w s) = sessionOpen \<and> \<not> upgrading (sockets w s) \<and>
     (\<exists>tr. transport (sockets w s) = Some tr \<and> transportType (heap w tr) = TransportTypePolling)"

lemma startUpgrade_eq: "startUpgrade s tr w =
    (if may_upgrade w s then (True, upd_socket s (probing_at tr) w) else (False, w))"
  by (auto simp: startUpgrade_def may_upgrade_def probing_at_def upd_socket_def Let_def)

lemma startProbe_eq: "snd (startProbe resp mk sid refusal w) =
    (case store_get (sessions w) sid of
       None \<Rightarrow> w
     | Some s \<Rightarrow>
         (let tr = nextRef w; w' = upd_heap tr (mk s) (w\<lparr>nextRef := Suc tr\<rparr>)
          in if may_upgrade w' s then upd_socket s (probing_at tr) w' else transport_close tr w'))"
  by (simp add: startProbe_def startUpgrade_eq Let_def split: option.split)

lemma sockets_started: "sockets (started mk sid cfg w) =
    (sockets w)(Suc (nextRef w) := newServerSocket sid cfg (nextRef w))"
  by (simp add: started_def)

lemma beginClose_SomeD:
  "beginClose sk = Some sk' \<Longrightarrow> state sk \<in> {sessionOpening, sessionOpen} \<and>
     sk' = sk\<lparr>state := sessionClosing, pingTimer := None, pongTimer := None, upgradeTimer := None,
       closeTimer := None, writeBuffer := writeBuffer sk @ [close_packet]\<rparr>"
  by (auto simp: beginClose_def stopTimersLocked_def close_packet_def Let_def split: if_splits)
section \<open>References\<close>

definition dead :: serverTransport where
  "dead = PollingT \<lparr>pt_closed = True, dataCh = None\<rparr>"

definition owns :: "ServerSocket \<Rightarrow> tref \<Rightarrow> bool" where
  "owns sk tr \<longleftrightarrow> transport sk = Some tr \<or> upgradeTransport sk = Some tr"

definition socket_ok :: "serverConfig \<Rightarrow> nat \<Rightarrow> ServerSocket \<Rightarrow> bool" where
  "socket_ok cfg n sk \<longleftrightarrow>
     options sk = cfg \<and> wf_socket sk \<and> (\<forall>tr. owns sk tr \<longrightarrow> tr < n) \<and>
     (\<forall>tr. upgradeTransport sk = Some tr \<longrightarrow> transport sk \<noteq> Some tr)"

text \<open>
  References are allocated in order, the fields of every session fit together, and a transport
  belongs to one session only, in one role.
\<close>

definition refs_inv :: "serverConfig \<Rightarrow> world \<Rightarrow> bool" where
  "refs_inv cfg w \<longleftrightarrow>
     maxPayload cfg \<le> int maxAlloc \<and>
     (\<forall>s. socket_ok cfg (nextRef w) (sockets w s)) \<and>
     (\<forall>s s' tr. owns (sockets w s) tr \<longrightarrow> owns (sockets w s') tr \<longrightarrow> s = s') \<and>
     (\<forall>r \<ge> nextRef w. state (sockets w r) = sessionClosed \<and> heap w r = dead)"

text \<open>A change of one session that keeps what it owns.\<close>

definition keeps :: "ServerSocket \<Rightarrow> ServerSocket \<Rightarrow> bool" where
  "keeps sk sk' \<longleftrightarrow>
     options sk' = options sk \<and> (wf_socket sk \<longrightarrow> wf_socket sk') \<and>
     (\<forall>tr. owns sk' tr \<longrightarrow> owns sk tr) \<and>
     (\<forall>tr. upgradeTransport sk' = Some tr \<longrightarrow> transport sk' = Some tr \<longrightarrow>
        upgradeTransport sk = Some tr \<and> transport sk = Some tr) \<and>
     (state sk = sessionClosed \<longrightarrow> state sk' = sessionClosed)"

lemma refs_inv_socket:
  assumes "refs_inv cfg w" "keeps (sockets w s) sk"
  shows "refs_inv cfg (upd_socket s (\<lambda>_. sk) w)"
proof -
  have "socket_ok cfg (nextRef w) sk"
    using assms(2) assms(1) [unfolded refs_inv_def, THEN conjunct2, THEN conjunct1, rule_format, of s]
    unfolding socket_ok_def keeps_def by metis
  then show ?thesis
    using assms unfolding refs_inv_def keeps_def by (auto split: if_splits)
qed

lemma refs_inv_upd:
  assumes "refs_inv cfg w" "keeps (sockets w s) (f (sockets w s))"
  shows "refs_inv cfg (upd_socket s f w)"
  using refs_inv_socket [OF assms] by (simp add: upd_socket_def)

text \<open>A change of the heap at an allocated reference, or one that changes nothing.\<close>

lemma refs_inv_cong:
  assumes "refs_inv cfg w" "sockets w' = sockets w" "nextRef w' = nextRef w"
    and "\<And>r. nextRef w \<le> r \<Longrightarrow> heap w r = dead \<Longrightarrow> heap w' r = dead"
  shows "refs_inv cfg w'"
  using assms by (simp add: refs_inv_def)

lemma heap_send:
  "transport_send N tr ps w = (x, w') \<Longrightarrow> heap w r = dead \<Longrightarrow> heap w' r = dead"
  by (auto simp: transport_send_def polling_send_def dead_def split: serverTransport.splits prod.splits if_splits option.splits)

lemma heap_close: "heap w r = dead \<Longrightarrow> heap (transport_close tr w) r = dead"
  by (auto simp: transport_close_def polling_close_def dead_def split: serverTransport.splits prod.splits if_splits)

lemma heap_close_opt: "heap w r = dead \<Longrightarrow> heap (close_opt tr w) r = dead"
  by (simp add: close_opt_def heap_close split: option.splits)

lemma heap_promote: "heap w r = dead \<Longrightarrow> heap (transport_promote tr w) r = dead"
  by (auto simp: transport_promote_def dead_def split: serverTransport.splits)

lemma keeps_torn_down: "keeps sk (torn_down sk)"
  using wf_torn_down [of sk] by (auto simp: keeps_def owns_def)

lemma refs_inv_close: "refs_inv cfg w \<Longrightarrow> refs_inv cfg (closeWithReason s reason cause w)"
proof (cases "state (sockets w s) = sessionClosed")
  case False
  assume "refs_inv cfg w"
  then have i: "refs_inv cfg (upd_socket s torn_down w)"
    by (rule refs_inv_upd) (rule keeps_torn_down)
  show ?thesis
    by (rule refs_inv_cong [OF i])
      (simp_all add: closeWithReason_live [OF False] Let_def heap_close_opt)
qed (simp add: closeWithReason_closed)

lemma refs_inv_swap:
  assumes i: "refs_inv cfg w" and u: "beginCompleteUpgrade (sockets w s) tr = Some (old, stop, sk)"
  shows "refs_inv cfg (close_opt old (close_stop stop (transport_promote tr (upd_socket s (\<lambda>_. sk) w))))"
proof -
  have "keeps (sockets w s) sk"
    using beginCompleteUpgrade_SomeD [OF u]
    by (auto simp: keeps_def owns_def upgraded_def wf_socket_def wf_parts)
  from refs_inv_socket [OF i this] show ?thesis
    by (rule refs_inv_cong) (simp_all add: heap_close_opt heap_promote)
qed

lemma refs_inv_abort: "refs_inv cfg w \<Longrightarrow> refs_inv cfg (abortUpgrade s tr w)"
proof -
  assume i: "refs_inv cfg w"
  have "keeps (sockets w s) (aborted (sockets w s))"
    by (auto simp: keeps_def owns_def aborted_def wf_socket_def wf_parts)
  from refs_inv_upd [of cfg w s aborted, OF i this] have
    "refs_inv cfg (transport_close tr (close_stop (probeNoopStop (sockets w s)) (upd_socket s aborted w)))"
    by (rule refs_inv_cong) (simp_all add: heap_close)
  with i show ?thesis by (simp add: abortUpgrade_eq)
qed

lemma socket_ok_mono: "socket_ok cfg n sk \<Longrightarrow> n \<le> m \<Longrightarrow> socket_ok cfg m sk"
  unfolding socket_ok_def by (meson less_le_trans)

lemma refs_inv_next:
  assumes "refs_inv cfg w"
  shows "refs_inv cfg (w\<lparr>nextRef := Suc (nextRef w)\<rparr>)"
  using assms unfolding refs_inv_def
  by (auto intro: socket_ok_mono [where n = "nextRef w"])
lemma may_upgrade_state: "may_upgrade w s \<Longrightarrow> state (sockets w s) = sessionOpen \<and> \<not> upgrading (sockets w s)"
  by (simp add: may_upgrade_def)

lemma owned_allocated: "refs_inv cfg w \<Longrightarrow> owns (sockets w s) tr \<Longrightarrow> tr < nextRef w"
  by (simp add: refs_inv_def socket_ok_def)

lemma live_allocated: "refs_inv cfg w \<Longrightarrow> state (sockets w s) \<noteq> sessionClosed \<Longrightarrow> s < nextRef w"
  unfolding refs_inv_def by (metis leI)

lemma refs_inv_probing:
  assumes i: "refs_inv cfg w" and u: "may_upgrade w s"
    and n: "tr < nextRef w" "\<And>s'. \<not> owns (sockets w s') tr"
  shows "refs_inv cfg (upd_socket s (probing_at tr) w)"
proof -
  let ?sk = "sockets w s"
  have ok: "socket_ok cfg (nextRef w) ?sk" using i by (simp add: refs_inv_def)
  have st: "state ?sk = sessionOpen" "\<not> upgrading ?sk" using may_upgrade_state [OF u] by simp_all
  have "owns (probing_at tr ?sk) tr' \<longleftrightarrow> tr' = tr \<or> owns ?sk tr'" for tr'
    using ok st by (auto simp: owns_def probing_at_def socket_ok_def wf_socket_def wf_upgrade_def)
  moreover have "socket_ok cfg (nextRef w) (probing_at tr ?sk)"
    using ok st n calculation unfolding socket_ok_def
    by (auto simp: probing_at_def wf_socket_def wf_parts owns_def)
  ultimately show ?thesis
    using i n st unfolding refs_inv_def by (auto simp: probing_at_def split: if_splits)
qed

lemma refs_inv_start:
  assumes i: "refs_inv cfg w"
  shows "refs_inv cfg (snd (startProbe resp mk sid refusal w))"
proof -
  have new: "refs_inv cfg (upd_heap (nextRef w) t (w\<lparr>nextRef := Suc (nextRef w)\<rparr>))" for t
    by (rule refs_inv_cong [OF refs_inv_next [OF i]]) simp_all
  have "\<not> owns (sockets w s') (nextRef w)" for s'
    using owned_allocated [OF i, of s' "nextRef w"] by auto
  then have "refs_inv cfg (upd_socket s (probing_at (nextRef w)) (upd_heap (nextRef w) t (w\<lparr>nextRef := Suc (nextRef w)\<rparr>)))"
    if "may_upgrade (upd_heap (nextRef w) t (w\<lparr>nextRef := Suc (nextRef w)\<rparr>)) s" for s t
    by (intro refs_inv_probing [OF new that]) simp_all
  moreover have "refs_inv cfg (transport_close tr (upd_heap (nextRef w) t (w\<lparr>nextRef := Suc (nextRef w)\<rparr>)))" for tr t
    by (rule refs_inv_cong [OF new]) (simp_all add: heap_close)
  ultimately show ?thesis using i by (simp add: startProbe_eq Let_def split: option.splits)
qed

lemma refs_inv_started:
  assumes i: "refs_inv cfg w"
  shows "refs_inv cfg (started mk sid cfg w)"
proof -
  let ?n = "nextRef w" let ?sk = "newServerSocket sid cfg (nextRef w)"
  have own: "owns ?sk tr \<longleftrightarrow> tr = ?n" for tr by (auto simp: owns_def newServerSocket_def)
  have ok: "socket_ok cfg (Suc (Suc ?n)) ?sk"
    unfolding socket_ok_def own using wf_new [of sid cfg ?n] by (auto simp: newServerSocket_def)
  have old: "\<not> owns (sockets w s) ?n" for s using owned_allocated [OF i, of s ?n] by auto
  have "socket_ok cfg (Suc (Suc ?n)) (sockets w s)" for s
    using i by (auto simp: refs_inv_def intro: socket_ok_mono [where n = ?n])
  with i ok own old show ?thesis
    by (auto simp: refs_inv_def started_def split: if_splits)
qed

lemma keepsI:
  "options sk' = options sk \<Longrightarrow> transport sk' = transport sk \<Longrightarrow> upgradeTransport sk' = upgradeTransport sk \<Longrightarrow>
     (state sk = sessionClosed \<Longrightarrow> state sk' = sessionClosed) \<Longrightarrow> (wf_socket sk \<Longrightarrow> wf_socket sk') \<Longrightarrow>
     keeps sk sk'"
  by (simp add: keeps_def owns_def)

lemma wf_ping:
  "wf_socket sk \<Longrightarrow> state sk = sessionOpen \<Longrightarrow>
     wf_socket (sk\<lparr>writeBuffer := writeBuffer sk @ ps, pongTimer := Some Armed\<rparr>)"
  by (auto simp: wf_socket_def wf_buffer_def wf_timers_def)

lemma wf_opened:
  "wf_socket sk \<Longrightarrow> state sk = sessionOpening \<Longrightarrow> wf_socket (armPingLocked (sk\<lparr>state := sessionOpen\<rparr>))"
  by (auto simp: wf_socket_def wf_parts armPingLocked_def)

lemma wf_ponged:
  "wf_socket sk \<Longrightarrow> state sk = sessionOpen \<Longrightarrow> wf_socket (armPingLocked (sk\<lparr>pongTimer := None\<rparr>))"
  by (auto simp: wf_socket_def wf_parts armPingLocked_def)

lemma wf_probed: "wf_socket sk \<Longrightarrow> upgrading sk \<Longrightarrow> wf_socket (sk\<lparr>probeNoopStop := c\<rparr>)"
  by (simp add: wf_socket_def wf_upgrade_def)

lemma keeps_handlers:
  "keeps sk (sk\<lparr>onMessageHandler := h\<rparr>)" "keeps sk (sk\<lparr>onCloseHandler := h\<rparr>)"
  by (simp_all add: keepsI)

lemma keeps_clear: "state sk \<in> {sessionOpening, sessionOpen} \<Longrightarrow> keeps sk (sk\<lparr>writeBuffer := []\<rparr>)"
  by (rule keepsI) (simp_all add: wf_clear)

lemma keeps_push:
  "state sk \<in> {sessionOpening, sessionOpen} \<Longrightarrow> keeps sk (sk\<lparr>writeBuffer := writeBuffer sk @ ps\<rparr>)"
  by (rule keepsI) (simp_all add: wf_push)

lemma keeps_ping:
  "state sk = sessionOpen \<Longrightarrow> keeps sk (sk\<lparr>writeBuffer := writeBuffer sk @ ps, pongTimer := Some Armed\<rparr>)"
  by (rule keepsI) (simp_all add: wf_ping)

lemma keeps_opened: "state sk = sessionOpening \<Longrightarrow> keeps sk (armPingLocked (sk\<lparr>state := sessionOpen\<rparr>))"
  by (rule keepsI) (simp_all add: armPingLocked_def wf_opened [unfolded armPingLocked_def])

lemma keeps_ponged: "state sk = sessionOpen \<Longrightarrow> keeps sk (armPingLocked (sk\<lparr>pongTimer := None\<rparr>))"
  by (rule keepsI) (simp_all add: armPingLocked_def wf_ponged [unfolded armPingLocked_def])

lemma keeps_probed: "upgrading sk \<Longrightarrow> keeps sk (sk\<lparr>probeNoopStop := c\<rparr>)"
  by (rule keepsI) (simp_all add: wf_probed)

lemma keeps_closeTimer: "state sk = sessionClosing \<Longrightarrow> keeps sk (sk\<lparr>closeTimer := t\<rparr>)"
  by (rule keepsI) (simp_all add: wf_closeTimer)

lemma keeps_beginClose: "beginClose sk = Some sk' \<Longrightarrow> keeps sk sk'"
  using wf_beginClose [of sk sk'] beginClose_SomeD [of sk sk'] by (auto simp: keeps_def owns_def)

text \<open>A timer that fires stays set, so the fields still fit together.\<close>

lemma wf_fired:
  "wf_socket sk \<Longrightarrow> pingTimer sk = Some Armed \<Longrightarrow> wf_socket (sk\<lparr>pingTimer := Some Fired\<rparr>)"
  "wf_socket sk \<Longrightarrow> pongTimer sk = Some Armed \<Longrightarrow> wf_socket (sk\<lparr>pongTimer := Some Fired\<rparr>)"
  "wf_socket sk \<Longrightarrow> upgradeTimer sk = Some (Armed, tr) \<Longrightarrow> wf_socket (sk\<lparr>upgradeTimer := Some (Fired, tr)\<rparr>)"
  "wf_socket sk \<Longrightarrow> closeTimer sk = Some Armed \<Longrightarrow> wf_socket (sk\<lparr>closeTimer := Some Fired\<rparr>)"
  unfolding wf_socket_def wf_upgrade_def wf_timers_def by auto

definition fired :: "callback \<Rightarrow> ServerSocket \<Rightarrow> ServerSocket" where
  "fired cb sk =
     (case cb of
        RunSendPing \<Rightarrow> sk\<lparr>pingTimer := Some Fired\<rparr>
      | RunPingTimeout \<Rightarrow> sk\<lparr>pongTimer := Some Fired\<rparr>
      | RunAbortUpgrade tr \<Rightarrow> sk\<lparr>upgradeTimer := Some (Fired, tr)\<rparr>
      | RunForcedClose \<Rightarrow> sk\<lparr>closeTimer := Some Fired\<rparr>)"

definition armed :: "callback \<Rightarrow> ServerSocket \<Rightarrow> bool" where
  "armed cb sk \<longleftrightarrow>
     (case cb of
        RunSendPing \<Rightarrow> pingTimer sk = Some Armed
      | RunPingTimeout \<Rightarrow> pongTimer sk = Some Armed
      | RunAbortUpgrade tr \<Rightarrow> upgradeTimer sk = Some (Armed, tr)
      | RunForcedClose \<Rightarrow> closeTimer sk = Some Armed)"

lemma fireTimers_eq: "fireTimers s cb w =
    (if armed cb (sockets w s) then Some ((upd_socket s (fired cb) w)\<lparr>due := due w @ [(s, cb)]\<rparr>) else None)"
  by (cases cb) (simp_all add: fireTimers_def armed_def fired_def upd_socket_def Let_def)

lemma fired_simps [simp]:
  "options (fired cb sk) = options sk" "transport (fired cb sk) = transport sk"
  "upgradeTransport (fired cb sk) = upgradeTransport sk" "state (fired cb sk) = state sk"
  "probeNoopStop (fired cb sk) = probeNoopStop sk" "upgrading (fired cb sk) = upgrading sk"
  "socket_id (fired cb sk) = socket_id sk"
  by (cases cb; simp add: fired_def)+

lemma keeps_fired: "armed cb sk \<Longrightarrow> keeps sk (fired cb sk)"
  by (rule keepsI) (simp_all, cases cb, simp_all add: fired_def armed_def wf_fired)

lemma refs_inv_fire:
  assumes i: "refs_inv cfg w" and "fireTimers s cb w = Some w'"
  shows "refs_inv cfg w'"
proof -
  from assms(2) have a: "armed cb (sockets w s)" and w': "w' = (upd_socket s (fired cb) w)\<lparr>due := due w @ [(s, cb)]\<rparr>"
    by (auto simp: fireTimers_eq split: if_splits)
  show ?thesis unfolding w'
    by (rule refs_inv_cong [OF refs_inv_upd [of cfg w s "fired cb", OF i keeps_fired [OF a]]]) simp_all
qed

lemma refs_inv_empty: "maxPayload cfg \<le> int maxAlloc \<Longrightarrow> refs_inv cfg (emptyWorld cfg)"
proof -
  have "wf_socket (torn_down (newServerSocket [] cfg 0))" by (rule wf_torn_down)
  moreover have "options (newServerSocket [] cfg 0) = cfg" by (simp add: newServerSocket_def)
  ultimately show "maxPayload cfg \<le> int maxAlloc \<Longrightarrow> refs_inv cfg (emptyWorld cfg)"
    by (simp add: refs_inv_def emptyWorld_def socket_ok_def owns_def dead_def)
qed

lemma refs_inv_heap: "refs_inv cfg w \<Longrightarrow> heap w tr \<noteq> dead \<Longrightarrow> refs_inv cfg (upd_heap tr t w)"
  by (rule refs_inv_cong) auto

lemma refs_inv_noop: "refs_inv cfg w \<Longrightarrow> refs_inv cfg (flushProbeNoop s w)"
  by (erule refs_inv_cong)
    (auto simp: flushProbeNoop_def polling_writeNoop_def dead_def
      split: option.splits serverTransport.splits prod.splits)

lemma refs_inv_send: "refs_inv cfg w \<Longrightarrow> transport_send N tr ps w = (r, w') \<Longrightarrow> refs_inv cfg w'"
  using transport_send_same [of w N tr ps]
  by (erule_tac refs_inv_cong) (auto simp: same_session_def intro: heap_send)

lemma refs_inv_probe: "refs_inv cfg w \<Longrightarrow> refs_inv cfg (onProbe s w)"
proof (cases "\<not> upgrading (sockets w s) \<or> probeNoopStop (sockets w s) \<noteq> None")
  case False
  assume i: "refs_inv cfg w"
  from False have k: "keeps (sockets w s) ((sockets w s)\<lparr>probeNoopStop := Some (nextRef w)\<rparr>)"
    by (simp add: keeps_probed)
  have "refs_inv cfg ((upd_socket s (\<lambda>_. (sockets w s)\<lparr>probeNoopStop := Some (nextRef w)\<rparr>) w)
      \<lparr>nextRef := Suc (nextRef w)\<rparr>)"
    using refs_inv_next [OF refs_inv_socket [OF i k]] by simp
  then show ?thesis
    by (rule refs_inv_cong) (use False in \<open>simp_all add: onProbe_def Let_def\<close>)
qed (auto simp: onProbe_def)

lemma refs_inv_hold:
  assumes "refs_inv cfg w" "heap w tr = PollingT t" "polling_hold t ch = (None, t')"
  shows "refs_inv cfg (upd_heap tr (PollingT t') (w\<lparr>nextRef := Suc (nextRef w)\<rparr>))"
  by (rule refs_inv_heap [OF refs_inv_next [OF assms(1)]])
    (use assms(2,3) in \<open>auto simp: dead_def polling_hold_def split: if_splits\<close>)

lemma refs_inv_release:
  assumes "refs_inv cfg w" "heap w tr = PollingT t"
  shows "refs_inv cfg (upd_heap tr (PollingT (snd (polling_release t ch))) w)"
  by (rule refs_inv_cong [OF assms(1)])
    (use assms(2) in \<open>auto simp: dead_def polling_release_def\<close>)

lemma refs_inv_other:
  "refs_inv cfg w \<Longrightarrow> refs_inv cfg (w\<lparr>trace := a\<rparr>)" "refs_inv cfg w \<Longrightarrow> refs_inv cfg (w\<lparr>due := b\<rparr>)"
  "refs_inv cfg w \<Longrightarrow> refs_inv cfg (w\<lparr>sessions := c\<rparr>)" "refs_inv cfg w \<Longrightarrow> refs_inv cfg (w\<lparr>noopLoops := d\<rparr>)"
  "refs_inv cfg w \<Longrightarrow> refs_inv cfg (transport_close tr w)"
  by (erule refs_inv_cong; simp add: heap_close)+

lemma refs_inv_fits: "refs_inv cfg w \<Longrightarrow> maxPayload cfg \<le> int maxAlloc"
  by (simp add: refs_inv_def)

lemma refs_inv_options: "refs_inv cfg w \<Longrightarrow> options (sockets w s) = cfg"
  by (simp add: refs_inv_def socket_ok_def)

lemmas refs_inv_intros =
  refs_inv_close refs_inv_send refs_inv_start refs_inv_probe refs_inv_noop refs_inv_swap refs_inv_abort
  refs_inv_fire refs_inv_next refs_inv_hold refs_inv_release refs_inv_started refs_inv_other
  refs_inv_socket refs_inv_empty refs_inv_fits refs_inv_options

interpretation refs: plain_invariant "refs_inv cfg" N cfg for cfg N
  by unfold_locales
    (auto simp: ServerSocket_open_def onPong_def OnMessage_def OnClose_def dead_def
      intro: refs_inv_intros refs_inv_upd refs_inv_heap keeps_clear keeps_push keeps_ping keeps_opened
        keeps_ponged keeps_handlers keeps_beginClose keeps_closeTimer)

section \<open>Extending the invariant\<close>

text \<open>
  Further invariants rest on this one and look at few fields. A change of one session is benign if it
  leaves alone what it owns, its name, and whether it is closed.
\<close>

definition benign :: "ServerSocket \<Rightarrow> ServerSocket \<Rightarrow> bool" where
  "benign sk sk' \<longleftrightarrow>
     keeps sk sk' \<and> socket_id sk' = socket_id sk \<and> transport sk' = transport sk \<and>
     upgradeTransport sk' = upgradeTransport sk \<and> upgrading sk' = upgrading sk \<and>
     probeNoopStop sk' = probeNoopStop sk \<and>
     (state sk' = sessionClosed \<longleftrightarrow> state sk = sessionClosed) \<and> outgoing sk (writeBuffer sk')"

lemma benign_intros:
  "benign sk (sk\<lparr>onMessageHandler := h\<rparr>)" "benign sk (sk\<lparr>onCloseHandler := h\<rparr>)"
  "state sk \<in> {sessionOpening, sessionOpen} \<Longrightarrow> benign sk (sk\<lparr>writeBuffer := []\<rparr>)"
  "state sk \<in> {sessionOpening, sessionOpen} \<Longrightarrow> list_all wf_packet ps \<Longrightarrow>
     benign sk (sk\<lparr>writeBuffer := writeBuffer sk @ ps\<rparr>)"
  "state sk = sessionOpen \<Longrightarrow> list_all wf_packet ps \<Longrightarrow>
     benign sk (sk\<lparr>writeBuffer := writeBuffer sk @ ps, pongTimer := Some Armed\<rparr>)"
  "state sk = sessionOpening \<Longrightarrow> benign sk (armPingLocked (sk\<lparr>state := sessionOpen\<rparr>))"
  "state sk = sessionOpen \<Longrightarrow> benign sk (armPingLocked (sk\<lparr>pongTimer := None\<rparr>))"
  "state sk = sessionClosing \<Longrightarrow> benign sk (sk\<lparr>closeTimer := Some Armed\<rparr>)"
  "armed cb sk \<Longrightarrow> benign sk (fired cb sk)"
  unfolding benign_def
  by (simp_all add: keeps_handlers keeps_clear keeps_push keeps_ping keeps_opened keeps_ponged
      keeps_closeTimer keeps_fired)
    (auto simp: armPingLocked_def outgoing_def fired_def list_all_iff split: callback.splits)

lemma benign_beginClose: "beginClose sk = Some sk' \<Longrightarrow> benign sk sk'"
  using keeps_beginClose [of sk sk'] beginClose_SomeD [of sk sk']
  by (auto simp: benign_def outgoing_def close_packet_def wf_packet_def PacketType_valid_def)

locale refs_extension =
  fixes X :: "world \<Rightarrow> bool" and N :: network and cfg :: serverConfig
  assumes init: "X (emptyWorld cfg)"
    and teardown: "refs_inv cfg w \<Longrightarrow> X w \<Longrightarrow> X (closeWithReason s reason cause w)"
    and send: "refs_inv cfg w \<Longrightarrow> X w \<Longrightarrow> outgoing (sockets w s) ps \<Longrightarrow>
      transport_send N tr ps w = (r, w') \<Longrightarrow> X w'"
    and benign: "refs_inv cfg w \<Longrightarrow> X w \<Longrightarrow> benign (sockets w s) sk \<Longrightarrow> X (upd_socket s (\<lambda>_. sk) w)"
    and event: "refs_inv cfg w \<Longrightarrow> X w \<Longrightarrow> (\<And>s reason cause. e \<noteq> Closed s reason cause) \<Longrightarrow>
      X (w\<lparr>trace := trace w @ [e]\<rparr>)"
    and start: "refs_inv cfg w \<Longrightarrow> X w \<Longrightarrow> fresh_transport True mk \<Longrightarrow> X (snd (startProbe resp mk sid refusal w))"
    and probe: "refs_inv cfg w \<Longrightarrow> X w \<Longrightarrow> X (onProbe s w)"
    and noop: "refs_inv cfg w \<Longrightarrow> X w \<Longrightarrow> X (flushProbeNoop s w)"
    and swap: "refs_inv cfg w \<Longrightarrow> X w \<Longrightarrow> upgrading (sockets w s) \<Longrightarrow> upgradeTransport (sockets w s) = Some tr \<Longrightarrow>
      X (close_opt (transport (sockets w s)) (close_stop (probeNoopStop (sockets w s))
          (transport_promote tr (upd_socket s (upgraded tr) w))))"
    and abort: "refs_inv cfg w \<Longrightarrow> X w \<Longrightarrow> X (abortUpgrade s tr w)"
    and channel: "refs_inv cfg w \<Longrightarrow> X w \<Longrightarrow> X (w\<lparr>nextRef := Suc (nextRef w)\<rparr>)"
    and hold: "refs_inv cfg w \<Longrightarrow> X w \<Longrightarrow> heap w tr = PollingT pt \<Longrightarrow>
      polling_hold pt (nextRef w) = (None, pt') \<Longrightarrow>
      X (upd_heap tr (PollingT pt') (w\<lparr>nextRef := Suc (nextRef w)\<rparr>))"
    and release: "refs_inv cfg w \<Longrightarrow> X w \<Longrightarrow> heap w tr = PollingT pt \<Longrightarrow>
      X (upd_heap tr (PollingT (snd (polling_release pt ch))) w)"
    and websocket_io: "refs_inv cfg w \<Longrightarrow> X w \<Longrightarrow> heap w tr = WebSocketT ws \<Longrightarrow> ws_closed ws' = ws_closed ws \<Longrightarrow>
      adds_frames ws ws' \<Longrightarrow>
      X (upd_heap tr (WebSocketT ws') w)"
    and webtransport_io: "refs_inv cfg w \<Longrightarrow> X w \<Longrightarrow> heap w tr = WebTransportT wt \<Longrightarrow> wt_closed wt' = wt_closed wt \<Longrightarrow>
      adds_bytes wt wt' \<Longrightarrow>
      X (upd_heap tr (WebTransportT wt') w)"
    and born: "refs_inv cfg w \<Longrightarrow> X w \<Longrightarrow>
      fresh_transport False mk \<or> mk = (\<lambda>_. PollingT newServerPollingTransport) \<Longrightarrow> X (started mk sid cfg w)"
    and unborn: "refs_inv cfg w \<Longrightarrow> X w \<Longrightarrow> X (w\<lparr>sessions := store_delete sid (sessions w)\<rparr>)"
    and stillborn: "refs_inv cfg w \<Longrightarrow> X w \<Longrightarrow> X (transport_close tr w)"
    and due: "refs_inv cfg w \<Longrightarrow> X w \<Longrightarrow> X (w\<lparr>due := d\<rparr>)"
    and noop_exit: "refs_inv cfg w \<Longrightarrow> X w \<Longrightarrow> stop \<in> set (closedStops w) \<Longrightarrow>
      X (w\<lparr>noopLoops := remove1 (s, stop) (noopLoops w)\<rparr>)"
begin

lemma benign_upd:
  assumes "refs_inv cfg w" "X w" "benign (sockets w s) (f (sockets w s))"
  shows "X (upd_socket s f w)"
  using benign [OF assms] by (simp add: upd_socket_def)

lemma fire:
  assumes "refs_inv cfg w" "X w" "fireTimers s cb w = Some w'"
  shows "X w'"
proof -
  from assms(3) have a: "armed cb (sockets w s)" and w': "w' = (upd_socket s (fired cb) w)\<lparr>due := due w @ [(s, cb)]\<rparr>"
    by (auto simp: fireTimers_eq split: if_splits)
  have "refs_inv cfg (upd_socket s (fired cb) w)"
    by (rule refs_inv_upd [of cfg w s "fired cb", OF assms(1) keeps_fired [OF a]])
  moreover have "X (upd_socket s (fired cb) w)"
    by (rule benign_upd [OF assms(1,2)]) (rule benign_intros(9) [OF a])
  ultimately show ?thesis unfolding w' by (rule due)
qed

end

sublocale refs_extension \<subseteq> whole: plain_invariant "\<lambda>w. refs_inv cfg w \<and> X w" N cfg
proof unfold_locales
  fix w s tr old stop sk
  assume i: "refs_inv cfg w \<and> X w" and u: "beginCompleteUpgrade (sockets w s) tr = Some (old, stop, sk)"
  from beginCompleteUpgrade_SomeD [OF u] have
    "X (close_opt old (close_stop stop (transport_promote tr (upd_socket s (\<lambda>_. sk) w))))"
    using swap [of w s tr] i by (auto simp: upd_socket_def)
  with i u show "refs_inv cfg (close_opt old (close_stop stop (transport_promote tr (upd_socket s (\<lambda>_. sk) w)))) \<and>
      X (close_opt old (close_stop stop (transport_promote tr (upd_socket s (\<lambda>_. sk) w))))"
    by (blast intro: refs_inv_swap)
qed (auto simp: ServerSocket_open_def onPong_def OnMessage_def OnClose_def
    intro: refs.close refs.send refs.clear refs.push refs.ping refs.start refs.probe
      refs.noop refs.abort refs.channel refs.hold refs.release refs.websocket_io refs.webtransport_io refs.born
      refs.unborn refs.due refs.noop_exit refs_inv_other refs_inv_empty refs_inv_fits refs_inv_options
      refs_inv_fire refs_inv_socket keeps_beginClose refs_inv_upd keeps_handlers keeps_opened keeps_ponged
      keeps_closeTimer teardown send init event start probe noop abort channel hold release websocket_io
      webtransport_io born unborn stillborn due noop_exit fire benign benign_beginClose benign_upd benign_intros)

end
