(* ===== verification/ServerExample.thy ===== *)
theory ServerExample
  imports ServerInvariant
begin

text \<open>
  A run of the server that the witnesses share: a client handshakes over long polling, polls, is sent
  a message, polls again, and moves to a WebSocket connection; then the session is closed.
\<close>

definition quiet :: network where
  "quiet = \<lparr>ws_Write = \<lambda>_ _ _. None, stream_SetWriteDeadline = \<lambda>_ _. None, stream_Write = \<lambda>_ _ _. None\<rparr>"

definition accepting :: platform where
  "accepting =
     \<lparr>gzip_Compress = Inr, websocket_Accept = \<lambda>_ _ _. None, wt_Upgrade = \<lambda>_. Inl EOF\<rparr>"

definition run_server :: Server where
  "run_server = (NewServer [WithGenerateID (\<lambda>_ _. ''s1'')])\<lparr>onConnection := True, onConnectionError := True\<rparr>"

definition run_config :: serverConfig where
  "run_config = srv_options run_server"

definition get_request :: "string \<Rightarrow> Request" where
  "get_request query = \<lparr>Method = ''GET'', Proto = ''HTTP/1.1'', RawQuery = query, ReqHeader = \<lambda>_. [],
     Body = \<lparr>pending = [], final = EOF\<rparr>\<rparr>"

definition run_serve :: "string \<Rightarrow> world \<Rightarrow> world" where
  "run_serve query w = snd (ServeHTTP accepting quiet run_server [] (newResponse None) (get_request query) w)"

text \<open>The session is at reference 1, its polling transport at 0; the probe's transport is at 4.\<close>

definition run_open :: world where
  "run_open = OnClose 1 True (run_serve ''EIO=4&transport=polling'' (emptyWorld run_config))"

definition run_held :: world where
  "run_held = run_serve ''EIO=4&transport=polling&sid=s1'' run_open"

definition run_sent :: world where
  "run_sent = snd (Send quiet 1 (bytes_of ''hi'') False run_held)"

definition run_probing :: world where
  "run_probing = run_serve ''EIO=4&transport=websocket&sid=s1'' (run_serve ''EIO=4&transport=polling&sid=s1'' run_sent)"

definition receive :: "bytes \<Rightarrow> world \<Rightarrow> world" where
  "receive frame w =
     (case heap w 4 of
        WebSocketT t \<Rightarrow> loop_end websocket_done 4 (websocket_readStep quiet 4 t (Inr (MessageText, frame)) w)
      | _ \<Rightarrow> w)"

definition run_probed :: world where
  "run_probed = receive (bytes_of ''2probe'') run_probing"

definition run_upgraded :: world where
  "run_upgraded = receive (bytes_of ''5'') run_probed"

definition run_closed :: world where
  "run_closed = ServerSocket_Close quiet 1 run_upgraded"


lemma queries:
  "parseQuery ''EIO=4&transport=polling'' = [(''EIO'', ''4''), (''transport'', ''polling'')]"
  "parseQuery ''EIO=4&transport=polling&sid=s1'' = [(''EIO'', ''4''), (''transport'', ''polling''), (''sid'', ''s1'')]"
  "parseQuery ''EIO=4&transport=websocket&sid=s1'' = [(''EIO'', ''4''), (''transport'', ''websocket''), (''sid'', ''s1'')]"
  by code_simp+

lemma run_options [simp]:
  "srv_options run_server = run_config" "onConnection run_server = True"
  "allowsTransport run_config ''polling''" "allowsTransport run_config ''websocket''"
  "generateID run_config r rnd = ''s1''" "allowRequest run_config = None" "maxPayload run_config = 1000000"
  by (simp_all add: run_config_def run_server_def NewServer_def WithGenerateID_def defaultServerConfig_def
      allowsTransport_def TransportTypePolling_def TransportTypeWebSocket_def DefaultMaxPayload_def)

lemma run_cors: "fst (applyCORS S resp (get_request q)) = False"
  by (simp add: applyCORS_def get_request_def Let_def)

lemma get_request_simps [simp]: "Method (get_request q) = ''GET''" "RawQuery (get_request q) = q"
  by (simp_all add: get_request_def)

definition run_resp :: "string \<Rightarrow> ResponseWriter" where
  "run_resp q = snd (applyCORS run_server (newResponse None) (get_request q))"

lemma serve_polling:
  assumes "parseQuery q = (''EIO'', ''4'') # (''transport'', ''polling'') # qs"
  shows "run_serve q w = snd (handlePolling quiet run_server [] (run_resp q) (get_request q) (values_Get qs ''sid'') w)"
  using run_cors [of run_server "newResponse None" q] assms
  by (cases "applyCORS run_server (newResponse None) (get_request q)")
    (simp add: run_serve_def ServeHTTP_def run_resp_def Let_def values_Get_def)

lemma serve_websocket:
  assumes "parseQuery q = (''EIO'', ''4'') # (''transport'', ''websocket'') # qs"
  shows "run_serve q w = snd (handleWebSocket accepting quiet run_server [] (run_resp q) (get_request q) (values_Get qs ''sid'') w)"
  using run_cors [of run_server "newResponse None" q] assms
  by (cases "applyCORS run_server (newResponse None) (get_request q)")
    (simp add: run_serve_def ServeHTTP_def run_resp_def Let_def values_Get_def)

lemma run_resp_simps [simp]: "resp_status (run_resp q) = None" "resp_writeErr (run_resp q) = None"
  by (simp_all add: run_resp_def applyCORS_def Let_def newResponse_def)

definition open_session :: ServerSocket where
  "open_session = (newServerSocket ''s1'' run_config 0)\<lparr>state := sessionOpen, pingTimer := Some Armed,
     onCloseHandler := True\<rparr>"

lemma run_open_eq: "run_open =
   (emptyWorld run_config)\<lparr>sessions := [(''s1'', 1)], nextRef := 2, trace := [Connected 1],
     heap := (heap (emptyWorld run_config))(0 := PollingT newServerPollingTransport),
     sockets := (sockets (emptyWorld run_config))(1 := open_session)\<rparr>"
proof -
  obtain p where p: "buildOpenPacket run_config ''s1'' True = Inr p" using buildOpenPacket_Inr by blast
  have "resp_writeErr (setSessionCookie run_server sid r) = resp_writeErr r" for sid r
    by (simp add: setSessionCookie_def split: option.split)
  then show ?thesis
    unfolding run_open_def serve_polling [OF queries(1)]
    by (simp add: values_Get_def handlePolling_def handleHandshake_def writePollHeaders_def resp_Write_def
        p allowHandshake_def Let_def emptyWorld_def OnClose_def connected_def ServerSocket_open_def allocate_def
        upd_socket_def armPingLocked_def newSessionStore_def store_put_def newServerSocket_def open_session_def)
qed


lemma open_session_simps [simp]:
  "socket_id open_session = ''s1''" "options open_session = run_config" "state open_session = sessionOpen"
  "transport open_session = Some 0" "upgradeTransport open_session = None" "upgrading open_session = False"
  "writeBuffer open_session = []" "probeNoopStop open_session = None" "onCloseHandler open_session = True"
  by (simp_all add: open_session_def newServerSocket_def)

lemma run_open_simps [simp]:
  "sockets run_open 1 = open_session" "sockets run_open (Suc 0) = open_session"
  "store_get (sessions run_open) ''s1'' = Some 1"
  "heap run_open 0 = PollingT newServerPollingTransport" "nextRef run_open = 2" "deliveries run_open = []"
  "closedStops run_open = []" "noopLoops run_open = []" "trace run_open = [Connected 1]"
  by (simp_all add: run_open_eq store_get_def emptyWorld_def)

lemma run_held_eq: "run_held =
    run_open\<lparr>nextRef := 3, heap := (heap run_open)(0 := PollingT \<lparr>pt_closed = False, dataCh = Some 2\<rparr>)\<rparr>"
  unfolding run_held_def serve_polling [OF queries(2)]
  by (simp add: values_Get_def handlePolling_def handlePoll_def activePollingTransport_def Let_def
      polling_hold_def newServerPollingTransport_def flush_once flush_snapshot_def upd_heap_def)

lemma open_session_drained [simp]: "open_session\<lparr>writeBuffer := []\<rparr> = open_session"
  by (simp add: open_session_def newServerSocket_def)

lemma run_sent_eq: "run_sent = run_open\<lparr>nextRef := 3, deliveries := [(2, bytes_of ''4hi'')]\<rparr>"
proof -
  have "EncodePayload [\<lparr>Type = PacketMessage, Data = bytes_of ''hi'', IsBinary = False\<rparr>] = bytes_of ''4hi''"
    by code_simp
  moreover have "(sockets run_open)(Suc 0 := open_session) = sockets run_open" by auto
  moreover have "(heap run_open)(0 := PollingT \<lparr>pt_closed = False, dataCh = None\<rparr>) = heap run_open"
    by (auto simp: newServerPollingTransport_def)
  moreover have "run_open\<lparr>nextRef := 3, deliveries := d, sockets := sockets run_open\<rparr> =
      run_open\<lparr>nextRef := 3, deliveries := d\<rparr>" for d by simp
  ultimately show ?thesis
    unfolding run_sent_def run_held_eq
    by (simp add: Send_def flush_once flush_snapshot_def transport_send_def polling_send_def Let_def
        upd_heap_def upd_socket_def)
qed

lemma run_probing_eq: "run_probing =
    run_open\<lparr>nextRef := 5, deliveries := [(2, bytes_of ''4hi'')],
      heap := (heap run_open)(0 := PollingT \<lparr>pt_closed = False, dataCh = Some 3\<rparr>,
        4 := WebSocketT (newServerWebSocketTransport 1 True)),
      sockets := (sockets run_open)(1 := open_session\<lparr>upgrading := True, upgradeTransport := Some 4,
        upgradeTimer := Some (Armed, 4)\<rparr>)\<rparr>"
proof -
  have "run_serve ''EIO=4&transport=polling&sid=s1'' run_sent = run_open\<lparr>nextRef := 4, deliveries := [(2, bytes_of ''4hi'')],
      heap := (heap run_open)(0 := PollingT \<lparr>pt_closed = False, dataCh = Some 3\<rparr>)\<rparr>"
    unfolding run_sent_eq serve_polling [OF queries(2)]
    by (simp add: values_Get_def handlePolling_def handlePoll_def activePollingTransport_def Let_def
        polling_hold_def newServerPollingTransport_def flush_once flush_snapshot_def upd_heap_def)
  then show ?thesis
    unfolding run_probing_def serve_websocket [OF queries(3)]
    by (simp add: values_Get_def handleWebSocket_def handleWebSocketUpgrade_def startProbe_def startUpgrade_def
        accepting_def transportType_def Let_def upd_heap_def upd_socket_def)
qed

lemma run_frames:
  "decodeWebSocketFrame MessageText (bytes_of ''2probe'') = Inr (text_packet PacketPing (bytes_of ''probe''))"
  "decodeWebSocketFrame MessageText (bytes_of ''5'') = Inr (text_packet PacketUpgrade [])"
  by code_simp+

lemma run_probed_eq: "run_probed =
    run_probing\<lparr>nextRef := 6, noopLoops := [(1, 5)],
      heap := (heap run_probing)(4 := WebSocketT ((newServerWebSocketTransport 1 True)
        \<lparr>ws_frames := [websocket_frame probe_pong]\<rparr>)),
      sockets := (sockets run_open)(1 := open_session\<lparr>upgrading := True, upgradeTransport := Some 4,
        upgradeTimer := Some (Armed, 4), probeNoopStop := Some 5\<rparr>)\<rparr>"
  unfolding run_probed_def receive_def run_probing_eq
  by (simp add: loop_end_def websocket_readStep_def run_frames newServerWebSocketTransport_def
      websocket_handleProbePacket_def probe_ping_def websocket_writeProbePong_def websocket_writeFrame_def
      quiet_def onProbe_def Let_def upd_heap_def upd_socket_def)

lemma run_upgraded_eq: "run_upgraded =
    run_open\<lparr>nextRef := 6, noopLoops := [(1, 5)], closedStops := [5],
      deliveries := [(2, bytes_of ''4hi''), (3, bytes_of ''1'')],
      heap := (heap run_open)(0 := PollingT \<lparr>pt_closed = True, dataCh = None\<rparr>,
        4 := WebSocketT \<lparr>ws_socket = 1, ws_closed = False, ws_probing = False, ws_done = False,
          ws_frames = [websocket_frame probe_pong]\<rparr>),
      sockets := (sockets run_open)(1 := open_session\<lparr>transport := Some 4\<rparr>)\<rparr>"
proof -
  have "EncodePayload [text_packet PacketClose []] = bytes_of ''1''" by code_simp
  moreover have "open_session\<lparr>upgrading := False, transport := Some 4, upgradeTransport := None,
      upgradeTimer := None, probeNoopStop := None\<rparr> = open_session\<lparr>transport := Some 4\<rparr>"
    by (simp add: open_session_def newServerSocket_def)
  ultimately show ?thesis
    unfolding run_upgraded_def run_probed_eq receive_def run_probing_eq
    by (simp add: loop_end_def websocket_readStep_def run_frames newServerWebSocketTransport_def
        websocket_handleProbePacket_def probe_ping_def completeUpgrade_def beginCompleteUpgrade_def
        transport_promote_def websocket_promote_def close_stop_def close_opt_def transport_close_def
        polling_close_def flush_once flush_snapshot_def Let_def upd_heap_def upd_socket_def fun_upd_twist)
qed


lemma run_closed_eq:
  "trace run_closed = [Connected 1, Closed 1 ''forced close'' None]" "sessions run_closed = []"
  "state (sockets run_closed 1) = sessionClosed" "nextRef run_closed = 6"
  unfolding run_closed_def run_upgraded_eq
  by (simp_all add: ServerSocket_Close_def beginClose_def stopTimersLocked_def flush_once flush_snapshot_def
      transport_send_def websocket_send_def websocket_writeFrame_def quiet_def Let_def closeWithReason_def
      beginTeardown_def close_stop_def run_open_eq store_delete_def emptyWorld_def)

section \<open>Every stage is reachable\<close>

abbreviation run_reaches :: "world \<Rightarrow> bool" where
  "run_reaches \<equiv> server_reachable accepting quiet run_config"

lemma reach_serve: "run_reaches w \<Longrightarrow> run_reaches (run_serve q w)"
  unfolding run_serve_def by (rule server_reachable.step, assumption) (rule server_step.serve, simp)

lemma reach_open: "run_reaches run_open"
  unfolding run_open_def
  by (rule server_reachable.step [OF reach_serve [OF server_reachable.start]]) (rule server_step.close_handler)

lemma reach_held: "run_reaches run_held"
  unfolding run_held_def by (rule reach_serve [OF reach_open])

lemma reach_sent: "run_reaches run_sent"
  unfolding run_sent_def by (rule server_reachable.step [OF reach_held]) (rule server_step.send)

lemma reach_probing: "run_reaches run_probing"
  unfolding run_probing_def by (rule reach_serve [OF reach_serve [OF reach_sent]])

lemma reach_receive:
  assumes "run_reaches w" "heap w 4 = WebSocketT t" "\<not> ws_done t"
  shows "run_reaches (receive frame w)"
  using server_reachable.step [OF assms(1) server_step.websocket [OF assms(2,3)]] assms(2)
  by (simp add: receive_def)

lemma reach_probed: "run_reaches run_probed"
  unfolding run_probed_def
  by (rule reach_receive [OF reach_probing]) (simp add: run_probing_eq newServerWebSocketTransport_def, simp)

lemma reach_upgraded: "run_reaches run_upgraded"
  unfolding run_upgraded_def
  by (rule reach_receive [OF reach_probed]) (simp add: run_probed_eq newServerWebSocketTransport_def, simp)

lemma reach_closed: "run_reaches run_closed"
  unfolding run_closed_def by (rule server_reachable.step [OF reach_upgraded]) (rule server_step.close)

lemma run_fits: "maxPayload run_config \<le> int maxAlloc"
  by (simp add: maxAlloc_def)

end
