(* ===== verification/ServerPolls.thy ===== *)
theory ServerPolls
  imports ServerReferences ServerExample
begin

text \<open>
  Held polls: no channel is sent a second payload, whatever happens to the sessions. The world is
  viewed as the channel each transport holds, the channels that were answered, and the next
  reference; every operation of the server is a sequence of four moves of that view.
\<close>

section \<open>The view and its moves\<close>

definition chan_of :: "serverTransport \<Rightarrow> chan option" where
  "chan_of t = (case t of PollingT pt \<Rightarrow> dataCh pt | _ \<Rightarrow> None)"

lemma chan_of_simps [simp]:
  "chan_of (PollingT pt) = dataCh pt" "chan_of (WebSocketT ws) = None" "chan_of (WebTransportT wt) = None"
  by (simp_all add: chan_of_def)

type_synonym polls = "(tref \<Rightarrow> chan option) \<times> chan list \<times> nat"

definition polls :: "world \<Rightarrow> polls" where
  "polls w = (chan_of \<circ> heap w, map fst (deliveries w), nextRef w)"

inductive poll_move :: "polls \<Rightarrow> polls \<Rightarrow> bool" where
  stay: "poll_move v v"
| drop: "poll_move (h, ds, n) (h(tr := None), ds, n)"
| answer: "h tr = Some ch \<Longrightarrow> poll_move (h, ds, n) (h(tr := None), ds @ [ch], n)"
| hold: "poll_move (h, ds, n) (h(tr := Some n), ds, Suc n)"
| tick: "poll_move (h, ds, n) (h, ds, Suc n)"

definition polls_ok :: "polls \<Rightarrow> bool" where
  "polls_ok = (\<lambda>(h, ds, n).
     distinct ds \<and> (\<forall>d \<in> set ds. d < n) \<and>
     (\<forall>tr ch. h tr = Some ch \<longrightarrow> ch < n \<and> ch \<notin> set ds) \<and>
     (\<forall>tr tr' ch. h tr = Some ch \<longrightarrow> h tr' = Some ch \<longrightarrow> tr = tr'))"

lemma polls_ok_move: "poll_move v v' \<Longrightarrow> polls_ok v \<Longrightarrow> polls_ok v'"
  by (induction rule: poll_move.induct) (auto simp: polls_ok_def less_Suc_eq split: if_splits)

lemma polls_ok_moves: "poll_move\<^sup>*\<^sup>* v v' \<Longrightarrow> polls_ok v \<Longrightarrow> polls_ok v'"
  by (induction rule: rtranclp_induct) (auto intro: polls_ok_move)

section \<open>Every operation is a sequence of moves\<close>

lemma chan_upd [simp]: "chan_of \<circ> h(tr := t) = (chan_of \<circ> h)(tr := chan_of t)"
  by auto

lemma polls_quiet: "chan_of t = chan_of (heap w tr) \<Longrightarrow> polls (upd_heap tr t w) = polls w"
  by (auto simp: polls_def)

lemma polls_upd_socket [simp]: "polls (upd_socket s f w) = polls w" "polls (close_stop c w) = polls w"
  by (simp_all add: polls_def)

lemma polls_send:
  assumes "transport_send N tr ps w = (r, w')"
  shows "poll_move (polls w) (polls w')"
proof (cases "heap w tr")
  case (PollingT pt)
  show ?thesis
  proof (cases "pt_closed pt \<or> dataCh pt = None")
    case True
    then have "w' = upd_heap tr (heap w tr) w"
      using assms PollingT by (auto simp: transport_send_def polling_send_def upd_heap_def split: if_splits)
    then show ?thesis by (simp add: polls_quiet poll_move.stay)
  next
    case False
    then obtain ch where "dataCh pt = Some ch" "\<not> pt_closed pt" by auto
    then show ?thesis
      using assms PollingT poll_move.answer [of "chan_of \<circ> heap w" tr ch]
      by (auto simp: transport_send_def polling_send_def polls_def)
  qed
qed (use assms in \<open>auto simp: transport_send_def polls_quiet poll_move.stay split: prod.splits\<close>)

lemma polls_close: "poll_move (polls w) (polls (transport_close tr w))"
proof (cases "heap w tr")
  case (PollingT pt)
  show ?thesis
  proof (cases "pt_closed pt")
    case True
    then have "transport_close tr w = upd_heap tr (heap w tr) w"
      using PollingT by (simp add: transport_close_def polling_close_def upd_heap_def)
    then show ?thesis by (simp add: polls_quiet poll_move.stay)
  next
    case False
    then show ?thesis
      using PollingT poll_move.answer [of "chan_of \<circ> heap w" tr]
        poll_move.drop [of "chan_of \<circ> heap w" "map fst (deliveries w)" "nextRef w" tr]
      by (cases "dataCh pt") (simp_all add: transport_close_def polling_close_def polls_def)
  qed
qed (simp_all add: transport_close_def polls_quiet poll_move.stay)

lemma polls_close_opt: "poll_move (polls w) (polls (close_opt tr w))"
  by (simp add: close_opt_def polls_close poll_move.stay split: option.split)

lemma polls_promote: "polls (transport_promote tr w) = polls w"
  by (auto simp: transport_promote_def polls_quiet split: serverTransport.split)

lemma polls_noop: "poll_move (polls w) (polls (flushProbeNoop s w))"
proof (cases "activePollingTransport s w")
  case (Some tr)
  then obtain pt where pt: "heap w tr = PollingT pt"
    by (auto simp: activePollingTransport_def split: option.splits serverTransport.splits)
  then show ?thesis
    using Some poll_move.answer [of "chan_of \<circ> heap w" tr]
      poll_move.drop [of "chan_of \<circ> heap w" "map fst (deliveries w)" "nextRef w" tr]
    by (cases "dataCh pt") (simp_all add: flushProbeNoop_def polling_writeNoop_def polls_def)
qed (simp add: flushProbeNoop_def poll_move.stay)

lemma polls_teardown: "poll_move\<^sup>*\<^sup>* (polls w) (polls (closeWithReason s reason cause w))"
proof (cases "state (sockets w s) = sessionClosed")
  case False
  let ?w0 = "close_stop (probeNoopStop (sockets w s)) (upd_socket s torn_down w)"
  let ?w1 = "close_opt (transport (sockets w s)) ?w0"
  let ?w2 = "close_opt (upgradeTransport (sockets w s)) ?w1"
  have "polls (closeWithReason s reason cause w) = polls ?w2"
    by (simp add: closeWithReason_live [OF False] Let_def polls_def)
  moreover have "poll_move (polls w) (polls ?w1)"
    using polls_close_opt [of ?w0] by simp
  ultimately show ?thesis using polls_close_opt [of ?w1 "upgradeTransport (sockets w s)"] by simp
qed (simp add: closeWithReason_closed)

lemma fresh_chan: "fresh_transport b mk \<Longrightarrow> chan_of (mk s) = None"
  by (auto simp: fresh_transport_def)

lemma alloc_moves: "poll_move\<^sup>*\<^sup>* (h, ds, n) (h(r := None), ds, Suc n)"
  by (rule rtranclp_trans [OF r_into_rtranclp r_into_rtranclp]) (rule poll_move.drop poll_move.tick)+

lemma polls_start:
  assumes "fresh_transport True mk"
  shows "poll_move\<^sup>*\<^sup>* (polls w) (polls (snd (startProbe resp mk sid refusal w)))"
proof -
  let ?w = "\<lambda>s. upd_heap (nextRef w) (mk s) (w\<lparr>nextRef := Suc (nextRef w)\<rparr>)"
  have "poll_move\<^sup>*\<^sup>* (polls w) (polls (?w s))" for s
    by (simp add: polls_def fresh_chan [OF assms] alloc_moves)
  then show ?thesis
    using polls_close [of "?w s" "nextRef w" for s]
    by (auto simp: startProbe_eq Let_def split: option.split intro: rtranclp.rtrancl_into_rtrancl)
qed

lemma polls_started:
  assumes "fresh_transport False mk \<or> mk = (\<lambda>_. PollingT newServerPollingTransport)"
  shows "poll_move\<^sup>*\<^sup>* (polls w) (polls (started mk sid cfg w))"
proof -
  have "chan_of (mk s) = None" for s
    using assms fresh_chan by (auto simp: newServerPollingTransport_def)
  then have "polls (started mk sid cfg w) =
      ((chan_of \<circ> heap w)(nextRef w := None), map fst (deliveries w), Suc (Suc (nextRef w)))"
    by (simp add: polls_def started_def)
  then show ?thesis
    unfolding polls_def
    by (simp only:) (rule rtranclp.rtrancl_into_rtrancl [OF alloc_moves poll_move.tick])
qed

lemma polls_hold:
  assumes "heap w tr = PollingT pt" "polling_hold pt (nextRef w) = (None, pt')"
  shows "poll_move (polls w) (polls (upd_heap tr (PollingT pt') (w\<lparr>nextRef := Suc (nextRef w)\<rparr>)))"
  using assms poll_move.hold [of "chan_of \<circ> heap w"]
  by (auto simp: polling_hold_def polls_def split: if_splits)

lemma polls_release:
  assumes "heap w tr = PollingT pt"
  shows "poll_move (polls w) (polls (upd_heap tr (PollingT (snd (polling_release pt ch))) w))"
proof (cases "dataCh pt = Some ch")
  case True
  then show ?thesis
    using poll_move.drop [of "chan_of \<circ> heap w" "map fst (deliveries w)" "nextRef w" tr]
    by (simp add: polling_release_def polls_def)
qed (use assms in \<open>simp add: polling_release_def polls_quiet poll_move.stay\<close>)

lemma polls_abort: "poll_move (polls w) (polls (abortUpgrade s tr w))"
  using polls_close [of "close_stop (probeNoopStop (sockets w s)) (upd_socket s aborted w)" tr]
  by (simp add: abortUpgrade_eq poll_move.stay)

lemma polls_swap:
  "poll_move (polls w) (polls (close_opt old (close_stop stop (transport_promote tr (upd_socket s f w)))))"
  using polls_close_opt [of "close_stop stop (transport_promote tr (upd_socket s f w))" old]
  by (simp add: polls_promote)

lemma polls_other:
  "polls (w\<lparr>trace := a\<rparr>) = polls w" "polls (w\<lparr>due := b\<rparr>) = polls w" "polls (w\<lparr>sessions := c\<rparr>) = polls w"
  "polls (w\<lparr>noopLoops := d\<rparr>) = polls w"
  by (simp_all add: polls_def)

lemma polls_tick: "poll_move (polls w) (polls (w\<lparr>nextRef := Suc (nextRef w)\<rparr>))"
  by (simp add: polls_def poll_move.tick)

lemma polls_probe: "poll_move (polls w) (polls (onProbe s w))"
  by (simp add: onProbe_def Let_def polls_def poll_move.intros)

lemma polls_empty: "polls_ok (polls (emptyWorld cfg))"
  by (simp add: polls_def emptyWorld_def polls_ok_def)

interpretation answering: refs_extension "\<lambda>w. polls_ok (polls w)" N cfg for N cfg
  by unfold_locales
    (auto simp: polls_empty polls_other polls_quiet
      intro: polls_ok_moves [OF polls_teardown] polls_ok_moves [OF polls_start] polls_ok_moves [OF polls_started]
        polls_ok_move [OF polls_send] polls_ok_move [OF polls_probe] polls_ok_move [OF polls_noop]
        polls_ok_move [OF polls_swap] polls_ok_move [OF polls_abort] polls_ok_move [OF polls_tick]
        polls_ok_move [OF polls_hold] polls_ok_move [OF polls_release] polls_ok_move [OF polls_close])

section \<open>What polls get\<close>

text \<open>
  C5: in every state a server can reach, whatever the requests, writes, timers and closes and their
  order: each channel of a held poll was sent at most one payload, so a send never blocks on a full
  channel; a poll that is still held was sent none; and no two transports hold the same poll.
\<close>

theorem delivery_once:
  assumes "server_reachable P N cfg w" "maxPayload cfg \<le> int maxAlloc"
  shows "distinct (map fst (deliveries w)) \<and>
    (\<forall>tr pt ch. heap w tr = PollingT pt \<and> dataCh pt = Some ch \<longrightarrow>
       ch \<notin> set (map fst (deliveries w)) \<and>
       (\<forall>tr' pt'. heap w tr' = PollingT pt' \<and> dataCh pt' = Some ch \<longrightarrow> tr' = tr))"
proof -
  have ok: "polls_ok (polls w)" using answering.whole.reachable [OF assms] by blast
  have "ch \<notin> set (map fst (deliveries w)) \<and> (\<forall>tr' pt'. heap w tr' = PollingT pt' \<and> dataCh pt' = Some ch \<longrightarrow> tr' = tr)"
    if "heap w tr = PollingT pt" "dataCh pt = Some ch" for tr pt ch
  proof -
    have c: "(chan_of \<circ> heap w) tr = Some ch" using that by simp
    have "(chan_of \<circ> heap w) tr' = Some ch" if "heap w tr' = PollingT pt'" "dataCh pt' = Some ch" for tr' pt'
      using that by simp
    with ok c show ?thesis unfolding polls_ok_def polls_def by (simp only: prod.case) blast
  qed
  moreover have "distinct (map fst (deliveries w))" using ok by (simp add: polls_ok_def polls_def)
  ultimately show ?thesis by blast
qed

theorem delivery_once_witness:
  "deliveries run_upgraded = [(2, bytes_of ''4hi''), (3, bytes_of ''1'')] \<and>
     distinct (map fst (deliveries run_upgraded))"
  using delivery_once [OF reach_upgraded run_fits] by (simp add: run_upgraded_eq)

end
