(* ===== verification/ServerLifecycle.thy ===== *)
theory ServerLifecycle
  imports ServerReferences ServerExample
begin

text \<open>
  What happens to the resources of sessions, as invariants of the server: the channels that stop the
  goroutines of a probe, the close handler, the transports, and the entries of the store.
\<close>

section \<open>Stop channels\<close>

text \<open>
  The view: the stop channel of each session, the channels that are closed, and the goroutines
  waiting for one.
\<close>

definition stops_ok :: "world \<Rightarrow> bool" where
  "stops_ok w \<longleftrightarrow>
     \<not> panicked w \<and>
     (\<forall>c \<in> set (closedStops w). c < nextRef w) \<and>
     (\<forall>s c. probeNoopStop (sockets w s) = Some c \<longrightarrow> c < nextRef w \<and> c \<notin> set (closedStops w)) \<and>
     (\<forall>s s' c. probeNoopStop (sockets w s) = Some c \<longrightarrow> probeNoopStop (sockets w s') = Some c \<longrightarrow> s = s') \<and>
     (\<forall>(s, c) \<in> set (noopLoops w). c \<in> set (closedStops w) \<or> probeNoopStop (sockets w s) = Some c)"

lemma stops_cong:
  assumes "stops_ok w" "\<And>s. probeNoopStop (sockets w' s) = probeNoopStop (sockets w s)"
    "panicked w' = panicked w" "closedStops w' = closedStops w" "noopLoops w' = noopLoops w" "nextRef w \<le> nextRef w'"
  shows "stops_ok w'"
  using assms unfolding stops_ok_def by (simp, meson less_le_trans)

text \<open>A session gives its stop channel up and it is closed.\<close>

lemma stops_give_up:
  assumes ok: "stops_ok w" and f: "probeNoopStop (f (sockets w s)) = None"
  shows "stops_ok (close_stop (probeNoopStop (sockets w s)) (upd_socket s f w))"
proof (cases "probeNoopStop (sockets w s)")
  case None
  then show ?thesis using f by (intro stops_cong [OF ok]) (auto simp: close_stop_def)
next
  case (Some c)
  moreover have "c \<notin> set (closedStops w)" using ok Some by (simp add: stops_ok_def)
  ultimately show ?thesis
    using ok f unfolding stops_ok_def by (fastforce simp: close_stop_def split: if_splits)
qed

lemma stops_probe: "stops_ok w \<Longrightarrow> stops_ok (onProbe s w)"
proof (cases "\<not> upgrading (sockets w s) \<or> probeNoopStop (sockets w s) \<noteq> None")
  case False
  assume "stops_ok w"
  then show ?thesis
    using False unfolding stops_ok_def by (fastforce simp: onProbe_def Let_def less_Suc_eq split: if_splits)
qed (auto simp: onProbe_def)

lemma stops_teardown: "stops_ok w \<Longrightarrow> stops_ok (closeWithReason s reason cause w)"
proof (cases "state (sockets w s) = sessionClosed")
  case False
  assume "stops_ok w"
  from stops_give_up [OF this, of torn_down s] show ?thesis
    by (rule stops_cong) (simp_all add: closeWithReason_live [OF False] Let_def)
qed (simp add: closeWithReason_closed)

lemma stops_abort: "stops_ok w \<Longrightarrow> stops_ok (abortUpgrade s tr w)"
proof -
  assume ok: "stops_ok w"
  have "stops_ok (transport_close tr (close_stop (probeNoopStop (sockets w s)) (upd_socket s aborted w)))"
    by (rule stops_cong [OF stops_give_up [OF ok, of aborted s]]) (simp_all add: aborted_def)
  with ok show ?thesis by (simp add: abortUpgrade_eq)
qed

lemma stops_swap:
  assumes "stops_ok w"
  shows "stops_ok (close_opt old (close_stop (probeNoopStop (sockets w s)) (transport_promote tr (upd_socket s (upgraded tr) w))))"
proof -
  have "close_stop c (transport_promote tr w') = transport_promote tr (close_stop c w')" for c w'
    by (simp add: close_stop_def transport_promote_def upd_heap_def split: option.split serverTransport.split)
  then show ?thesis
    by (auto intro!: stops_cong [OF stops_give_up [OF assms, of "upgraded tr" s]]) (simp_all add: upgraded_def)
qed

lemma stops_noop: "stops_ok w \<Longrightarrow> stops_ok (flushProbeNoop s w)"
  by (erule stops_cong) (simp_all add: flushProbeNoop_def split: option.split serverTransport.split prod.split)

lemma stops_start: "stops_ok w \<Longrightarrow> stops_ok (snd (startProbe resp mk sid refusal w))"
  by (erule stops_cong) (auto simp: startProbe_eq probing_at_def Let_def split: option.split)

lemma stops_started:
  assumes "refs_inv cfg w" "stops_ok w"
  shows "stops_ok (started mk sid cfg w)"
proof -
  have "state (sockets w (Suc (nextRef w))) = sessionClosed" "wf_socket (sockets w (Suc (nextRef w)))"
    using assms(1) by (simp_all add: refs_inv_def socket_ok_def)
  then have "probeNoopStop (sockets w (Suc (nextRef w))) = None"
    by (auto simp: wf_socket_def wf_upgrade_def)
  then show ?thesis
    by (intro stops_cong [OF assms(2)]) (auto simp: started_def newServerSocket_def)
qed

lemma stops_exit:
  "stops_ok w \<Longrightarrow> stops_ok (w\<lparr>noopLoops := remove1 x (noopLoops w)\<rparr>)"
  using set_remove1_subset [of x "noopLoops w"] by (auto simp: stops_ok_def)

lemma send_simps:
  assumes "transport_send N tr ps w = (r, w')"
  shows "sockets w' = sockets w" "sessions w' = sessions w" "closedStops w' = closedStops w"
    "noopLoops w' = noopLoops w" "trace w' = trace w" "nextRef w' = nextRef w" "panicked w' = panicked w"
  using transport_send_same [of w N tr ps] assms by (simp_all add: same_session_def)

interpretation stopping: refs_extension stops_ok N cfg for N cfg
proof unfold_locales
  show "stops_ok (emptyWorld cfg)" by (simp add: stops_ok_def emptyWorld_def)
qed (auto intro: stops_teardown stops_probe stops_noop stops_swap stops_abort stops_start stops_started stops_exit
    elim: stops_cong simp: send_simps benign_def)


section \<open>The close handler\<close>

definition is_close :: "sref \<Rightarrow> event \<Rightarrow> bool" where
  "is_close s e = (case e of Closed s' _ _ \<Rightarrow> s' = s | _ \<Rightarrow> False)"

definition closes :: "sref \<Rightarrow> world \<Rightarrow> nat" where
  "closes s w = length (filter (is_close s) (trace w))"

definition trace_ok :: "world \<Rightarrow> bool" where
  "trace_ok w \<longleftrightarrow>
     (\<forall>s. closes s w \<le> 1 \<and> (state (sockets w s) \<noteq> sessionClosed \<or> nextRef w \<le> s \<longrightarrow> closes s w = 0))"

lemma trace_cong:
  assumes "trace_ok w" "trace w' = trace w" "nextRef w \<le> nextRef w'"
    "\<And>s. state (sockets w' s) \<noteq> sessionClosed \<Longrightarrow> state (sockets w s) \<noteq> sessionClosed \<or> nextRef w \<le> s"
  shows "trace_ok w'"
  using assms unfolding trace_ok_def closes_def by (simp, meson le_trans)

lemma trace_teardown: "refs_inv cfg w \<Longrightarrow> trace_ok w \<Longrightarrow> trace_ok (closeWithReason s reason cause w)"
proof (cases "state (sockets w s) = sessionClosed")
  case False
  assume "trace_ok w" "refs_inv cfg w"
  moreover have "s < nextRef w" using live_allocated [OF \<open>refs_inv cfg w\<close> False] .
  ultimately show ?thesis
    using False unfolding trace_ok_def closes_def
    by (auto simp: closeWithReason_live [OF False] Let_def is_close_def)
qed (simp add: closeWithReason_closed)

lemma trace_noop: "trace_ok w \<Longrightarrow> trace_ok (flushProbeNoop s w)"
  by (erule trace_cong) (simp_all add: flushProbeNoop_def split: option.splits serverTransport.splits prod.splits)

lemma trace_start: "trace_ok w \<Longrightarrow> trace_ok (snd (startProbe resp mk sid refusal w))"
  by (erule trace_cong) (auto simp: startProbe_eq probing_at_def Let_def split: option.splits if_splits)

lemma trace_event:
  "trace_ok w \<Longrightarrow> (\<And>s reason cause. e \<noteq> Closed s reason cause) \<Longrightarrow> trace_ok (w\<lparr>trace := trace w @ [e]\<rparr>)"
  by (cases e) (auto simp: trace_ok_def closes_def is_close_def)

lemma trace_other:
  "trace_ok w \<Longrightarrow> trace_ok (onProbe s w)" "trace_ok w \<Longrightarrow> trace_ok (abortUpgrade s tr w)"
  "trace_ok w \<Longrightarrow> trace_ok (started mk sid cfg w)"
  "trace_ok w \<Longrightarrow> trace_ok (close_opt old (close_stop c (transport_promote tr (upd_socket s (upgraded tr) w))))"
  by (erule trace_cong; simp add: onProbe_def abortUpgrade_eq aborted_def upgraded_def started_def Let_def split: if_splits)+

interpretation tracing: refs_extension trace_ok N cfg for N cfg
proof unfold_locales
  show "trace_ok (emptyWorld cfg)" by (simp add: trace_ok_def closes_def emptyWorld_def)
qed (auto intro: trace_teardown trace_noop trace_start trace_event trace_other
    elim: trace_cong simp: send_simps benign_def split: if_splits)

section \<open>Transports are released\<close>

definition transport_closed :: "serverTransport \<Rightarrow> bool" where
  "transport_closed t =
     (case t of PollingT pt \<Rightarrow> pt_closed pt | WebSocketT ws \<Rightarrow> ws_closed ws | WebTransportT wt \<Rightarrow> wt_closed wt)"

lemma transport_closed_simps [simp]:
  "transport_closed (PollingT pt) = pt_closed pt" "transport_closed (WebSocketT ws) = ws_closed ws"
  "transport_closed (WebTransportT wt) = wt_closed wt" "transport_closed dead"
  by (simp_all add: transport_closed_def dead_def)

definition live :: "world \<Rightarrow> tref \<Rightarrow> bool" where
  "live w tr \<longleftrightarrow> \<not> transport_closed (heap w tr)"

definition held_by :: "world \<Rightarrow> tref \<Rightarrow> bool" where
  "held_by w tr \<longleftrightarrow> (\<exists>s. state (sockets w s) \<noteq> sessionClosed \<and> owns (sockets w s) tr)"

definition released :: "world \<Rightarrow> bool" where
  "released w \<longleftrightarrow> (\<forall>tr. live w tr \<longrightarrow> held_by w tr)"

lemma live_close: "live (transport_close tr w) r \<longleftrightarrow> r \<noteq> tr \<and> live w r"
  by (auto simp: live_def transport_close_def polling_close_def websocket_close_def webtransport_close_def
      split: serverTransport.splits prod.splits if_splits)

lemma live_close_opt: "live (close_opt tr w) r \<longleftrightarrow> tr \<noteq> Some r \<and> live w r"
  by (auto simp: close_opt_def live_close split: option.splits)

lemma live_send:
  assumes "transport_send N tr ps w = (x, w')"
  shows "live w' r = live w r"
proof (cases "heap w tr")
  case (PollingT t)
  obtain y t' log where "polling_send (t, deliveries w) ps = (y, t', log)" by (metis prod.exhaust)
  with assms PollingT polling.send_open [of "(t, deliveries w)" ps] show ?thesis
    by (auto simp: live_def transport_send_def split: if_splits)
next
  case (WebSocketT t)
  with assms websocket.send_open [of "ws_Write N tr" t ps] show ?thesis
    by (cases "websocket_send (ws_Write N tr) t ps") (auto simp: live_def transport_send_def split: if_splits)
next
  case (WebTransportT t)
  with assms webtransport.send_open [of "stream_SetWriteDeadline N tr" "stream_Write N tr" t ps] show ?thesis
    by (cases "webtransport_send (stream_SetWriteDeadline N tr) (stream_Write N tr) t ps")
      (auto simp: live_def transport_send_def split: if_splits)
qed

lemma live_promote: "live (transport_promote tr w) r = live w r"
  by (auto simp: live_def transport_promote_def websocket_promote_def webtransport_promote_def
      split: serverTransport.splits)

lemma released_cong:
  assumes "released w" "\<And>r. live w' r \<Longrightarrow> live w r"
    "\<And>s r. state (sockets w s) \<noteq> sessionClosed \<Longrightarrow> owns (sockets w s) r \<Longrightarrow> live w' r \<Longrightarrow>
       state (sockets w' s) \<noteq> sessionClosed \<and> owns (sockets w' s) r"
  shows "released w'"
  using assms unfolding released_def held_by_def by meson

lemma live_simps [simp]:
  "live (upd_socket s f w) r = live w r" "live (close_stop c w) r = live w r"
  "live (w\<lparr>trace := a\<rparr>) r = live w r" "live (w\<lparr>due := b\<rparr>) r = live w r" "live (w\<lparr>sessions := d\<rparr>) r = live w r"
  "live (w\<lparr>noopLoops := e\<rparr>) r = live w r" "live (w\<lparr>nextRef := n\<rparr>) r = live w r"
  "live (upd_heap tr t w) r = (if r = tr then \<not> transport_closed t else live w r)"
  by (simp_all add: live_def)

lemma released_teardown: "released w \<Longrightarrow> released (closeWithReason s reason cause w)"
proof (cases "state (sockets w s) = sessionClosed")
  case False
  assume "released w"
  then show ?thesis
    by (rule released_cong)
      (auto simp: closeWithReason_live [OF False] Let_def live_close_opt owns_def live_def [symmetric])
qed (simp add: closeWithReason_closed)

lemma released_abort: "released w \<Longrightarrow> released (abortUpgrade s tr w)"
  by (erule released_cong) (auto simp: abortUpgrade_eq live_close aborted_def owns_def split: if_splits)

lemma released_swap:
  "released w \<Longrightarrow> upgradeTransport (sockets w s) = Some tr \<Longrightarrow>
     released (close_opt (transport (sockets w s)) (close_stop c (transport_promote tr (upd_socket s (upgraded tr) w))))"
  by (erule released_cong) (auto simp: live_close_opt live_promote upgraded_def owns_def split: if_splits)

lemma released_start:
  assumes "refs_inv cfg w" "released w"
  shows "released (snd (startProbe resp mk sid refusal w))"
proof (cases "store_get (sessions w) sid")
  case (Some s)
  let ?n = "nextRef w" let ?w = "upd_heap ?n (mk s) (w\<lparr>nextRef := Suc ?n\<rparr>)"
  have old: "released (transport_close ?n ?w)"
    by (rule released_cong [OF assms(2)]) (simp_all add: live_close split: if_splits)
  have "released (upd_socket s (probing_at ?n) ?w)" if u: "may_upgrade ?w s"
  proof -
    have st: "state (sockets w s) = sessionOpen" "\<not> upgrading (sockets w s)"
      using may_upgrade_state [OF u] by simp_all
    then have "upgradeTransport (sockets w s) = None"
      using assms(1) by (simp add: refs_inv_def socket_ok_def wf_socket_def wf_upgrade_def)
    then have keep: "owns (sockets w s') r \<Longrightarrow> owns (sockets (upd_socket s (probing_at ?n) ?w) s') r \<and>
        (state (sockets (upd_socket s (probing_at ?n) ?w) s') = state (sockets w s'))" for s' r
      by (auto simp: owns_def probing_at_def)
    have "held_by (upd_socket s (probing_at ?n) ?w) ?n"
      using st by (auto simp: held_by_def owns_def probing_at_def intro!: exI [of _ s])
    moreover have "held_by w r \<Longrightarrow> held_by (upd_socket s (probing_at ?n) ?w) r" for r
      unfolding held_by_def using keep by metis
    ultimately have "held_by (upd_socket s (probing_at ?n) ?w) r" if "held_by w r \<or> r = ?n" for r
      using that by blast
    with assms(2) show ?thesis by (auto simp: released_def)
  qed
  with old Some show ?thesis by (simp add: startProbe_eq Let_def)
qed (use assms in \<open>simp add: startProbe_eq\<close>)

lemma released_started:
  assumes "refs_inv cfg w" "released w"
  shows "released (started mk sid cfg w)"
proof -
  let ?n = "nextRef w"
  have "state (sockets w (Suc ?n)) = sessionClosed" using assms(1) by (simp add: refs_inv_def)
  then have keep: "state (sockets w s) \<noteq> sessionClosed \<Longrightarrow> sockets (started mk sid cfg w) s = sockets w s" for s
    by (auto simp: sockets_started)
  have "held_by (started mk sid cfg w) ?n"
    unfolding held_by_def by (rule exI [of _ "Suc ?n"]) (simp add: sockets_started owns_def newServerSocket_def)
  moreover have "held_by w r \<Longrightarrow> held_by (started mk sid cfg w) r" for r
    unfolding held_by_def using keep by metis
  ultimately have "held_by (started mk sid cfg w) r" if "held_by w r \<or> r = ?n" for r
    using that by blast
  moreover have "live (started mk sid cfg w) r \<Longrightarrow> live w r \<or> r = ?n" for r
    by (auto simp: live_def started_def split: if_splits)
  ultimately show ?thesis using assms(2) unfolding released_def by blast
qed

lemma released_noop: "released w \<Longrightarrow> released (flushProbeNoop s w)"
  by (erule released_cong)
    (auto simp: flushProbeNoop_def polling_writeNoop_def live_def split: option.splits serverTransport.splits if_splits)

lemma released_probe: "released w \<Longrightarrow> released (onProbe s w)"
  by (cases "\<not> upgrading (sockets w s) \<or> probeNoopStop (sockets w s) \<noteq> None"; erule released_cong)
    (auto simp: onProbe_def Let_def owns_def)

lemma released_other:
  "released w \<Longrightarrow> released (w\<lparr>trace := a\<rparr>)" "released w \<Longrightarrow> released (w\<lparr>due := b\<rparr>)"
  "released w \<Longrightarrow> released (w\<lparr>sessions := c\<rparr>)" "released w \<Longrightarrow> released (w\<lparr>noopLoops := d\<rparr>)"
  "released w \<Longrightarrow> released (w\<lparr>nextRef := n\<rparr>)"
  by (simp_all add: released_def held_by_def)

lemma released_benign: "released w \<Longrightarrow> benign (sockets w s) sk \<Longrightarrow> released (upd_socket s (\<lambda>_. sk) w)"
  by (erule released_cong) (auto simp: benign_def owns_def)

interpretation releasing: refs_extension released N cfg for N cfg
proof unfold_locales
  show "released (emptyWorld cfg)" by (simp add: released_def live_def emptyWorld_def)
next
  fix w tr pt pt'
  assume "refs_inv cfg w" "released w" "heap w tr = PollingT pt" "polling_hold pt (nextRef w) = (None, pt')"
  then show "released (upd_heap tr (PollingT pt') (w\<lparr>nextRef := Suc (nextRef w)\<rparr>))"
    by (elim released_cong) (auto simp: polling_hold_def live_def split: if_splits)
next
  fix w tr pt ch
  assume "refs_inv cfg w" "released w" "heap w tr = PollingT pt"
  then show "released (upd_heap tr (PollingT (snd (polling_release pt ch))) w)"
    by (elim released_cong) (auto simp: polling_release_def live_def split: if_splits)
next
  fix w tr
  assume "refs_inv cfg w" "released w"
  then show "released (transport_close tr w)"
    by (elim released_cong) (auto simp: live_close)
next
  fix w r w' tr ps
  assume "refs_inv cfg w" "released w" "transport_send N tr ps w = (r, w')"
  then show "released w'"
    by (elim released_cong) (simp_all add: live_send send_simps)
next
  fix w tr ws and ws' :: serverWebSocketTransport
  assume "refs_inv cfg w" "released w" "heap w tr = WebSocketT ws" "ws_closed ws' = ws_closed ws"
  then show "released (upd_heap tr (WebSocketT ws') w)"
    by (elim released_cong) (auto simp: live_def split: if_splits)
next
  fix w tr wt and wt' :: serverWebTransportTransport
  assume "refs_inv cfg w" "released w" "heap w tr = WebTransportT wt" "wt_closed wt' = wt_closed wt"
  then show "released (upd_heap tr (WebTransportT wt') w)"
    by (elim released_cong) (auto simp: live_def split: if_splits)
qed (blast intro: released_teardown released_abort released_swap released_start released_started
    released_noop released_probe released_other released_benign)+


section \<open>The store\<close>

text \<open>An entry of the store is a live session under its own name.\<close>

definition store_ok :: "world \<Rightarrow> bool" where
  "store_ok w \<longleftrightarrow>
     wf_store (sessions w) \<and>
     (\<forall>sid s. store_get (sessions w) sid = Some s \<longrightarrow>
        socket_id (sockets w s) = sid \<and> state (sockets w s) \<noteq> sessionClosed)"

lemma store_cong:
  assumes "store_ok w" "sessions w' = sessions w"
    "\<And>s. state (sockets w s) \<noteq> sessionClosed \<Longrightarrow>
      socket_id (sockets w' s) = socket_id (sockets w s) \<and> state (sockets w' s) \<noteq> sessionClosed"
  shows "store_ok w'"
  using assms by (simp add: store_ok_def)

lemma store_remove: "store_ok w \<Longrightarrow> store_ok (w\<lparr>sessions := store_delete sid (sessions w)\<rparr>)"
  by (auto simp: store_ok_def store.wf_del store.get_del split: if_splits)

lemma store_teardown: "store_ok w \<Longrightarrow> store_ok (closeWithReason s reason cause w)"
proof (cases "state (sockets w s) = sessionClosed")
  case False
  assume "store_ok w"
  then show ?thesis
    by (auto simp: closeWithReason_live [OF False] Let_def store_ok_def store.wf_del store.get_del split: if_splits)
qed (simp add: closeWithReason_closed)

lemma store_started:
  assumes "refs_inv cfg w" "store_ok w"
  shows "store_ok (started mk sid cfg w)"
proof -
  have "state (sockets w (Suc (nextRef w))) = sessionClosed" using assms(1) by (simp add: refs_inv_def)
  with assms(2) show ?thesis
    by (auto simp: store_ok_def started_def store.wf_put store.get_put newServerSocket_def)
qed

lemma store_other:
  "store_ok w \<Longrightarrow> store_ok (onProbe s w)" "store_ok w \<Longrightarrow> store_ok (abortUpgrade s tr w)"
  "store_ok w \<Longrightarrow> store_ok (close_opt old (close_stop c (transport_promote tr (upd_socket s (upgraded tr) w))))"
  "store_ok w \<Longrightarrow> store_ok (flushProbeNoop s w)" "store_ok w \<Longrightarrow> store_ok (snd (startProbe resp mk sid refusal w))"
  by (erule store_cong; auto simp: onProbe_def abortUpgrade_eq aborted_def upgraded_def startProbe_eq probing_at_def
      flushProbeNoop_def Let_def split: option.split serverTransport.split prod.split)+

lemma store_benign: "store_ok w \<Longrightarrow> benign (sockets w s) sk \<Longrightarrow> store_ok (upd_socket s (\<lambda>_. sk) w)"
  by (erule store_cong) (auto simp: benign_def)

interpretation storing: refs_extension store_ok N cfg for N cfg
proof unfold_locales
  show "store_ok (emptyWorld cfg)" by (simp add: store_ok_def emptyWorld_def store.wf_empty store.get_empty)
qed (auto intro: store_remove store_teardown store_started store_other store_benign
    elim: store_cong simp: send_simps)

section \<open>Properties\<close>

text \<open>
  C6: in every state a server can reach, however requests, timers and closes follow each other:
  nothing panicked, since no channel is closed twice and no read asks for more memory than there can
  be; and every goroutine that flushes noops for a probe has
  been told to stop, or belongs to a session that is still upgrading and will tell it, so none leaks.
\<close>

theorem server_never_panics:
  assumes "server_reachable P N cfg w" "maxPayload cfg \<le> int maxAlloc"
  shows "\<not> panicked w \<and>
    (\<forall>s c. (s, c) \<in> set (noopLoops w) \<longrightarrow>
       c \<in> set (closedStops w) \<or> upgrading (sockets w s) \<and> probeNoopStop (sockets w s) = Some c)"
proof -
  have i: "refs_inv cfg w" "stops_ok w" using stopping.whole.reachable [OF assms] by blast+
  have "probeNoopStop (sockets w s) = Some c \<Longrightarrow> upgrading (sockets w s)" for s c
    using i(1) by (simp add: refs_inv_def socket_ok_def wf_socket_def wf_upgrade_def)
  with i(2) show ?thesis by (auto simp: stops_ok_def)
qed

theorem server_never_panics_witness:
  "noopLoops run_upgraded = [(1, 5)] \<and> \<not> panicked run_upgraded \<and> 5 \<in> set (closedStops run_upgraded)"
  using server_never_panics [OF reach_upgraded run_fits] by (simp add: run_upgraded_eq)

text \<open>
  C16: the close handler of a session is called at most once, whatever closes it and however often,
  and never while the session is live.
\<close>

theorem close_handler_once:
  assumes "server_reachable P N cfg w" "maxPayload cfg \<le> int maxAlloc"
  shows "closes s w \<le> 1 \<and> (state (sockets w s) \<noteq> sessionClosed \<longrightarrow> closes s w = 0)"
  using tracing.whole.reachable [OF assms] by (simp add: trace_ok_def)

theorem close_handler_once_witness:
  "closes 1 run_closed \<le> 1 \<and> Closed 1 ''forced close'' None \<in> set (trace run_closed)"
  using close_handler_once [OF reach_closed run_fits, of 1] by (simp add: run_closed_eq)

text \<open>
  C2: no connection leaks: a transport that is not closed belongs to exactly one session, which is
  live and will close it. So once a session is closed, every transport it had is closed too.
\<close>

theorem open_transport_has_live_owner:
  assumes "server_reachable P N cfg w" "maxPayload cfg \<le> int maxAlloc"
    and "\<not> transport_closed (heap w tr)"
  shows "\<exists>!s. state (sockets w s) \<noteq> sessionClosed \<and>
    (transport (sockets w s) = Some tr \<or> upgradeTransport (sockets w s) = Some tr)"
proof -
  have i: "refs_inv cfg w" "released w" using releasing.whole.reachable [OF assms(1,2)] by blast+
  then have "held_by w tr" using assms(3) by (simp add: released_def live_def)
  then show ?thesis
    using i(1) unfolding held_by_def owns_def refs_inv_def by metis
qed

theorem open_transport_has_live_owner_witness:
  "\<exists>!s. state (sockets run_probed s) \<noteq> sessionClosed \<and>
    (transport (sockets run_probed s) = Some 4 \<or> upgradeTransport (sockets run_probed s) = Some 4)"
  by (rule open_transport_has_live_owner [OF reach_probed run_fits])
    (simp add: run_probed_eq newServerWebSocketTransport_def)

text \<open>
  C17: a session that a request can name is live and is found under its own identifier, and the store
  holds one session for each identifier; closing a session removes it.
\<close>

theorem stored_sessions_are_live:
  assumes "server_reachable P N cfg w" "maxPayload cfg \<le> int maxAlloc"
    and "Socket_by_id sid w = Some s"
  shows "socket_id (sockets w s) = sid \<and> state (sockets w s) \<noteq> sessionClosed \<and>
    Count w = card {k. Socket_by_id k w \<noteq> None} \<and>
    Socket_by_id sid (closeWithReason s reason cause w) = None"
proof -
  have i: "store_ok w" using storing.whole.reachable [OF assms(1,2)] by blast
  then have s: "socket_id (sockets w s) = sid" "state (sockets w s) \<noteq> sessionClosed" "wf_store (sessions w)"
    using assms(3) by (auto simp: store_ok_def Socket_by_id_def)
  moreover have "Socket_by_id sid (closeWithReason s reason cause w) = None"
    using s by (simp add: Socket_by_id_def closeWithReason_live Let_def store.get_del)
  ultimately show ?thesis using store.size_dom [OF s(3)] by (simp add: Count_def Socket_by_id_def)
qed

theorem stored_sessions_are_live_witness:
  "Socket_by_id ''s1'' run_held = Some 1 \<and> socket_id (sockets run_held 1) = ''s1'' \<and>
     Socket_by_id ''s1'' (closeWithReason 1 ''forced close'' None run_held) = None"
proof -
  have "Socket_by_id ''s1'' run_held = Some 1" by (simp add: Socket_by_id_def run_held_eq)
  with stored_sessions_are_live [OF reach_held run_fits this, of "''forced close''" None] show ?thesis by blast
qed

end
