(* ===== verification/ServerTimers.thy ===== *)
theory ServerTimers
  imports ServerReferences ServerExample
begin

text \<open>
  Timeouts: a session that is open waits for a timer of the heartbeat, one that is closing for its
  close timer, and an upgrade in progress for the upgrade timer, or the callback of that timer is on
  its way. Running the callback then moves the session on.
\<close>

section \<open>The invariant\<close>

definition watched_session :: "(sref \<times> callback) set \<Rightarrow> sref \<Rightarrow> ServerSocket \<Rightarrow> bool" where
  "watched_session D s sk \<longleftrightarrow>
     (state sk = sessionOpen \<longrightarrow>
        pingTimer sk = Some Armed \<or> pongTimer sk = Some Armed \<or> (s, RunSendPing) \<in> D \<or> (s, RunPingTimeout) \<in> D) \<and>
     (state sk = sessionClosing \<longrightarrow> closeTimer sk = Some Armed \<or> (s, RunForcedClose) \<in> D) \<and>
     (\<forall>tr. state sk = sessionOpen \<and> upgradeTransport sk = Some tr \<longrightarrow>
        upgradeTimer sk = Some (Armed, tr) \<or> (s, RunAbortUpgrade tr) \<in> D)"

text \<open>All sessions are watched, but for those of a set, which are in the middle of closing.\<close>

definition watched_but :: "sref set \<Rightarrow> world \<Rightarrow> bool" where
  "watched_but S w \<longleftrightarrow> (\<forall>s. s \<notin> S \<longrightarrow> watched_session (set (due w)) s (sockets w s))"

abbreviation watched :: "world \<Rightarrow> bool" where
  "watched \<equiv> watched_but {}"

lemma watched_closed [simp]: "state sk = sessionClosed \<Longrightarrow> watched_session D s sk"
  "state sk = sessionOpening \<Longrightarrow> watched_session D s sk"
  by (simp_all add: watched_session_def)

lemma watched_cong:
  "watched_but S w \<Longrightarrow> sockets w' = sockets w \<Longrightarrow> set (due w) \<subseteq> set (due w') \<Longrightarrow> watched_but S w'"
  unfolding watched_but_def watched_session_def by (simp, meson subsetD)

lemma watched_upd:
  "watched_but S w \<Longrightarrow>
     (watched_session (set (due w)) s (sockets w s) \<Longrightarrow> watched_session (set (due w)) s (f (sockets w s))) \<Longrightarrow>
     watched_but S (upd_socket s f w)"
  by (simp add: watched_but_def)

lemma watched_set:
  "watched_but (insert s S) w \<Longrightarrow> watched_session (set (due w)) s (f (sockets w s)) \<Longrightarrow> watched_but S (upd_socket s f w)"
  by (simp add: watched_but_def)

lemma watched_insert: "watched_but S w \<Longrightarrow> watched_but (insert s S) w"
  by (simp add: watched_but_def)

lemma watched_back:
  "watched_but (insert s S) w \<Longrightarrow> watched_session (set (due w)) s (sockets w s) \<Longrightarrow> watched_but S w"
  unfolding watched_but_def by (metis insert_iff)

lemma due_close [simp]: "due (closeWithReason s reason cause w) = due w"
  by (simp add: closeWithReason_def beginTeardown_eq Let_def)

lemma watched_teardown: "watched_but (insert s S) w \<Longrightarrow> watched_but S (closeWithReason s reason cause w)"
  by (rule watched_back [of s]) (auto simp: watched_but_def closeWithReason_sockets)

text \<open>A callback leaves the queue: only its own session may lose its watch.\<close>

lemma watched_taken:
  assumes "watched_but S w"
  shows "watched_but (insert (fst c) S) (w\<lparr>due := remove1 c (due w)\<rparr>)"
proof -
  have "x \<in> set (remove1 c (due w)) \<longleftrightarrow> x \<in> set (due w)" if "fst x \<noteq> fst c" for x
    by (rule in_set_remove1) (use that in auto)
  with assms show ?thesis unfolding watched_but_def watched_session_def by fastforce
qed

lemma send_due: "transport_send N tr ps w = (r, w') \<Longrightarrow> due w' = due w"
  using transport_send_same [of w N tr ps] by (simp add: same_session_def)

interpretation watch_flush: flush_invariant "\<lambda>w. refs_inv cfg w \<and> watched_but S w" N for cfg S N
proof unfold_locales
  fix w r w' tr ps s
  assume "refs_inv cfg w \<and> watched_but S w" "transport_send N tr ps w = (r, w')"
  then show "refs_inv cfg w' \<and> watched_but S w'"
    by (auto simp: send_due transport_send_simps intro: refs_inv_send watched_cong)
qed (auto intro: refs.close refs.clear watched_teardown watched_insert watched_upd simp: watched_session_def)

text \<open>Flushing takes packets from the session, or closes it.\<close>

lemma flush_socket:
  "state (sockets (flush N s w) s) = sessionClosed \<or>
     (\<exists>b. sockets (flush N s w) s = (sockets w s)\<lparr>writeBuffer := b\<rparr>)"
proof (rule flush_rule [where P = "\<lambda>w'. state (sockets w' s) = sessionClosed \<or>
     (\<exists>b. sockets w' s = (sockets w s)\<lparr>writeBuffer := b\<rparr>)"])
  show "state (sockets w s) = sessionClosed \<or> (\<exists>b. sockets w s = (sockets w s)\<lparr>writeBuffer := b\<rparr>)"
    by (auto intro: exI [of _ "writeBuffer (sockets w s)"])
  then show "state (sockets w' s) = sessionClosed \<or> (\<exists>b. sockets w' s = (sockets w s)\<lparr>writeBuffer := b\<rparr>)"
    if "transport_send N tr ps w = (r, w')" for tr ps r w'
    using transport_send_simps [OF that] by simp
qed auto

section \<open>Changes in more than one section\<close>

lemma watched_Close:
  assumes "refs_inv cfg w" "watched w"
  shows "watched (ServerSocket_Close N s w)"
proof (cases "beginClose (sockets w s)")
  case (Some sk)
  let ?w = "flush N s (upd_socket s (\<lambda>_. sk) w)"
  have "refs_inv cfg (upd_socket s (\<lambda>_. sk) w) \<and> watched_but {s} (upd_socket s (\<lambda>_. sk) w)"
    using assms refs.begin_close [OF assms(1) Some] by (auto simp: watched_but_def)
  then have i: "watched_but {s} ?w" using watch_flush.flush by blast
  have "state sk = sessionClosing" "closeTimer sk = None" using beginClose_SomeD [OF Some] by simp_all
  then have st: "state (sockets ?w s) = sessionClosing \<and> closeTimer (sockets ?w s) = None \<or>
      state (sockets ?w s) = sessionClosed"
    using flush_socket [of N s "upd_socket s (\<lambda>_. sk) w"] by auto
  have "watched (upd_socket s (\<lambda>sk. sk\<lparr>closeTimer := Some Armed\<rparr>) ?w)" if "state (sockets ?w s) = sessionClosing"
    by (rule watched_set [OF i]) (simp add: watched_session_def that)
  moreover have "watched ?w" if "state (sockets ?w s) = sessionClosed"
    by (rule watched_back [OF i]) (simp add: that)
  ultimately show ?thesis using Some st by (auto simp: ServerSocket_Close_def Let_def)
qed (use assms in \<open>simp add: ServerSocket_Close_def\<close>)

lemma watched_abort:
  assumes "watched_but S w"
  shows "watched_but S (abortUpgrade s tr w)"
proof -
  have "watched_but S (transport_close tr (close_stop c (upd_socket s aborted w)))" for c
    by (rule watched_cong [OF watched_upd [OF assms, of s aborted]])
      (auto simp: watched_session_def aborted_def)
  with assms show ?thesis by (simp add: abortUpgrade_eq)
qed

lemma upgrading_iff: "refs_inv cfg w \<Longrightarrow> upgrading (sockets w s) \<longleftrightarrow> upgradeTransport (sockets w s) \<noteq> None"
  by (simp add: refs_inv_def socket_ok_def wf_socket_def wf_upgrade_def)

lemma watched_callback:
  assumes "refs_inv cfg w" "watched w"
  shows "watched (runCallback N c (w\<lparr>due := remove1 c (due w)\<rparr>))"
proof -
  obtain s cb where c: "c = (s, cb)" by force
  let ?w = "w\<lparr>due := remove1 c (due w)\<rparr>"
  have i: "refs_inv cfg ?w" "watched_but {s} ?w"
    using refs.due [OF assms(1)] watched_taken [OF assms(2), of c] c by simp_all
  have old: "watched_session (set (due w)) s (sockets w s)" using assms(2) by (simp add: watched_but_def)
  have rest: "x \<in> set (remove1 c (due w)) \<longleftrightarrow> x \<in> set (due w)" if "x \<noteq> c" for x
    using that by (rule in_set_remove1)
  show ?thesis
  proof (cases cb)
    case RunSendPing
    let ?f = "\<lambda>sk. sk\<lparr>writeBuffer := writeBuffer sk @ [text_packet PacketPing []], pongTimer := Some Armed\<rparr>"
    show ?thesis
    proof (cases "state (sockets w s) = sessionOpen")
      case True
      have "watched (upd_socket s ?f ?w)"
        by (rule watched_set [OF i(2)])
          (use old True rest c RunSendPing in \<open>auto simp: watched_session_def\<close>)
      moreover have "refs_inv cfg (upd_socket s ?f ?w)" by (rule refs.ping [OF i(1) _ well_formed_ping]) (use True in simp)
      ultimately show ?thesis
        using watch_flush.flush True c RunSendPing by (auto simp: runCallback_def sendPing_def)
    next
      case False
      have "watched ?w"
        by (rule watched_back [OF i(2)])
          (use False old rest c RunSendPing in \<open>auto simp: watched_session_def\<close>)
      with False c RunSendPing show ?thesis by (simp add: runCallback_def sendPing_def)
    qed
  next
    case (RunAbortUpgrade tr)
    have "watched (abortUpgrade s tr ?w)"
    proof (cases "upgrading (sockets w s) \<and> upgradeTransport (sockets w s) = Some tr")
      case True
      have "watched (upd_socket s aborted ?w)"
        by (rule watched_set [OF i(2)])
          (use old rest c RunAbortUpgrade in \<open>auto simp: watched_session_def aborted_def\<close>)
      then show ?thesis
        using True by (auto simp: abortUpgrade_eq elim!: watched_cong)
    next
      case False
      have "upgradeTransport (sockets w s) \<noteq> Some tr"
        using False upgrading_iff [OF assms(1), of s] by auto
      then have "watched_session (set (due ?w)) s (sockets ?w s)"
        using old rest c RunAbortUpgrade by (auto simp: watched_session_def)
      with i(2) have "watched ?w" by (rule watched_back)
      with False show ?thesis by (auto simp: abortUpgrade_eq)
    qed
    with c RunAbortUpgrade show ?thesis by (simp add: runCallback_def)
  qed (use i(2) c in \<open>auto simp: runCallback_def intro: watched_teardown\<close>)
qed

section \<open>The other changes\<close>

lemma watched_start:
  assumes "watched w"
  shows "watched (snd (startProbe resp mk sid refusal w))"
proof (cases "store_get (sessions w) sid")
  case (Some s)
  let ?w = "upd_heap (nextRef w) (mk s) (w\<lparr>nextRef := Suc (nextRef w)\<rparr>)"
  have "watched ?w" by (rule watched_cong [OF assms]) simp_all
  then have "watched (upd_socket s (probing_at (nextRef w)) ?w)" "watched (transport_close (nextRef w) ?w)"
    by (auto intro!: watched_upd simp: watched_session_def probing_at_def elim: watched_cong)
  with Some show ?thesis by (simp add: startProbe_eq Let_def)
qed (use assms in \<open>simp add: startProbe_eq\<close>)

lemma watched_probe: "watched w \<Longrightarrow> watched (onProbe s w)"
proof (cases "\<not> upgrading (sockets w s) \<or> probeNoopStop (sockets w s) \<noteq> None")
  case False
  assume "watched w"
  then have "watched (upd_socket s (\<lambda>sk. sk\<lparr>probeNoopStop := Some (nextRef w)\<rparr>) w)"
    by (rule watched_upd) (simp add: watched_session_def)
  then show ?thesis by (rule watched_cong) (use False in \<open>simp_all add: onProbe_def Let_def\<close>)
qed (auto simp: onProbe_def)

lemma watched_swap:
  assumes "watched w"
  shows "watched (close_opt old (close_stop stop (transport_promote tr (upd_socket s (upgraded tr) w))))"
proof -
  have "watched (upd_socket s (upgraded tr) w)"
    by (rule watched_upd [OF assms]) (auto simp: watched_session_def upgraded_def)
  then show ?thesis by (rule watched_cong) simp_all
qed

lemma watched_fire:
  assumes "watched w" "fireTimers s cb w = Some w'"
  shows "watched w'"
proof -
  from assms(2) have w': "w' = (upd_socket s (fired cb) w)\<lparr>due := due w @ [(s, cb)]\<rparr>"
    by (auto simp: fireTimers_eq split: if_splits)
  have "watched_but {s} (w\<lparr>due := due w @ [(s, cb)]\<rparr>)"
    by (rule watched_insert, rule watched_cong [OF assms(1)]) auto
  moreover have "watched_session (set (due w @ [(s, cb)])) s (fired cb (sockets w s))"
    using assms unfolding watched_but_def watched_session_def
    by (cases cb) (auto simp: fired_def fireTimers_eq armed_def split: if_splits)
  ultimately have "watched (upd_socket s (fired cb) (w\<lparr>due := due w @ [(s, cb)]\<rparr>))"
    by (intro watched_set) simp_all
  then show ?thesis by (rule watched_cong) (simp_all add: w')
qed

lemma watched_started:
  assumes "watched w"
  shows "watched (started mk sid cfg w)"
  using assms by (auto simp: watched_but_def started_def newServerSocket_def)

lemma watched_noop: "watched w \<Longrightarrow> watched (flushProbeNoop s w)"
  by (erule watched_cong) (simp_all add: flushProbeNoop_def split: option.splits serverTransport.splits prod.splits)

lemma watched_other:
  "watched w \<Longrightarrow> watched (w\<lparr>trace := a\<rparr>)" "watched w \<Longrightarrow> watched (w\<lparr>sessions := c\<rparr>)"
  "watched w \<Longrightarrow> watched (w\<lparr>noopLoops := d\<rparr>)" "watched w \<Longrightarrow> watched (w\<lparr>nextRef := n\<rparr>)"
  "watched w \<Longrightarrow> watched (upd_heap tr t w)" "watched w \<Longrightarrow> watched (transport_close tr w)"
  "watched w \<Longrightarrow> watched (upd_heap tr t (w\<lparr>nextRef := n\<rparr>))"
  "watched w \<Longrightarrow> watched (OnMessage s h w)" "watched w \<Longrightarrow> watched (OnClose s h w)"
  by (auto simp: OnMessage_def OnClose_def intro!: watched_upd elim: watched_cong) (simp_all add: watched_session_def)

lemma watched_beat:
  "watched w \<Longrightarrow> watched (upd_socket s (\<lambda>sk. sk\<lparr>writeBuffer := writeBuffer sk @ ps\<rparr>) w)"
  "watched w \<Longrightarrow> watched (upd_socket s (\<lambda>sk. sk\<lparr>writeBuffer := writeBuffer sk @ ps, pongTimer := Some Armed\<rparr>) w)"
  "watched w \<Longrightarrow> refs_inv cfg w \<Longrightarrow> watched (ServerSocket_open s w)"
  "watched w \<Longrightarrow> watched (onPong s w)"
proof -
  have "upgradeTransport (sockets w s) = None" if "refs_inv cfg w" "state (sockets w s) = sessionOpening"
    using that by (simp add: refs_inv_def socket_ok_def wf_socket_def wf_upgrade_def) (metis sessionState.distinct)
  then show "watched w \<Longrightarrow> refs_inv cfg w \<Longrightarrow> watched (ServerSocket_open s w)"
    by (auto simp: ServerSocket_open_def armPingLocked_def watched_session_def intro!: watched_upd)
qed (auto simp: onPong_def armPingLocked_def watched_session_def intro!: watched_upd)

interpretation watching: server_invariant "\<lambda>w. refs_inv cfg w \<and> watched w" N cfg for cfg N
proof unfold_locales
  fix w s tr old stop sk
  assume i: "refs_inv cfg w \<and> watched w" and u: "beginCompleteUpgrade (sockets w s) tr = Some (old, stop, sk)"
  have "sk = upgraded tr (sockets w s)" using beginCompleteUpgrade_SomeD [OF u] by simp
  then have "watched (close_opt old (close_stop stop (transport_promote tr (upd_socket s (\<lambda>_. sk) w))))"
    using watched_swap [of w old stop tr s] i by (simp add: upd_socket_def)
  with i u show "refs_inv cfg (close_opt old (close_stop stop (transport_promote tr (upd_socket s (\<lambda>_. sk) w)))) \<and>
      watched (close_opt old (close_stop stop (transport_promote tr (upd_socket s (\<lambda>_. sk) w))))"
    by (blast intro: refs_inv_swap)
next
  show "maxPayload cfg \<le> int maxAlloc \<Longrightarrow> refs_inv cfg (emptyWorld cfg) \<and> watched (emptyWorld cfg)"
    using refs_inv_empty by (simp add: watched_but_def emptyWorld_def)
qed (auto intro: refs.opened refs.pong refs.handlers refs.event refs.start refs.probe refs.noop refs.abort
    refs.fire refs.channel refs.hold refs.release refs.websocket_io refs.webtransport_io refs.born refs.unborn
    refs.stillborn refs.closing refs.callback refs.exit refs.push refs.ping refs_inv_fits refs_inv_options
    watched_start watched_probe watched_fire watched_started watched_noop watched_other watched_beat
    watched_abort watched_Close watched_callback)

section \<open>A silent peer\<close>

text \<open>The steps of a session whose peer is silent and whose application does nothing.\<close>

inductive silent_step :: "network \<Rightarrow> sref \<Rightarrow> world \<Rightarrow> world \<Rightarrow> bool" for N s where
  fires: "fireTimers s cb w = Some w' \<Longrightarrow> silent_step N s w w'"
| runs: "(s, cb) \<in> set (due w) \<Longrightarrow>
    silent_step N s w (runCallback N (s, cb) (w\<lparr>due := remove1 (s, cb) (due w)\<rparr>))"

lemma silent_is_step: "silent_step N s w w' \<Longrightarrow> server_step P N cfg w w'"
  by (induction rule: silent_step.induct) (auto intro: server_step.fire server_step.callback)

text \<open>How many of these steps a session can still take: a ping leads to the wait for its pong.\<close>

definition callback_weight :: "callback \<Rightarrow> nat" where
  "callback_weight cb = (case cb of RunSendPing \<Rightarrow> 3 | _ \<Rightarrow> 1)"

definition timers_weight :: "ServerSocket \<Rightarrow> nat" where
  "timers_weight sk =
     (if pingTimer sk = Some Armed then 4 else 0) + (if pongTimer sk = Some Armed then 2 else 0) +
     (if \<exists>tr. upgradeTimer sk = Some (Armed, tr) then 2 else 0) + (if closeTimer sk = Some Armed then 2 else 0)"

definition due_weight :: "sref \<Rightarrow> (sref \<times> callback) list \<Rightarrow> nat" where
  "due_weight s d = sum_list (map (\<lambda>(s', cb). if s' = s then callback_weight cb else 0) d)"

definition weight :: "sref \<Rightarrow> world \<Rightarrow> nat" where
  "weight s w = timers_weight (sockets w s) + due_weight s (due w)"

lemma due_weight_simps [simp]:
  "due_weight s (d @ [(s, cb)]) = due_weight s d + callback_weight cb"
  by (simp add: due_weight_def)

lemma due_weight_taken:
  "(s, cb) \<in> set d \<Longrightarrow> due_weight s d = callback_weight cb + due_weight s (remove1 (s, cb) d)"
  unfolding due_weight_def by (subst sum_list_map_remove1) auto

lemma timers_weight_torn_down [simp]: "timers_weight (torn_down sk) = 0"
  by (simp add: timers_weight_def torn_down_def)

lemma timers_weight_fired: "armed cb sk \<Longrightarrow> timers_weight (fired cb sk) + callback_weight cb < timers_weight sk"
  by (cases cb) (auto simp: armed_def fired_def timers_weight_def callback_weight_def)

lemma due_flush [simp]: "due (flush N s w) = due w"
  by (rule flush_rule [where P = "\<lambda>w'. due w' = due w"]) (auto dest: send_due)

lemma wf_closed_timers: "wf_socket sk \<Longrightarrow> state sk = sessionClosed \<Longrightarrow> timers_weight sk = 0"
  by (auto simp: wf_socket_def wf_timers_def wf_upgrade_def timers_weight_def)

lemma timers_weight_flush:
  assumes "refs_inv cfg (flush N s w)"
  shows "timers_weight (sockets (flush N s w) s) \<le> timers_weight (sockets w s)"
proof -
  have "timers_weight ((sockets w s)\<lparr>writeBuffer := b\<rparr>) = timers_weight (sockets w s)" for b
    by (simp add: timers_weight_def)
  moreover have "wf_socket (sockets (flush N s w) s)" using assms by (simp add: refs_inv_def socket_ok_def)
  ultimately show ?thesis using flush_socket [of N s w] wf_closed_timers by fastforce
qed

lemma timers_weight_close:
  "refs_inv cfg w \<Longrightarrow> timers_weight (sockets (closeWithReason s reason cause w) s) = 0"
  by (auto simp: closeWithReason_sockets refs_inv_def socket_ok_def intro: wf_closed_timers)

lemma timers_weight_ping:
  "timers_weight (sk\<lparr>writeBuffer := b, pongTimer := Some Armed\<rparr>) \<le> timers_weight sk + 2"
  by (simp add: timers_weight_def)

lemma timers_weight_abort: "timers_weight (sockets (abortUpgrade s tr w) s) \<le> timers_weight (sockets w s)"
  by (simp add: abortUpgrade_eq aborted_def timers_weight_def)

lemma due_callback [simp]: "due (runCallback N c w) = due w"
  by (auto simp: runCallback_def sendPing_def abortUpgrade_eq split: prod.splits callback.splits)

lemma silent_decreases:
  assumes "silent_step N s w w'" "refs_inv cfg w"
  shows "weight s w' < weight s w"
  using assms
proof cases
  case (fires cb)
  then show ?thesis
    using timers_weight_fired [of cb "sockets w s"]
    by (auto simp: fireTimers_eq weight_def split: if_splits)
next
  case (runs cb)
  let ?w = "w\<lparr>due := remove1 (s, cb) (due w)\<rparr>"
  have i: "refs_inv cfg ?w" using refs.due [OF assms(2)] .
  have "timers_weight (sockets w' s) < timers_weight (sockets w s) + callback_weight cb"
  proof (cases cb)
    case RunSendPing
    let ?f = "\<lambda>sk. sk\<lparr>writeBuffer := writeBuffer sk @ [text_packet PacketPing []], pongTimer := Some Armed\<rparr>"
    show ?thesis
    proof (cases "state (sockets w s) = sessionOpen")
      case True
      have "refs_inv cfg (upd_socket s ?f ?w)" by (rule refs.ping [OF i _ well_formed_ping]) (use True in simp)
      then have "refs_inv cfg (flush N s (upd_socket s ?f ?w))" by (rule refs.flush)
      from timers_weight_flush [OF this] timers_weight_ping [where sk = "sockets w s"] show ?thesis
        using runs True RunSendPing
        by (force simp: runCallback_def sendPing_def callback_weight_def intro: le_less_trans)
    qed (use runs RunSendPing in \<open>simp add: runCallback_def sendPing_def callback_weight_def\<close>)
  next
    case (RunAbortUpgrade tr)
    then show ?thesis
      using runs timers_weight_abort [of s tr ?w] by (simp add: runCallback_def callback_weight_def)
  qed (use runs timers_weight_close [OF i] in \<open>auto simp: runCallback_def callback_weight_def\<close>)
  then show ?thesis using runs due_weight_taken [of s cb "due w"] by (simp add: weight_def)
qed

text \<open>Until the session is closed there is a step to take.\<close>

lemma silent_progress:
  assumes "refs_inv cfg w" "watched w" "state (sockets w s) \<in> {sessionOpen, sessionClosing}"
  shows "\<exists>w'. silent_step N s w w'"
proof -
  have "watched_session (set (due w)) s (sockets w s)" using assms(2) by (simp add: watched_but_def)
  then have "\<exists>cb. armed cb (sockets w s) \<or> (s, cb) \<in> set (due w)"
    using assms(3) unfolding watched_session_def armed_def by (auto split: callback.splits)
  moreover have "silent_step N s w (the (fireTimers s cb w))" if "armed cb (sockets w s)" for cb
    by (rule silent_step.fires [of s cb]) (simp add: fireTimers_eq that)
  ultimately show ?thesis by (blast intro: silent_step.runs)
qed

lemma silent_state:
  assumes "silent_step N s w w'" "state (sockets w s) \<noteq> sessionOpening"
  shows "state (sockets w' s) \<noteq> sessionOpening"
  using assms
proof cases
  case (runs cb)
  have "state (sockets (flush N s w0) s) \<noteq> sessionOpening" if "state (sockets w0 s) \<noteq> sessionOpening" for w0
    using flush_socket [of N s w0] that by auto
  with runs assms(2) show ?thesis
    by (cases cb) (auto simp: runCallback_def sendPing_def abortUpgrade_eq aborted_def)
qed (auto simp: fireTimers_eq split: if_splits)

lemma silent_run:
  assumes "(silent_step N s ^^ n) w w'" "refs_inv cfg w \<and> watched w"
  shows "refs_inv cfg w' \<and> watched w' \<and> n + weight s w' \<le> weight s w \<and>
    (state (sockets w s) \<noteq> sessionOpening \<longrightarrow> state (sockets w' s) \<noteq> sessionOpening)"
  using assms
proof (induction n arbitrary: w')
  case (Suc n)
  then obtain w1 where w1: "(silent_step N s ^^ n) w w1" "silent_step N s w1 w'" by auto
  with Suc have IH: "refs_inv cfg w1 \<and> watched w1 \<and> n + weight s w1 \<le> weight s w \<and>
    (state (sockets w s) \<noteq> sessionOpening \<longrightarrow> state (sockets w1 s) \<noteq> sessionOpening)" by blast
  then have "refs_inv cfg w' \<and> watched w'"
    using watching.step [OF silent_is_step [OF w1(2)], of cfg] by blast
  with IH silent_decreases [OF w1(2), of cfg] silent_state [OF w1(2)] show ?case by auto
qed simp

section \<open>Properties\<close>

text \<open>
  C10: no session is ever forgotten: in every reachable state an open session waits for the timer of
  its next ping or of the pong it is owed, a closing one for its close timer, and an upgrade for its
  upgrade timer; or the callback of that timer has been started and is about to run.
\<close>

theorem every_session_is_watched:
  assumes "server_reachable P N cfg w" "maxPayload cfg \<le> int maxAlloc"
  shows "(state (sockets w s) = sessionOpen \<longrightarrow>
        pingTimer (sockets w s) = Some Armed \<or> pongTimer (sockets w s) = Some Armed \<or>
        (s, RunSendPing) \<in> set (due w) \<or> (s, RunPingTimeout) \<in> set (due w)) \<and>
     (state (sockets w s) = sessionClosing \<longrightarrow>
        closeTimer (sockets w s) = Some Armed \<or> (s, RunForcedClose) \<in> set (due w)) \<and>
     (state (sockets w s) = sessionOpen \<and> upgrading (sockets w s) \<longrightarrow>
        (\<exists>tr. upgradeTransport (sockets w s) = Some tr \<and>
           (upgradeTimer (sockets w s) = Some (Armed, tr) \<or> (s, RunAbortUpgrade tr) \<in> set (due w))))"
proof -
  have i: "refs_inv cfg w" "watched w" using watching.reachable [OF assms] by blast+
  have "watched_session (set (due w)) s (sockets w s)" using i(2) by (simp add: watched_but_def)
  then show ?thesis using upgrading_iff [OF i(1), of s] by (auto simp: watched_session_def)
qed

theorem every_session_is_watched_witness:
  "state (sockets run_probing 1) = sessionOpen \<and> upgrading (sockets run_probing 1) \<and>
     (\<exists>tr. upgradeTransport (sockets run_probing 1) = Some tr \<and>
        (upgradeTimer (sockets run_probing 1) = Some (Armed, tr) \<or> (1, RunAbortUpgrade tr) \<in> set (due run_probing)))"
  using every_session_is_watched [OF reach_probing run_fits, of 1] by (simp add: run_probing_eq)

text \<open>
  C1: the heartbeat closes the session of a peer that has gone silent. From a reachable state, let
  only the session's timers fire and their callbacks run, in any order: this ends, after at most as
  many steps as its timers and callbacks weigh, and where it ends the session is closed.
\<close>

theorem silent_session_is_closed:
  assumes "server_reachable P N cfg w" "maxPayload cfg \<le> int maxAlloc"
    and "state (sockets w s) \<in> {sessionOpen, sessionClosing}"
    and "(silent_step N s ^^ n) w w'"
  shows "n \<le> weight s w \<and> ((\<nexists>w''. silent_step N s w' w'') \<longrightarrow> state (sockets w' s) = sessionClosed)"
proof -
  have i: "refs_inv cfg w \<and> watched w" using watching.reachable [OF assms(1,2)] .
  note r = silent_run [OF assms(4) i]
  have "state (sockets w' s) = sessionClosed" if "\<nexists>w''. silent_step N s w' w''"
    using that silent_progress [of cfg w' s N] r assms(3) by (cases "state (sockets w' s)") auto
  with r show ?thesis by auto
qed

text \<open>In the run, the ping fires and is sent, and no pong comes.\<close>

definition run_silent :: "callback \<Rightarrow> world \<Rightarrow> world" where
  "run_silent cb w = runCallback quiet (1, cb) (the (fireTimers 1 cb w)\<lparr>due := []\<rparr>)"

lemma silent_two:
  assumes "due w = []" "armed cb (sockets w 1)"
  shows "(silent_step quiet 1 ^^ 2) w (run_silent cb w)"
proof -
  have f: "fireTimers 1 cb w = Some (the (fireTimers 1 cb w))" "due (the (fireTimers 1 cb w)) = [(1, cb)]"
    using assms by (simp_all add: fireTimers_eq)
  have "silent_step quiet 1 w (the (fireTimers 1 cb w))" by (rule silent_step.fires [OF f(1)])
  moreover have "silent_step quiet 1 (the (fireTimers 1 cb w)) (run_silent cb w)"
    using silent_step.runs [of 1 cb "the (fireTimers 1 cb w)" quiet] f(2) by (simp add: run_silent_def)
  ultimately show ?thesis by (auto simp: numeral_2_eq_2)
qed

theorem silent_session_is_closed_witness:
  "(silent_step quiet 1 ^^ 4) run_open (run_silent RunPingTimeout (run_silent RunSendPing run_open)) \<and>
     4 \<le> weight 1 run_open"
proof -
  have o: "due run_open = []" "pingTimer open_session = Some Armed"
    by (simp_all add: run_open_eq emptyWorld_def open_session_def)
  have 1: "(silent_step quiet 1 ^^ 2) run_open (run_silent RunSendPing run_open)"
    by (rule silent_two) (simp_all add: o armed_def)
  have "due (run_silent RunSendPing run_open) = []" "pongTimer (sockets (run_silent RunSendPing run_open) 1) = Some Armed"
    using o by (simp_all add: run_silent_def fireTimers_eq armed_def fired_def runCallback_def sendPing_def flush_once
        flush_snapshot_def transport_send_def polling_send_def newServerPollingTransport_def)
  then have 2: "(silent_step quiet 1 ^^ 2) (run_silent RunSendPing run_open)
      (run_silent RunPingTimeout (run_silent RunSendPing run_open))"
    by (intro silent_two) (simp_all add: armed_def)
  from relpowp_trans [OF 1 2] have 4: "(silent_step quiet 1 ^^ 4) run_open
      (run_silent RunPingTimeout (run_silent RunSendPing run_open))" by simp
  with silent_session_is_closed [OF reach_open run_fits _ 4] show ?thesis by simp
qed

end
