(* ===== verification/ServerTyping.thy ===== *)
theory ServerTyping
  imports ServerReferences ServerExample
begin

text \<open>
  Type safety of the server: every packet it buffers is well-formed, and everything it hands to a poll
  or writes on a connection is the encoding of well-formed packets, so that its peer can decode it.
\<close>

section \<open>Well-typed worlds\<close>

definition encodes :: "(Packet list \<Rightarrow> 'a) \<Rightarrow> 'a \<Rightarrow> bool" where
  "encodes enc x \<longleftrightarrow> (\<exists>ps. list_all wf_packet ps \<and> x = enc ps)"

definition typed_transport :: "serverTransport \<Rightarrow> bool" where
  "typed_transport t =
     (case t of
        PollingT _ \<Rightarrow> True
      | WebSocketT ws \<Rightarrow> encodes (map websocket_frame) (ws_frames ws)
      | WebTransportT wt \<Rightarrow> encodes (framesBuffer []) (wt_stream wt))"

definition typed :: "world \<Rightarrow> bool" where
  "typed w \<longleftrightarrow>
     (\<forall>s. list_all wf_packet (writeBuffer (sockets w s))) \<and> (\<forall>tr. typed_transport (heap w tr)) \<and>
     list_all (encodes EncodePayload) (map snd (deliveries w))"

lemma encodes_intros:
  "list_all wf_packet ps \<Longrightarrow> encodes enc (enc ps)"
  "encodes (map f) []" "encodes (framesBuffer []) []"
  by (auto simp: encodes_def intro: exI [of _ "[]"])

lemma encodes_append:
  "encodes (map f) xs \<Longrightarrow> encodes (map f) ys \<Longrightarrow> encodes (map f) (xs @ ys)"
  "encodes (framesBuffer []) bs \<Longrightarrow> encodes (framesBuffer []) cs \<Longrightarrow> encodes (framesBuffer []) (bs @ cs)"
proof -
  show "encodes (map f) xs \<Longrightarrow> encodes (map f) ys \<Longrightarrow> encodes (map f) (xs @ ys)"
    unfolding encodes_def by (metis list_all_append map_append)
  show "encodes (framesBuffer []) bs \<Longrightarrow> encodes (framesBuffer []) cs \<Longrightarrow> encodes (framesBuffer []) (bs @ cs)"
    unfolding encodes_def by (metis (no_types, lifting) append_Nil concat_append framesBuffer_eq list_all_append map_append)
qed

lemma typed_simps [simp]:
  "typed_transport (PollingT pt)"
  "typed_transport (WebSocketT ws) \<longleftrightarrow> encodes (map websocket_frame) (ws_frames ws)"
  "typed_transport (WebTransportT wt) \<longleftrightarrow> encodes (framesBuffer []) (wt_stream wt)"
  by (simp_all add: typed_transport_def)

lemma typed_other [simp]:
  "typed (w\<lparr>trace := a\<rparr>) = typed w" "typed (w\<lparr>due := b\<rparr>) = typed w" "typed (w\<lparr>sessions := c\<rparr>) = typed w"
  "typed (w\<lparr>noopLoops := d\<rparr>) = typed w" "typed (w\<lparr>nextRef := n\<rparr>) = typed w"
  "typed (close_stop stop w) = typed w"
  by (simp_all add: typed_def)

lemma typed_upd_heap: "typed w \<Longrightarrow> typed_transport t \<Longrightarrow> typed (upd_heap tr t w)"
  by (simp add: typed_def)

lemma typed_upd_socket: "typed w \<Longrightarrow> list_all wf_packet (writeBuffer (f (sockets w s))) \<Longrightarrow> typed (upd_socket s f w)"
  by (simp add: typed_def)

lemma typed_deliver:
  "typed w \<Longrightarrow> list_all wf_packet ps \<Longrightarrow> typed (w\<lparr>deliveries := deliveries w @ [(ch, EncodePayload ps)]\<rparr>)"
  by (simp add: typed_def encodes_intros)

lemma typed_D: "typed w \<Longrightarrow> list_all wf_packet (writeBuffer (sockets w s))" "typed w \<Longrightarrow> typed_transport (heap w tr)"
  by (simp_all add: typed_def)

section \<open>Every operation keeps the types\<close>

lemma outgoing_typed: "typed w \<Longrightarrow> outgoing (sockets w s) ps \<Longrightarrow> list_all wf_packet ps"
  using typed_D(1) by (fastforce simp: outgoing_def list_all_iff)

lemma writeFrames_typed:
  assumes "websocket_writeFrames wr t ps = (r, t')" "list_all wf_packet ps"
    and "encodes (map websocket_frame) (ws_frames t)"
  shows "encodes (map websocket_frame) (ws_frames t')"
  using assms
proof (induction ps arbitrary: t)
  case (Cons p ps)
  have "encodes (map websocket_frame) (ws_frames t @ [websocket_frame p])"
    by (rule encodes_append) (use Cons.prems encodes_intros(1) [of "[p]" "map websocket_frame"] in simp_all)
  with Cons show ?case by (auto simp: websocket_writeFrame_def split: option.splits)
qed simp

lemma typed_send:
  assumes "typed w" "list_all wf_packet ps" "transport_send N tr ps w = (r, w')"
  shows "typed w'"
proof (cases "heap w tr")
  case (PollingT pt)
  with assms typed_deliver [OF assms(1,2)] show ?thesis
    by (auto simp: transport_send_def polling_send_def getPollBuffer_def EncodePayload_def
        intro: typed_upd_heap split: if_splits option.splits)
next
  case (WebSocketT t)
  with typed_D(2) [OF assms(1), of tr] assms show ?thesis
    by (auto simp: transport_send_def websocket_send_def intro!: typed_upd_heap intro: writeFrames_typed
        split: if_splits prod.splits)
next
  case (WebTransportT t)
  with typed_D(2) [OF assms(1), of tr]
  have "encodes (framesBuffer []) (wt_stream t @ framesBuffer [] ps)"
    by (intro encodes_append encodes_intros(1) assms(2)) simp
  with WebTransportT typed_D(2) [OF assms(1), of tr] assms(1,3) show ?thesis
    by (auto simp: transport_send_def webtransport_send_def webtransport_writeFrames_def Let_def
        intro!: typed_upd_heap split: if_splits option.splits)
qed

lemma typed_close: "typed w \<Longrightarrow> typed (transport_close tr w)"
proof (cases "heap w tr")
  case (PollingT pt)
  moreover assume "typed w"
  ultimately show ?thesis
    using typed_deliver [of w "[text_packet PacketClose []]"]
    by (auto simp: transport_close_def polling_close_def getPollBuffer_def EncodePayload_def wf_packet_def
        PacketType_valid_def intro!: typed_upd_heap split: option.splits)
qed (use typed_D(2) [of w tr] in \<open>auto simp: transport_close_def websocket_close_def webtransport_close_def
    intro!: typed_upd_heap\<close>)

lemma typed_close_opt: "typed w \<Longrightarrow> typed (close_opt tr w)"
  by (auto simp: close_opt_def typed_close split: option.split)

lemma typed_promote: "typed w \<Longrightarrow> typed (transport_promote tr w)"
  using typed_D(2) [of w tr]
  by (auto simp: transport_promote_def websocket_promote_def webtransport_promote_def intro!: typed_upd_heap
      split: serverTransport.split)

lemma typed_noop: "typed w \<Longrightarrow> typed (flushProbeNoop s w)"
  using typed_deliver [of w "[text_packet PacketNoop []]"]
  by (auto simp: flushProbeNoop_def polling_writeNoop_def getPollBuffer_def EncodePayload_def wf_packet_def
      PacketType_valid_def intro!: typed_upd_heap split: option.splits serverTransport.splits)

lemma typed_teardown: "typed w \<Longrightarrow> typed (closeWithReason s reason cause w)"
proof (cases "state (sockets w s) = sessionClosed")
  case False
  assume "typed w"
  then have "typed (upd_socket s torn_down w)" by (rule typed_upd_socket) (simp add: torn_down_def)
  then show ?thesis by (simp add: closeWithReason_live [OF False] Let_def typed_close_opt)
qed (simp add: closeWithReason_closed)

lemma typed_abort: "typed w \<Longrightarrow> typed (abortUpgrade s tr w)"
  using typed_upd_socket [of w aborted s] typed_D(1) [of w s] by (auto simp: abortUpgrade_eq aborted_def intro: typed_close)

lemma typed_swap:
  "typed w \<Longrightarrow> typed (close_opt old (close_stop stop (transport_promote tr (upd_socket s (upgraded tr) w))))"
  using typed_D(1) [of w s] by (auto simp: upgraded_def intro!: typed_close_opt typed_promote typed_upd_socket)

lemma typed_benign: "typed w \<Longrightarrow> benign (sockets w s) sk \<Longrightarrow> typed (upd_socket s (\<lambda>_. sk) w)"
  by (auto simp: benign_def intro: typed_upd_socket outgoing_typed)

lemma typed_fresh: "fresh_transport b mk \<Longrightarrow> typed_transport (mk s)"
  by (auto simp: fresh_transport_def newServerWebSocketTransport_def newServerWebTransportTransport_def encodes_intros)

lemma typed_started:
  "typed w \<Longrightarrow> fresh_transport False mk \<or> mk = (\<lambda>_. PollingT newServerPollingTransport) \<Longrightarrow> typed (started mk sid cfg w)"
  by (auto simp: typed_def started_def newServerSocket_def typed_fresh)

lemma typed_start:
  assumes "typed w" "fresh_transport True mk"
  shows "typed (snd (startProbe resp mk sid refusal w))"
proof -
  let ?w = "\<lambda>s. upd_heap (nextRef w) (mk s) (w\<lparr>nextRef := Suc (nextRef w)\<rparr>)"
  have "typed (?w s)" for s
    using assms by (auto intro: typed_upd_heap typed_fresh)
  moreover have "list_all wf_packet (writeBuffer (probing_at tr (sockets w s)))" for tr s
    using typed_D(1) [OF assms(1)] by (simp add: probing_at_def)
  ultimately show ?thesis
    using assms(1) by (auto simp: startProbe_eq Let_def split: option.split intro!: typed_close typed_upd_socket)
qed

lemma typed_probe: "typed w \<Longrightarrow> typed (onProbe s w)"
  using typed_D(1) [of w s] by (auto simp: onProbe_def Let_def intro!: typed_upd_socket typed_noop)


lemma typed_io:
  "typed w \<Longrightarrow> heap w tr = WebSocketT ws \<Longrightarrow> adds_frames ws ws' \<Longrightarrow> typed (upd_heap tr (WebSocketT ws') w)"
  "typed w \<Longrightarrow> heap w tr = WebTransportT wt \<Longrightarrow> adds_bytes wt wt' \<Longrightarrow> typed (upd_heap tr (WebTransportT wt') w)"
  using typed_D(2) [of w tr]
  by (auto simp: adds_frames_def adds_bytes_def intro!: typed_upd_heap encodes_append encodes_intros(1))

lemma typed_empty: "typed (emptyWorld cfg)"
  by (simp add: typed_def emptyWorld_def torn_down_def)

interpretation typing: refs_extension typed N cfg for N cfg
  by unfold_locales
    (auto intro: typed_empty typed_teardown typed_send outgoing_typed typed_benign typed_start typed_probe
      typed_noop typed_swap typed_abort typed_upd_heap typed_io typed_started typed_close)

section \<open>Type safety\<close>

text \<open>
  C8: In every state a server can reach, every packet in the buffer of a session is well-formed, every
  payload handed to a poll is the encoding of well-formed packets, every frame written on a WebSocket
  decodes to the well-formed packet it was made from, and what was written on a WebTransport stream is
  a sequence of frames of well-formed packets.
\<close>

theorem server_well_typed:
  assumes "server_reachable P N cfg w" "maxPayload cfg \<le> int maxAlloc"
  shows "(\<forall>s. list_all wf_packet (writeBuffer (sockets w s))) \<and>
    (\<forall>ch bs. (ch, bs) \<in> set (deliveries w) \<longrightarrow> (\<exists>ps. list_all wf_packet ps \<and> bs = EncodePayload ps)) \<and>
    (\<forall>tr t m f. heap w tr = WebSocketT t \<and> (m, f) \<in> set (ws_frames t) \<longrightarrow>
       (\<exists>p. wf_packet p \<and> websocket_frame p = (m, f) \<and> decodeWebSocketFrame m f = Inr p)) \<and>
    (\<forall>tr t. heap w tr = WebTransportT t \<longrightarrow> (\<exists>ps. list_all wf_packet ps \<and> wt_stream t = framesBuffer [] ps))"
proof -
  have ok: "typed w" using typing.whole.reachable [OF assms] by blast
  have "\<exists>p. wf_packet p \<and> websocket_frame p = (m, f) \<and> decodeWebSocketFrame m f = Inr p"
    if t: "heap w tr = WebSocketT t" "(m, f) \<in> set (ws_frames t)" for tr t m f
  proof -
    obtain p where "wf_packet p" "websocket_frame p = (m, f)"
      using typed_D(2) [OF ok, of tr] t by (fastforce simp: encodes_def list_all_iff)
    with decodeWebSocketFrame_frame [of p] show ?thesis by auto
  qed
  moreover have "\<exists>ps. list_all wf_packet ps \<and> wt_stream t = framesBuffer [] ps"
    if "heap w tr = WebTransportT t" for tr t
    using typed_D(2) [OF ok, of tr] that by (simp add: encodes_def)
  moreover have "\<exists>ps. list_all wf_packet ps \<and> bs = EncodePayload ps" if "(ch, bs) \<in> set (deliveries w)" for ch bs
    using ok that by (force simp: typed_def list_all_iff encodes_def)
  ultimately show ?thesis using typed_D(1) [OF ok] by blast
qed

theorem server_well_typed_witness:
  "deliveries run_upgraded = [(2, bytes_of ''4hi''), (3, bytes_of ''1'')] \<and>
     (\<exists>ps. list_all wf_packet ps \<and> bytes_of ''4hi'' = EncodePayload ps)"
  using server_well_typed [OF reach_upgraded run_fits] by (simp add: run_upgraded_eq)

end
