(* ===== verification/ServerRequests.thy ===== *)
theory ServerRequests
  imports ServerExample ServerReferences
begin

text \<open>
  What a request does: the handshake, the gate in front of it, cross-origin headers, rejected
  requests, and the packets a client posts.
\<close>

section \<open>Handshake\<close>

definition admitted :: "serverConfig \<Rightarrow> Request \<Rightarrow> bool" where
  "admitted cfg r \<longleftrightarrow> (case allowRequest cfg of None \<Rightarrow> True | Some gate \<Rightarrow> gate r = None)"

lemma allowHandshake_admitted: "admitted (srv_options S) r \<Longrightarrow> allowHandshake S resp r w = None"
  by (cases "allowRequest (srv_options S)") (simp_all add: admitted_def allowHandshake_def)

lemma applyCORS_keeps:
  "resp_status (snd (applyCORS S resp r)) =
     (if Method r = ''OPTIONS'' then Some (case resp_status resp of None \<Rightarrow> 204 | Some c \<Rightarrow> c) else resp_status resp)"
  "resp_writeErr (snd (applyCORS S resp r)) = resp_writeErr resp"
  "resp_body (snd (applyCORS S resp r)) = resp_body resp"
  "fst (applyCORS S resp r) = (Method r = ''OPTIONS'')"
  by (simp_all add: applyCORS_def Let_def)

lemma setSessionCookie_keeps [simp]:
  "resp_status (setSessionCookie S sid resp) = resp_status resp"
  "resp_writeErr (setSessionCookie S sid resp) = resp_writeErr resp"
  "resp_body (setSessionCookie S sid resp) = resp_body resp"
  by (simp_all add: setSessionCookie_def split: option.split)

lemma offeredUpgrades_utf8: "t \<in> set (offeredUpgrades cfg b) \<Longrightarrow> valid_utf8 (bytes_of t)"
proof -
  have "valid_utf8 (bytes_of ''websocket'')" "valid_utf8 (bytes_of ''webtransport'')"
    by (rule conjunct1 [OF valid_utf8_ascii], auto simp: bytes_of_def)+
  then show "t \<in> set (offeredUpgrades cfg b) \<Longrightarrow> valid_utf8 (bytes_of t)"
    by (auto simp: offeredUpgrades_def split: if_splits)
qed

text \<open>The parameters a client is given.\<close>

definition handshake_data :: "serverConfig \<Rightarrow> string \<Rightarrow> bool \<Rightarrow> OpenPacket" where
  "handshake_data cfg sid offer =
     \<lparr>SessionID = sid, Upgrades = offeredUpgrades cfg offer,
      PingInterval = quot (pingInterval cfg) Millisecond, PingTimeout = quot (pingTimeout cfg) Millisecond,
      MaxPayload = maxPayload cfg\<rparr>"

definition config_fits :: "serverConfig \<Rightarrow> bool" where
  "config_fits cfg \<longleftrightarrow> fits_int (pingInterval cfg) \<and> fits_int (pingTimeout cfg) \<and> fits_int (maxPayload cfg)"

lemma quot_fits: "fits_int d \<Longrightarrow> fits_int (quot d Millisecond)"
proof -
  have "\<bar>d\<bar> div 1000000 \<le> \<bar>d\<bar>" "0 \<le> \<bar>d\<bar> div 1000000" by linarith+
  then show "fits_int d \<Longrightarrow> fits_int (quot d Millisecond)"
    by (cases "d = 0"; cases "d < 0") (auto simp: quot_def fits_int_def Millisecond_def)
qed

lemma buildOpenPacket_read:
  assumes "valid_utf8 (bytes_of sid)" "config_fits cfg" "buildOpenPacket cfg sid offer = Inr p"
  shows "json_Unmarshal_OpenPacket (Data p) = Inr (handshake_data cfg sid offer)"
proof -
  obtain data where "json_Marshal_OpenPacket (handshake_data cfg sid offer) = Inr data"
    "json_Unmarshal_OpenPacket data = Inr (handshake_data cfg sid offer)"
    using open_packet_json_round_trip [of "handshake_data cfg sid offer"] assms(1,2) quot_fits offeredUpgrades_utf8
    by (auto simp: handshake_data_def config_fits_def)
  with assms(3) show ?thesis by (auto simp: buildOpenPacket_def handshake_data_def)
qed

lemma ServeHTTP_polling:
  assumes "Method r = ''GET'' \<or> Method r = ''POST''" "values_Get (parseQuery (RawQuery r)) ''EIO'' = ''4''"
    and "values_Get (parseQuery (RawQuery r)) ''transport'' = TransportTypePolling"
    and "allowsTransport (srv_options S) TransportTypePolling"
  shows "ServeHTTP P N S rnd resp r w =
    handlePolling N S rnd (snd (applyCORS S resp r)) r (values_Get (parseQuery (RawQuery r)) ''sid'') w"
  using assms applyCORS_keeps(4) [of S resp r]
  by (cases "applyCORS S resp r") (auto simp: ServeHTTP_def Let_def)

text \<open>The new session, once the open packet is written.\<close>

definition opened_session :: "Server \<Rightarrow> string \<Rightarrow> world \<Rightarrow> world" where
  "opened_session S sid w =
     connected S (Suc (nextRef w)) (ServerSocket_open (Suc (nextRef w))
       (started (\<lambda>_. PollingT newServerPollingTransport) sid (srv_options S) w))"

lemma handleHandshake_admitted:
  assumes "admitted (srv_options S) r" "resp_writeErr resp = None"
    and "buildOpenPacket (srv_options S) (generateID (srv_options S) r rnd) True = Inr p"
  shows "handleHandshake S rnd resp r w =
    (Responded (snd (resp_Write (EncodePayload [p]) (resp_WriteHeader 200 (writePollHeaders
        (setSessionCookie S (generateID (srv_options S) r rnd) resp))))),
     opened_session S (generateID (srv_options S) r rnd) w)"
  using assms
  by (simp add: handleHandshake_def allowHandshake_admitted Let_def resp_Write_def writePollHeaders_def
      opened_session_def started_def)

lemma opened_session_simps:
  "Socket_by_id sid (opened_session S sid w) = Some (Suc (nextRef w))"
  "sid' \<noteq> sid \<Longrightarrow> Socket_by_id sid' (opened_session S sid w) = Socket_by_id sid' w"
  "state (sockets (opened_session S sid w) (Suc (nextRef w))) = sessionOpen"
  "s < nextRef w \<Longrightarrow> sockets (opened_session S sid w) s = sockets w s"
  by (simp_all add: opened_session_def Socket_by_id_def connected_def ServerSocket_open_def armPingLocked_def
      started_def store.get_put newServerSocket_def)

lemma handshake_opens:
  assumes "Method r = ''GET''" "admitted (srv_options S) r"
    and "values_Get (parseQuery (RawQuery r)) ''EIO'' = ''4''"
    and "values_Get (parseQuery (RawQuery r)) ''transport'' = TransportTypePolling"
    and "values_Get (parseQuery (RawQuery r)) ''sid'' = ''''"
    and "allowsTransport (srv_options S) TransportTypePolling" "config_fits (srv_options S)"
    and "sid = generateID (srv_options S) r rnd" "valid_utf8 (bytes_of sid)"
  shows "\<exists>resp w' p s. ServeHTTP P N S rnd (newResponse None) r w = (Responded resp, w') \<and>
    resp_status resp = Some 200 \<and> DecodePayload 4 (resp_body resp) = Inr [p] \<and> Type p = PacketOpen \<and>
    json_Unmarshal_OpenPacket (Data p) = Inr (handshake_data (srv_options S) sid True) \<and>
    Socket_by_id sid w' = Some s \<and> state (sockets w' s) = sessionOpen \<and> nextRef w \<le> s \<and>
    (\<forall>s'. s' < nextRef w \<longrightarrow> sockets w' s' = sockets w s') \<and>
    (\<forall>sid'. sid' \<noteq> sid \<longrightarrow> Socket_by_id sid' w' = Socket_by_id sid' w)"
proof -
  obtain p where p: "buildOpenPacket (srv_options S) sid True = Inr p" using buildOpenPacket_Inr by blast
  have dec: "DecodePayload 4 (EncodePayload [p]) = Inr [p]" "Type p = PacketOpen"
    using decodeRecordSeparatorPayload_EncodePayload [of "[p]"] buildOpenPacket_safe [OF p]
    by (simp_all add: DecodePayload_def)
  let ?resp = "snd (applyCORS S (newResponse None) r)"
  have r: "resp_status ?resp = None" "resp_writeErr ?resp = None" "resp_body ?resp = []"
    using assms(1) by (simp_all add: applyCORS_keeps newResponse_def)
  then have "ServeHTTP P N S rnd (newResponse None) r w =
    (Responded (snd (resp_Write (EncodePayload [p]) (resp_WriteHeader 200 (writePollHeaders
        (setSessionCookie S sid ?resp))))), opened_session S sid w)"
    using assms p by (simp add: ServeHTTP_polling handlePolling_def handleHandshake_admitted)
  moreover have "resp_status (snd (resp_Write b (resp_WriteHeader 200 (writePollHeaders
        (setSessionCookie S sid ?resp))))) = Some 200" "resp_body (snd (resp_Write b (resp_WriteHeader 200
        (writePollHeaders (setSessionCookie S sid ?resp))))) = b" for b
    using r by (simp_all add: writePollHeaders_def)
  moreover have "json_Unmarshal_OpenPacket (Data p) = Inr (handshake_data (srv_options S) sid True)"
    by (rule buildOpenPacket_read [OF assms(9,7) p])
  ultimately show ?thesis
    using dec opened_session_simps [where S = S and sid = sid and w = w]
    by (intro exI [of _ "Suc (nextRef w)"] exI [of _ p] exI [of _ "opened_session S sid w"] exI) auto
qed

text \<open>
  C14: a handshake over long polling that the gate admits succeeds, whatever the state of the server
  and whatever identifier is generated: the status is 200; the body decodes to one open packet, and
  what a client reads from it is the identifier and the configured parameters; the identifier then
  names a new, open session; and no other session is touched.
\<close>

theorem handshake_opens_session:
  assumes "Method r = ''GET''" "admitted (srv_options S) r"
    and "values_Get (parseQuery (RawQuery r)) ''EIO'' = ''4''"
    and "values_Get (parseQuery (RawQuery r)) ''transport'' = TransportTypePolling"
    and "values_Get (parseQuery (RawQuery r)) ''sid'' = ''''"
    and "allowsTransport (srv_options S) TransportTypePolling" "config_fits (srv_options S)"
    and "sid = generateID (srv_options S) r rnd" "valid_utf8 (bytes_of sid)"
  shows "\<exists>resp w' p s. ServeHTTP P N S rnd (newResponse None) r w = (Responded resp, w') \<and>
    resp_status resp = Some 200 \<and> DecodePayload 4 (resp_body resp) = Inr [p] \<and> Type p = PacketOpen \<and>
    json_Unmarshal_OpenPacket (Data p) = Inr (handshake_data (srv_options S) sid True) \<and>
    Socket_by_id sid w' = Some s \<and> state (sockets w' s) = sessionOpen \<and> nextRef w \<le> s \<and>
    (\<forall>s'. s' < nextRef w \<longrightarrow> sockets w' s' = sockets w s') \<and>
    (\<forall>sid'. sid' \<noteq> sid \<longrightarrow> Socket_by_id sid' w' = Socket_by_id sid' w)"
  by (rule handshake_opens [OF assms])

lemma run_config_fits: "config_fits run_config"
  by (simp add: config_fits_def fits_int_def run_config_def run_server_def NewServer_def WithGenerateID_def
      defaultServerConfig_def DefaultPingInterval_def DefaultPingTimeout_def DefaultMaxPayload_def Second_def)

theorem handshake_opens_session_witness:
  "\<exists>resp w' p s. ServeHTTP accepting quiet run_server [] (newResponse None)
      (get_request ''EIO=4&transport=polling'') (emptyWorld run_config) = (Responded resp, w') \<and>
    resp_status resp = Some 200 \<and> DecodePayload 4 (resp_body resp) = Inr [p] \<and>
    Socket_by_id ''s1'' w' = Some s \<and> state (sockets w' s) = sessionOpen"
proof -
  have "valid_utf8 (bytes_of ''s1'')"
    by (rule conjunct1 [OF valid_utf8_ascii]) (auto simp: bytes_of_def)
  then show ?thesis
    using run_config_fits handshake_opens_session [of "get_request ''EIO=4&transport=polling''" run_server "''s1''" "[]"
        accepting quiet "emptyWorld run_config"]
    by (auto simp: admitted_def queries values_Get_def)
qed

section \<open>The gate\<close>

text \<open>No session appears between two states, and the connection handler is not called.\<close>

definition connections :: "world \<Rightarrow> sref list" where
  "connections w = List.map_filter (\<lambda>e. case e of Connected s \<Rightarrow> Some s | _ \<Rightarrow> None) (trace w)"

definition no_new :: "world \<Rightarrow> world \<Rightarrow> bool" where
  "no_new w0 w \<longleftrightarrow>
     (\<forall>sid. Socket_by_id sid w0 = None \<longrightarrow> Socket_by_id sid w = None) \<and>
     (\<forall>s. state (sockets w0 s) = sessionClosed \<longrightarrow> state (sockets w s) = sessionClosed) \<and>
     connections w = connections w0"

lemma no_new_refl: "no_new w w"
  by (simp add: no_new_def)

lemma no_new_cong:
  assumes "no_new w0 w" "sessions w' = sessions w" "connections w' = connections w"
    "\<And>s. state (sockets w s) = sessionClosed \<Longrightarrow> state (sockets w' s) = sessionClosed"
  shows "no_new w0 w'"
  using assms by (simp add: no_new_def Socket_by_id_def)

lemma no_new_upd:
  "no_new w0 w \<Longrightarrow> (state (sockets w s) = sessionClosed \<Longrightarrow> state (f (sockets w s)) = sessionClosed) \<Longrightarrow>
     no_new w0 (upd_socket s f w)"
  by (erule no_new_cong) (auto simp: connections_def)

lemma connections_snoc:
  "trace w' = trace w @ es \<Longrightarrow> (\<And>s. Connected s \<notin> set es) \<Longrightarrow> connections w' = connections w"
  by (force simp: connections_def List.map_filter_def filter_empty_conv split: event.splits)

lemma no_new_close: "no_new w0 w \<Longrightarrow> no_new w0 (closeWithReason s reason cause w)"
proof (cases "state (sockets w s) = sessionClosed")
  case False
  assume n: "no_new w0 w"
  have "connections (closeWithReason s reason cause w) = connections w"
    by (rule connections_snoc [where es = "if onCloseHandler (sockets w s) then [Closed s reason cause] else []"])
      (simp_all add: closeWithReason_live [OF False] Let_def)
  moreover have "sessions (closeWithReason s reason cause w) = store_delete (socket_id (sockets w s)) (sessions w)"
    by (simp add: closeWithReason_live [OF False] Let_def)
  ultimately show ?thesis
    using n by (simp add: no_new_def Socket_by_id_def closeWithReason_sockets store.get_del)
qed (simp add: closeWithReason_closed)

interpretation unborn: flush_invariant "no_new w0" N for w0 N
proof unfold_locales
  fix w r w' tr ps s
  assume "no_new w0 w" "transport_send N tr ps w = (r, w')"
  then show "no_new w0 w'"
    using transport_send_same [of w N tr ps]
    by (elim no_new_cong) (auto simp: same_session_def connections_def)
qed (auto intro: no_new_close no_new_upd)

lemma no_new_report: "no_new w0 w \<Longrightarrow> no_new w0 (report S r code reason w)"
  by (erule no_new_cong) (auto simp: report_def connections_def List.map_filter_def)

lemma no_new_packet: "no_new w0 w \<Longrightarrow> no_new w0 (handlePacket s p w)"
proof -
  assume n: "no_new w0 w"
  have "no_new w0 (onPong s w)" using n by (auto simp: onPong_def armPingLocked_def intro: no_new_upd)
  moreover have "no_new w0 (w\<lparr>trace := trace w @ [Message s data b]\<rparr>)" for data b
    by (rule no_new_cong [OF n]) (auto intro: connections_snoc)
  then have "no_new w0 (deliverMessage s data b w)" for data b using n by (simp add: deliverMessage_def)
  ultimately show ?thesis using n by (auto simp: handlePacket_def intro: no_new_close)
qed

lemma no_new_packets: "no_new w0 w \<Longrightarrow> no_new w0 (fold (handlePacket s) ps w)"
  by (induction ps arbitrary: w) (auto intro: no_new_packet)

lemma no_new_start: "no_new w0 w \<Longrightarrow> no_new w0 (snd (startProbe resp mk sid refusal w))"
  by (erule no_new_cong) (auto simp: startProbe_eq probing_at_def connections_def Let_def split: option.split)

lemma no_new_poll:
  assumes "no_new w0 w"
  shows "no_new w0 (snd (handlePoll N resp s tr t w))"
proof -
  have "no_new w0 (w\<lparr>nextRef := n\<rparr>)" "no_new w0 (upd_heap tr t' (w\<lparr>nextRef := n\<rparr>))" for n t'
    using assms by (auto simp: connections_def elim!: no_new_cong)
  then show ?thesis
    by (auto simp: handlePoll_def Let_def split: prod.splits option.splits intro: no_new_close unborn.flush)
qed

lemma no_new_post: "no_new w0 w \<Longrightarrow> no_new w0 (snd (handleSend S resp r s w))"
  by (auto simp: handleSend_def Let_def connections_def split: sum.splits failure.splits
      intro: no_new_close no_new_packets elim: no_new_cong)

text \<open>
  C21: a request the gate refuses creates no session, whatever its transport, method and query: no
  identifier is registered, no session comes to life, and the connection handler is not called.
\<close>

theorem refused_request_creates_no_session:
  assumes "allowRequest (srv_options S) = Some gate" "gate r = Some err"
    and "Socket_by_id sid w = None" "state (sockets w s) = sessionClosed"
  shows "Socket_by_id sid (snd (ServeHTTP P N S rnd resp r w)) = None \<and>
    state (sockets (snd (ServeHTTP P N S rnd resp r w)) s) = sessionClosed \<and>
    connections (snd (ServeHTTP P N S rnd resp r w)) = connections w"
proof -
  have rej: "no_new w (snd (rejectConnection S resp r code reason w))" for resp code reason
    by (simp add: rejectConnection_def no_new_report no_new_refl)
  have gate: "allowHandshake S resp r w = Some (rejectConnection S resp r ConnectionErrorForbidden (Some err) w)" for resp
    using assms(1,2) by (simp add: allowHandshake_def)
  have poll: "no_new w (snd (handlePolling N S rnd resp r i w))" for resp i
    using gate rej by (auto simp: handlePolling_def handleHandshake_def split: option.splits serverTransport.splits
        intro: no_new_poll no_new_post no_new_refl)
  have ws: "no_new w (snd (handleWebSocket P N S rnd resp r i w))" for resp i
    using gate rej by (auto simp: handleWebSocket_def handleWebSocketUpgrade_def Let_def split: option.splits
        intro: no_new_start no_new_refl)
  have wt: "no_new w (snd (serveWebTransport P N S rnd resp r w))" for resp
    using assms(1,2) by (auto simp: serveWebTransport_def webTransportHandshake_def webTransportUpgrade_session_def
        connections_def split: sum.splits option.splits prod.splits failure.splits
        intro: no_new_start no_new_refl no_new_report no_new_cong [OF no_new_refl])
  have "no_new w (snd (ServeHTTP P N S rnd resp r w))"
    using rej poll ws wt by (auto simp: ServeHTTP_def Let_def no_new_refl split: prod.splits bool.splits)
  with assms(3,4) show ?thesis by (simp add: no_new_def)
qed

theorem refused_request_creates_no_session_witness:
  "Socket_by_id ''s1'' (snd (ServeHTTP accepting quiet (NewServer [WithAllowRequest (\<lambda>_. Some EOF)]) []
      (newResponse None) (get_request ''EIO=4&transport=websocket'') (emptyWorld run_config))) = None"
  using refused_request_creates_no_session [of "NewServer [WithAllowRequest (\<lambda>_. Some EOF)]" "\<lambda>_. Some EOF"
      "get_request ''EIO=4&transport=websocket''" EOF "''s1''" "emptyWorld run_config" 1]
  by (simp add: NewServer_def WithAllowRequest_def emptyWorld_def Socket_by_id_def store.get_empty)

section \<open>Cross-origin requests\<close>

text \<open>The three headers, in terms of the origin that is granted.\<close>

lemma cors_headers:
  fixes S r err
  defines "h \<equiv> resp_header (snd (applyCORS S (newResponse err) r))"
    and "allow \<equiv> allowOrigin S (header_Get (ReqHeader r) ''Origin'')"
  shows "header_Get h ''Access-Control-Allow-Origin'' = allow"
    "header_Get h ''Access-Control-Allow-Credentials'' =
       (if allow \<noteq> '''' \<and> AllowCredentials (cors (srv_options S)) then ''true'' else '''')"
    "h ''Vary'' = (if allow \<noteq> '''' \<and> allow \<noteq> ''*'' then [''Origin''] else [])"
proof -
  define base where "base = newResponse err"
  have base: "resp_status base = None" "resp_header base = (\<lambda>_. [])" by (simp_all add: base_def newResponse_def)
  define resp where "resp = (if allow \<noteq> '''' then
      (let resp = resp_Set ''Access-Control-Allow-Origin'' allow base;
           resp = (if allow \<noteq> ''*'' then resp_Add ''Vary'' ''Origin'' resp else resp)
       in if AllowCredentials (cors (srv_options S)) then resp_Set ''Access-Control-Allow-Credentials'' ''true'' resp else resp)
      else base)"
  have st: "resp_status resp = None" using base by (simp add: resp_def Let_def)
  have hd: "resp_header resp ''Access-Control-Allow-Origin'' = (if allow = '''' then [] else [allow])"
    "resp_header resp ''Access-Control-Allow-Credentials'' =
       (if allow \<noteq> '''' \<and> AllowCredentials (cors (srv_options S)) then [''true''] else [])"
    "resp_header resp ''Vary'' = (if allow \<noteq> '''' \<and> allow \<noteq> ''*'' then [''Origin''] else [])"
    using base unfolding resp_def
    by (cases "allow = ''''"; cases "allow = ''*''"; simp add: Let_def resp_Set_def resp_Add_def header_Set_def header_Add_def)+
  have "h k = resp_header resp k" if "k \<notin> {''Access-Control-Allow-Methods'', ''Access-Control-Allow-Headers''}" for k
    using that st unfolding h_def applyCORS_def base_def [symmetric] Let_def allow_def [symmetric]
    unfolding resp_def [unfolded Let_def, symmetric]
    by (simp add: resp_Set_def header_Set_def resp_WriteHeader_def)
  with hd show "header_Get h ''Access-Control-Allow-Origin'' = allow"
    "header_Get h ''Access-Control-Allow-Credentials'' =
       (if allow \<noteq> '''' \<and> AllowCredentials (cors (srv_options S)) then ''true'' else '''')"
    "h ''Vary'' = (if allow \<noteq> '''' \<and> allow \<noteq> ''*'' then [''Origin''] else [])"
    by (simp_all add: header_Get_def)
qed

text \<open>
  C24: the cross-origin headers are safe: an origin is granted only if every origin is allowed or it
  is one of the configured ones; a request from an origin that may use credentials is granted that
  origin by name, never by the wildcard; and a grant by name is marked as depending on the origin.
\<close>

theorem cors_grants_only_configured_origins:
  fixes S r err
  defines "h \<equiv> resp_header (snd (applyCORS S (newResponse err) r))"
    and "origin \<equiv> header_Get (ReqHeader r) ''Origin''"
  shows "(header_Get h ''Access-Control-Allow-Origin'' \<noteq> '''' \<longrightarrow> allowsAllOrigins S \<or>
        header_Get h ''Access-Control-Allow-Origin'' = origin \<and> origin \<in> set (AllowedOrigins (cors (srv_options S)))) \<and>
    (header_Get h ''Access-Control-Allow-Credentials'' = ''true'' \<and> origin \<noteq> '''' \<longrightarrow>
        header_Get h ''Access-Control-Allow-Origin'' = origin) \<and>
    (header_Get h ''Access-Control-Allow-Origin'' \<notin> {'''', ''*''} \<longrightarrow> ''Origin'' \<in> set (h ''Vary''))"
  unfolding assms cors_headers by (auto simp: allowOrigin_def split: if_splits)

definition cors_server :: Server where
  "cors_server = NewServer [WithCORS \<lparr>AllowCredentials = True, AllowedOrigins = [''https://a.example''],
     AllowedHeaders = []\<rparr>]"

definition cors_request :: Request where
  "cors_request = (get_request '''')\<lparr>ReqHeader := (\<lambda>_. [])(''Origin'' := [''https://a.example''])\<rparr>"

theorem cors_grants_only_configured_origins_witness:
  "header_Get (resp_header (snd (applyCORS cors_server (newResponse None) cors_request)))
     ''Access-Control-Allow-Origin'' = ''https://a.example''"
proof -
  have c: "cors (srv_options cors_server) =
      \<lparr>AllowCredentials = True, AllowedOrigins = [''https://a.example''], AllowedHeaders = []\<rparr>"
    by (simp add: cors_server_def NewServer_def WithCORS_def)
  have o: "header_Get (ReqHeader cors_request) ''Origin'' = ''https://a.example''"
    by (simp add: cors_request_def header_Get_def)
  have "header_Get (resp_header (snd (applyCORS cors_server (newResponse None) cors_request)))
      ''Access-Control-Allow-Credentials'' = ''true''"
    unfolding cors_headers o by (simp add: c allowOrigin_def allowsAllOrigins_def)
  with cors_grants_only_configured_origins [where S = cors_server and err = None and r = cors_request]
  show ?thesis unfolding o by simp
qed

section \<open>Packets a client posts\<close>

definition posted :: "sref \<Rightarrow> Packet \<Rightarrow> event" where
  "posted s p = Message s (Data p) (IsBinary p)"

lemma handlePackets_messages:
  assumes "\<And>p. p \<in> set ps \<Longrightarrow> Type p = PacketMessage" "onMessageHandler (sockets w s)"
  shows "fold (handlePacket s) ps w = w\<lparr>trace := trace w @ map (posted s) ps\<rparr>"
  using assms
  by (induction ps arbitrary: w) (simp_all add: handlePacket_def deliverMessage_def posted_def)

lemma readLimited_all:
  "final r = EOF \<Longrightarrow> int (length (pending r)) < n \<Longrightarrow> readLimited r n = Inr (pending r)"
  by (simp add: readLimited_def)

lemma post_delivers:
  assumes "ps \<noteq> []" "\<And>p. p \<in> set ps \<Longrightarrow> payload_safe p \<and> Type p = PacketMessage"
    and "int (length (EncodePayload ps)) \<le> maxPayload (srv_options S)" "maxPayload (srv_options S) < 2 ^ 63 - 1"
    and "Method r = ''POST''" "Body r = \<lparr>pending = EncodePayload ps, final = EOF\<rparr>"
    and "\<not> HasPrefix (header_Get (ReqHeader r) ''Content-Type'') ''application/octet-stream''"
    and "values_Get (parseQuery (RawQuery r)) ''EIO'' = ''4''"
    and "values_Get (parseQuery (RawQuery r)) ''transport'' = TransportTypePolling"
    and "values_Get (parseQuery (RawQuery r)) ''sid'' = sid" "sid \<noteq> ''''"
    and "allowsTransport (srv_options S) TransportTypePolling"
    and "Socket_by_id sid w = Some s" "onMessageHandler (sockets w s)"
  shows "\<exists>resp. ServeHTTP P N S rnd (newResponse None) r w =
      (Responded resp, w\<lparr>trace := trace w @ map (posted s) ps\<rparr>) \<and>
    resp_status resp = Some 200 \<and> resp_body resp = bytes_of ''ok''"
proof -
  have dec: "DecodePayload 4 (EncodePayload ps) = Inr ps"
    using assms(1,2) decodeRecordSeparatorPayload_EncodePayload [of ps] by (simp add: DecodePayload_def)
  then have ne: "EncodePayload ps \<noteq> []" by (auto simp: DecodePayload_def decodeRecordSeparatorPayload_def decodeSegment_def DecodePacket_def split: if_splits)
  have lim: "wrap64 (maxPayload (srv_options S) + 1) = maxPayload (srv_options S) + 1"
    by (rule wrap64_id) (use assms(3,4) in linarith)+
  have rd: "readLimited (Body r) (wrap64 (maxPayload (srv_options S) + 1)) = Inr (EncodePayload ps)"
    unfolding lim by (rule readLimited_all [where r = "Body r", THEN trans]) (use assms(3,6) in simp_all)
  let ?resp = "snd (applyCORS S (newResponse None) r)"
  have cors: "resp_status ?resp = None" "resp_writeErr ?resp = None" "resp_body ?resp = []"
    using assms(5) by (simp_all add: applyCORS_keeps newResponse_def)
  have "handleSend S ?resp r s w =
    (Responded (snd (resp_Write (bytes_of ''ok'') (resp_WriteHeader 200 (resp_Set ''Content-Type'' ''text/html'' ?resp)))),
     w\<lparr>trace := trace w @ map (posted s) ps\<rparr>)"
    using assms rd dec ne by (simp add: handleSend_def Let_def handlePackets_messages)
  moreover have "ServeHTTP P N S rnd (newResponse None) r w = handleSend S ?resp r s w"
    using assms by (simp add: ServeHTTP_polling handlePolling_def Socket_by_id_def)
  ultimately show ?thesis using cors by simp
qed

text \<open>
  C15: the messages a client posts reach the application, in order, each once and unchanged, and the
  post is acknowledged: for every body that encodes messages within the configured limit, posted to
  a session whose message handler is set.
\<close>

theorem post_delivers_messages:
  assumes "ps \<noteq> []" "\<And>p. p \<in> set ps \<Longrightarrow> payload_safe p \<and> Type p = PacketMessage"
    and "int (length (EncodePayload ps)) \<le> maxPayload (srv_options S)" "maxPayload (srv_options S) < 2 ^ 63 - 1"
    and "Method r = ''POST''" "Body r = \<lparr>pending = EncodePayload ps, final = EOF\<rparr>"
    and "\<not> HasPrefix (header_Get (ReqHeader r) ''Content-Type'') ''application/octet-stream''"
    and "values_Get (parseQuery (RawQuery r)) ''EIO'' = ''4''"
    and "values_Get (parseQuery (RawQuery r)) ''transport'' = TransportTypePolling"
    and "values_Get (parseQuery (RawQuery r)) ''sid'' = sid" "sid \<noteq> ''''"
    and "allowsTransport (srv_options S) TransportTypePolling"
    and "Socket_by_id sid w = Some s" "onMessageHandler (sockets w s)"
  shows "\<exists>resp. ServeHTTP P N S rnd (newResponse None) r w =
      (Responded resp, w\<lparr>trace := trace w @ map (posted s) ps\<rparr>) \<and>
    resp_status resp = Some 200 \<and> resp_body resp = bytes_of ''ok''"
  by (rule post_delivers [OF assms])

definition post_request :: "bytes \<Rightarrow> Request" where
  "post_request body = (get_request ''EIO=4&transport=polling&sid=s1'')
     \<lparr>Method := ''POST'', Body := \<lparr>pending = body, final = EOF\<rparr>\<rparr>"

theorem post_delivers_messages_witness:
  "\<exists>resp. ServeHTTP accepting quiet run_server [] (newResponse None)
      (post_request (EncodePayload [text_packet PacketMessage (bytes_of ''hi'')])) (OnMessage 1 True run_open) =
        (Responded resp, (OnMessage 1 True run_open)\<lparr>trace := [Connected 1, Message 1 (bytes_of ''hi'') False]\<rparr>) \<and>
     resp_status resp = Some 200"
proof -
  have "length (EncodePayload [text_packet PacketMessage (bytes_of ''hi'')]) = 3" by code_simp
  moreover have "payload_safe (text_packet PacketMessage (bytes_of ''hi''))" by code_simp
  ultimately show ?thesis
    using post_delivers_messages [of "[text_packet PacketMessage (bytes_of ''hi'')]" run_server
        "post_request (EncodePayload [text_packet PacketMessage (bytes_of ''hi'')])" "''s1''"
        "OnMessage 1 True run_open" 1 accepting quiet "[]"]
    by (auto simp: post_request_def get_request_def queries values_Get_def header_Get_def HasPrefix_def
        Socket_by_id_def OnMessage_def posted_def)
qed

text \<open>
  C26: at the largest configurable limit the posts of every client are lost: the limit plus one wraps
  to a negative number, the body is read as empty, and whatever was posted is acknowledged with "ok"
  and dropped.
\<close>

theorem post_dropped_at_largest_limit:
  assumes "maxPayload (srv_options S) = 2 ^ 63 - 1"
    and "\<not> HasPrefix (header_Get (ReqHeader r) ''Content-Type'') ''application/octet-stream''"
  shows "\<exists>resp. handleSend S (newResponse None) r s w = (Responded resp, w) \<and>
    resp_status resp = Some 200 \<and> resp_body resp = bytes_of ''ok''"
proof -
  have "readLimited (Body r) (wrap64 (maxPayload (srv_options S) + 1)) = Inr []"
    by (simp add: assms(1) readLimited_def wrap64_def)
  then show ?thesis
    using assms by (simp add: handleSend_def Let_def newResponse_def)
qed

theorem post_dropped_at_largest_limit_witness:
  "\<exists>resp. handleSend (NewServer [WithMaxPayload (2 ^ 63 - 1)]) (newResponse None)
      (post_request (EncodePayload [text_packet PacketMessage (bytes_of ''hi'')])) 1 (OnMessage 1 True run_open) =
        (Responded resp, OnMessage 1 True run_open) \<and> resp_body resp = bytes_of ''ok''"
  using post_dropped_at_largest_limit [of "NewServer [WithMaxPayload (2 ^ 63 - 1)]"
      "post_request (EncodePayload [text_packet PacketMessage (bytes_of ''hi'')])" 1 "OnMessage 1 True run_open"]
  by (auto simp: NewServer_def WithMaxPayload_def post_request_def get_request_def header_Get_def HasPrefix_def)

end
