(* ===== verification/BufferPool.thy ===== *)
theory BufferPool
  imports Server
begin

text \<open>
  The pools of buffers (\<^verbatim>\<open>internal/pool.go\<close>) and their two users: the payload of a held poll,
  which the flushing goroutine encodes into a pooled buffer and hands to the poll by pointer
  (\<^verbatim>\<open>server_transport_polling.go\<close>), and the output of the compressor (\<^verbatim>\<open>server.go\<close>). The other theories
  pass payloads as values. Here they are pointers into a heap of buffers that are reused, and every
  interleaving of deliveries, responses and cancelled polls is shown to do what passing values does.
\<close>

section \<open>Pool\<close>

text \<open>
  \<open>objects\<close> is the heap the pointers point into and \<open>pooled\<close> the pointers the pool keeps.
  \<^verbatim>\<open>sync.Pool\<close> promises little: \<^verbatim>\<open>Get\<close> may return any pointer it keeps, or a new one although it keeps
  some, and it may drop what it keeps at any time. The choice is an argument.
\<close>

type_synonym addr = nat

record 'a Pool =
  objects :: "addr \<Rightarrow> 'a"
  pooled :: "addr list"
  nextAddr :: addr
  newFn :: 'a

definition NewPool :: "'a \<Rightarrow> 'a Pool" where
  "NewPool new = \<lparr>objects = (\<lambda>_. new), pooled = [], nextAddr = 0, newFn = new\<rparr>"

definition Pool_Get :: "addr option \<Rightarrow> 'a Pool \<Rightarrow> addr \<times> 'a Pool" where
  "Pool_Get choice p =
     (case choice of
        Some a \<Rightarrow>
          if a \<in> set (pooled p) then (a, p\<lparr>pooled := remove1 a (pooled p)\<rparr>)
          else (nextAddr p, p\<lparr>objects := (objects p)(nextAddr p := newFn p), nextAddr := Suc (nextAddr p)\<rparr>)
      | None \<Rightarrow>
          (nextAddr p, p\<lparr>objects := (objects p)(nextAddr p := newFn p), nextAddr := Suc (nextAddr p)\<rparr>))"

definition Pool_Put :: "addr \<Rightarrow> 'a Pool \<Rightarrow> 'a Pool" where
  "Pool_Put a p = p\<lparr>pooled := a # pooled p\<rparr>"

definition Pool_drop :: "addr \<Rightarrow> 'a Pool \<Rightarrow> 'a Pool" where
  "Pool_drop a p = p\<lparr>pooled := remove1 a (pooled p)\<rparr>"

section \<open>Poll payload buffers\<close>

record buffer =
  content :: bytes
  capacity :: nat

definition maxPooledPayloadBuffer :: nat where
  "maxPooledPayloadBuffer = 64 * 1024"

definition pollPayloadPool :: "buffer Pool" where
  "pollPayloadPool = NewPool \<lparr>content = [], capacity = 0\<rparr>"

text \<open>Appending past the capacity reallocates; by how much more than needed is up to the runtime.\<close>

definition store_content :: "nat \<Rightarrow> bytes \<Rightarrow> buffer \<Rightarrow> buffer" where
  "store_content slack bs b =
     \<lparr>content = bs, capacity = (if length bs \<le> capacity b then capacity b else length bs + slack)\<rparr>"

definition take_poll_buffer ::
  "addr option \<Rightarrow> nat \<Rightarrow> Packet list \<Rightarrow> buffer Pool \<Rightarrow> addr \<times> buffer Pool" where
  "take_poll_buffer choice slack packets p =
     (let (a, p) = Pool_Get choice p; b = objects p a
      in (a, p\<lparr>objects := (objects p)(a := store_content slack (getPollBuffer (content b) packets) b)\<rparr>))"

definition putPollBuffer :: "addr \<Rightarrow> buffer Pool \<Rightarrow> buffer Pool" where
  "putPollBuffer a p =
     (if maxPooledPayloadBuffer < capacity (objects p a) then p
      else Pool_Put a (p\<lparr>objects := (objects p)(a := (objects p a)\<lparr>content := []\<rparr>)\<rparr>))"

section \<open>Compression buffers\<close>

definition gzipBufferPool :: "buffer Pool" where
  "gzipBufferPool = NewPool \<lparr>content = [], capacity = 0\<rparr>"

definition putGzipBuffer :: "addr \<Rightarrow> buffer Pool \<Rightarrow> buffer Pool" where
  "putGzipBuffer a p =
     (if maxPooledPayloadBuffer < capacity (objects p a) then p
      else Pool_Put a (p\<lparr>objects := (objects p)(a := (objects p a)\<lparr>content := []\<rparr>)\<rparr>))"

text \<open>
  \<^verbatim>\<open>writePollResponse\<close> with its output buffer taken from the pool and returned by the deferred call.
\<close>

definition writePollResponse_pooled ::
  "platform \<Rightarrow> addr option \<Rightarrow> nat \<Rightarrow> Server \<Rightarrow> ResponseWriter \<Rightarrow> Request \<Rightarrow> bytes \<Rightarrow> buffer Pool \<Rightarrow>
     (error option \<times> ResponseWriter) \<times> buffer Pool" where
  "writePollResponse_pooled P choice slack S resp r payload p =
     (let resp = writePollHeaders resp
      in if httpCompression (srv_options S) \<and> pollCompressionThreshold \<le> length payload \<and> acceptsGzip r
         then
           (let (a, p) = Pool_Get choice p;
                b = (objects p a)\<lparr>content := []\<rparr>
            in case gzip_Compress P payload of
                 Inl err \<Rightarrow> ((Some err, resp), putGzipBuffer a (p\<lparr>objects := (objects p)(a := b)\<rparr>))
               | Inr out \<Rightarrow>
                   let b = store_content slack (content b @ out) b
                   in (resp_Write (content b) (resp_Set ''Content-Encoding'' ''gzip'' resp),
                       putGzipBuffer a (p\<lparr>objects := (objects p)(a := b)\<rparr>)))
         else (resp_Write payload resp, p))"

lemma compression_pool_invisible:
  "fst (writePollResponse_pooled P choice slack S resp r payload p) = writePollResponse P S resp r payload"
  by (simp add: writePollResponse_pooled_def writePollResponse_def store_content_def Let_def
      split: prod.splits sum.splits)

section \<open>Deliveries by pointer\<close>

text \<open>
  The goroutines that touch the buffer of a poll, one atomic action each: a sender encodes into a
  pooled buffer and sends the pointer on the poll's channel (capacity one); the handler of the poll
  receives it, writes the response from what the pointer points to, and returns the buffer. A poll that
  is cancelled after it was answered receives and returns without writing.
\<close>

datatype place = InChannel chan | InHandler chan

datatype action =
  Deliver chan "Packet list"
| Receive chan
| Write chan
| Return chan

record 'a polls =
  owned :: "place \<rightharpoonup> 'a"
  written :: deliveries

text \<open>What the actions do when the channels carry the payloads themselves.\<close>

fun value_step :: "action \<Rightarrow> bytes polls \<Rightarrow> bytes polls option" where
  "value_step (Deliver ch packets) s =
     (case owned s (InChannel ch) of
        Some _ \<Rightarrow> None
      | None \<Rightarrow> Some (s\<lparr>owned := (owned s)(InChannel ch \<mapsto> EncodePayload packets)\<rparr>))"
| "value_step (Receive ch) s =
     (case (owned s (InChannel ch), owned s (InHandler ch)) of
        (Some bs, None) \<Rightarrow>
          Some (s\<lparr>owned := (owned s)(InChannel ch := None, InHandler ch \<mapsto> bs)\<rparr>)
      | _ \<Rightarrow> None)"
| "value_step (Write ch) s =
     map_option (\<lambda>bs. s\<lparr>written := written s @ [(ch, bs)]\<rparr>) (owned s (InHandler ch))"
| "value_step (Return ch) s =
     map_option (\<lambda>_. s\<lparr>owned := (owned s)(InHandler ch := None)\<rparr>) (owned s (InHandler ch))"

text \<open>
  What they do with pooled buffers. An action comes with the choices of the pool and of the allocator,
  and \<open>Collect\<close> is the garbage collector emptying the pool.
\<close>

datatype pooled_action = Act action "addr option" nat | Collect addr

type_synonym pooled_polls = "buffer Pool \<times> addr polls"

fun pooled_step :: "pooled_action \<Rightarrow> pooled_polls \<Rightarrow> pooled_polls option" where
  "pooled_step (Act (Deliver ch packets) choice slack) (p, s) =
     (case owned s (InChannel ch) of
        Some _ \<Rightarrow> None
      | None \<Rightarrow>
          let (a, p) = take_poll_buffer choice slack packets p
          in Some (p, s\<lparr>owned := (owned s)(InChannel ch \<mapsto> a)\<rparr>))"
| "pooled_step (Act (Receive ch) choice slack) (p, s) =
     (case (owned s (InChannel ch), owned s (InHandler ch)) of
        (Some a, None) \<Rightarrow>
          Some (p, s\<lparr>owned := (owned s)(InChannel ch := None, InHandler ch \<mapsto> a)\<rparr>)
      | _ \<Rightarrow> None)"
| "pooled_step (Act (Write ch) choice slack) (p, s) =
     map_option (\<lambda>a. (p, s\<lparr>written := written s @ [(ch, content (objects p a))]\<rparr>)) (owned s (InHandler ch))"
| "pooled_step (Act (Return ch) choice slack) (p, s) =
     map_option (\<lambda>a. (putPollBuffer a p, s\<lparr>owned := (owned s)(InHandler ch := None)\<rparr>))
       (owned s (InHandler ch))"
| "pooled_step (Collect a) (p, s) = Some (Pool_drop a p, s)"

fun run_steps :: "('e \<Rightarrow> 's \<Rightarrow> 's option) \<Rightarrow> 'e list \<Rightarrow> 's \<Rightarrow> 's option" where
  "run_steps f [] s = Some s"
| "run_steps f (e # es) s = Option.bind (f e s) (run_steps f es)"

fun actions_of :: "pooled_action list \<Rightarrow> action list" where
  "actions_of [] = []"
| "actions_of (Act e _ _ # es) = e # actions_of es"
| "actions_of (Collect _ # es) = actions_of es"

definition no_polls :: "'a polls" where
  "no_polls = \<lparr>owned = Map.empty, written = []\<rparr>"

definition values_of :: "pooled_polls \<Rightarrow> bytes polls" where
  "values_of = (\<lambda>(p, s).
     \<lparr>owned = (\<lambda>l. map_option (\<lambda>a. content (objects p a)) (owned s l)), written = written s\<rparr>)"

section \<open>Ownership\<close>

text \<open>
  Every pointer has one owner: the pool, a channel or a handler. What the pool keeps is empty and small.
\<close>

definition pool_ok :: "buffer Pool \<Rightarrow> bool" where
  "pool_ok p \<longleftrightarrow> distinct (pooled p) \<and>
     (\<forall>a \<in> set (pooled p). content (objects p a) = [] \<and> capacity (objects p a) \<le> maxPooledPayloadBuffer) \<and>
     set (pooled p) \<subseteq> {..<nextAddr p}"

definition owners_ok :: "pooled_polls \<Rightarrow> bool" where
  "owners_ok = (\<lambda>(p, s). pool_ok p \<and>
     (\<forall>l a. owned s l = Some a \<longrightarrow> a < nextAddr p \<and> a \<notin> set (pooled p)) \<and>
     (\<forall>l l' a. owned s l = Some a \<longrightarrow> owned s l' = Some a \<longrightarrow> l = l'))"

lemma owners_ok_start: "owners_ok (pollPayloadPool, no_polls)"
  by (simp add: owners_ok_def pool_ok_def pollPayloadPool_def NewPool_def no_polls_def)

lemma Pool_Get_owned:
  assumes "pool_ok p" "Pool_Get choice p = (a, p')"
  shows "pool_ok p'" "a < nextAddr p'" "a \<notin> set (pooled p')" "nextAddr p \<le> nextAddr p'"
    "set (pooled p') \<subseteq> set (pooled p)"
    "\<And>b. b < nextAddr p \<Longrightarrow> b \<notin> set (pooled p) \<Longrightarrow> a \<noteq> b \<and> objects p' b = objects p b"
  using assms by (auto simp: Pool_Get_def pool_ok_def split: option.splits if_splits
      dest: bspec)

lemma pool_ok_store: "a \<notin> set (pooled p) \<Longrightarrow> pool_ok p \<Longrightarrow> pool_ok (p\<lparr>objects := (objects p)(a := b)\<rparr>)"
  by (auto simp: pool_ok_def)

lemma take_poll_buffer_owned:
  assumes "pool_ok p" "take_poll_buffer choice slack packets p = (a, p')"
  shows "pool_ok p'" "a < nextAddr p'" "a \<notin> set (pooled p')" "nextAddr p \<le> nextAddr p'"
    "set (pooled p') \<subseteq> set (pooled p)" "content (objects p' a) = EncodePayload packets"
    "\<And>b. b < nextAddr p \<Longrightarrow> b \<notin> set (pooled p) \<Longrightarrow> a \<noteq> b \<and> objects p' b = objects p b"
proof -
  obtain x q where g: "Pool_Get choice p = (x, q)" by fastforce
  with assms(2) have a: "a = x"
    and p': "p' = q\<lparr>objects := (objects q)(x := store_content slack (EncodePayload packets) (objects q x))\<rparr>"
    by (auto simp: take_poll_buffer_def Let_def getPollBuffer_def EncodePayload_def)
  note get = Pool_Get_owned [OF assms(1) g]
  from get(1,3) show "pool_ok p'" by (simp add: p' pool_ok_store)
  from get(2-5) show "a < nextAddr p'" "a \<notin> set (pooled p')" "nextAddr p \<le> nextAddr p'"
    "set (pooled p') \<subseteq> set (pooled p)" "content (objects p' a) = EncodePayload packets"
    by (simp_all add: a p' store_content_def)
  show "a \<noteq> b \<and> objects p' b = objects p b" if "b < nextAddr p" "b \<notin> set (pooled p)" for b
    using get(6) [OF that] by (simp add: a p')
qed

lemma putPollBuffer_owned:
  assumes "pool_ok p" "a < nextAddr p" "a \<notin> set (pooled p)"
  shows "pool_ok (putPollBuffer a p)" "nextAddr (putPollBuffer a p) = nextAddr p"
    "set (pooled (putPollBuffer a p)) \<subseteq> insert a (set (pooled p))"
    "\<And>b. b \<noteq> a \<Longrightarrow> objects (putPollBuffer a p) b = objects p b"
  using assms by (auto simp: putPollBuffer_def Pool_Put_def pool_ok_def)

lemma Pool_drop_owned:
  assumes "pool_ok p"
  shows "pool_ok (Pool_drop a p)" "set (pooled (Pool_drop a p)) \<subseteq> set (pooled p)"
    "nextAddr (Pool_drop a p) = nextAddr p" "objects (Pool_drop a p) = objects p"
  using assms by (auto simp: Pool_drop_def pool_ok_def)

lemma pooled_act_simulates:
  assumes "owners_ok q"
  shows "map_option values_of (pooled_step (Act e choice slack) q) = value_step e (values_of q)"
proof (cases q)
  case (Pair p s)
  with assms have ok: "pool_ok p"
    and own: "\<And>l a. owned s l = Some a \<Longrightarrow> a < nextAddr p \<and> a \<notin> set (pooled p)"
    and inj: "\<And>l l' a. owned s l = Some a \<Longrightarrow> owned s l' = Some a \<Longrightarrow> l = l'"
    by (auto simp: owners_ok_def)
  show ?thesis
  proof (cases e)
    case (Deliver ch packets)
    obtain a p' where t: "take_poll_buffer choice slack packets p = (a, p')" by fastforce
    note take = take_poll_buffer_owned [OF ok t]
    have "objects p' b = objects p b" if "owned s l = Some b" for l b
      using own [OF that] take(7) by blast
    with take(6) show ?thesis
      by (auto simp: Pair Deliver t values_of_def fun_eq_iff map_option_case split: option.splits)
  next
    case (Return ch)
    have "objects (putPollBuffer a p) b = objects p b"
      if "owned s (InHandler ch) = Some a" "owned s l = Some b" "l \<noteq> InHandler ch" for a b l
      using that own [OF that(1)] inj [OF that(1), of l] putPollBuffer_owned(4) [OF ok, of a b] by auto
    then show ?thesis
      by (auto simp: Pair Return values_of_def fun_eq_iff map_option_case split: option.splits)
  qed (auto simp: Pair values_of_def fun_eq_iff option.map_comp comp_def split: option.splits)
qed

lemma pooled_collect_simulates:
  "owners_ok q \<Longrightarrow> map_option values_of (pooled_step (Collect a) q) = Some (values_of q)"
  by (auto simp: values_of_def owners_ok_def Pool_drop_owned split: prod.splits)

lemma pooled_step_owners_ok:
  assumes "owners_ok q" "pooled_step e q = Some q'"
  shows "owners_ok q'"
proof (cases q)
  case (Pair p s)
  with assms have ok: "pool_ok p"
    and own: "\<And>l a. owned s l = Some a \<Longrightarrow> a < nextAddr p \<and> a \<notin> set (pooled p)"
    and inj: "\<And>l l' a. owned s l = Some a \<Longrightarrow> owned s l' = Some a \<Longrightarrow> l = l'"
    by (auto simp: owners_ok_def)
  show ?thesis
  proof (cases e)
    case (Act e' choice slack)
    show ?thesis
    proof (cases e')
      case (Deliver ch packets)
      obtain a p' where t: "take_poll_buffer choice slack packets p = (a, p')" by fastforce
      note take = take_poll_buffer_owned [OF ok t]
      have old: "b < nextAddr p' \<and> b \<notin> set (pooled p') \<and> a \<noteq> b" if "owned s l = Some b" for l b
        using own [OF that] take(4,5) take(7) [of b] by (auto dest: subsetD)
      then have "owned s l \<noteq> Some a" for l by blast
      moreover have q': "q' = (p', s\<lparr>owned := (owned s)(InChannel ch \<mapsto> a)\<rparr>)"
        using assms(2) by (auto simp: Pair Act Deliver t split: option.splits)
      ultimately show ?thesis using old take(1,2,3) inj by (auto simp: q' owners_ok_def split: if_splits)
    next
      case (Return ch)
      obtain a where a: "owned s (InHandler ch) = Some a"
        and q': "q' = (putPollBuffer a p, s\<lparr>owned := (owned s)(InHandler ch := None)\<rparr>)"
        using assms(2) by (auto simp: Pair Act Return)
      note put = putPollBuffer_owned [OF ok, of a] own [OF a]
      have "b \<notin> set (pooled (putPollBuffer a p))" if "owned s l = Some b" "l \<noteq> InHandler ch" for l b
        using that own [OF that(1)] inj [OF a, of l] put by auto
      with put show ?thesis using own inj by (auto simp: q' owners_ok_def split: if_splits)
    qed (use assms(2) ok own inj in \<open>auto simp: Pair Act owners_ok_def split: option.splits if_splits\<close>)
  next
    case (Collect a)
    with assms(2) own inj Pool_drop_owned [OF ok, of a] show ?thesis
      by (auto simp: Pair owners_ok_def)
  qed
qed

lemma pooled_run_simulates:
  "owners_ok q \<Longrightarrow>
     map_option values_of (run_steps pooled_step es q) = run_steps value_step (actions_of es) (values_of q)"
proof (induction es arbitrary: q)
  case (Cons e es)
  show ?case
  proof (cases e)
    case (Act e' choice slack)
    show ?thesis
    proof (cases "pooled_step e q")
      case None
      with pooled_act_simulates [OF Cons.prems, of e' choice slack] show ?thesis by (simp add: Act)
    next
      case (Some q')
      note ok = pooled_step_owners_ok [OF Cons.prems Some]
      from Some pooled_act_simulates [OF Cons.prems, of e' choice slack]
      have "value_step e' (values_of q) = Some (values_of q')" by (simp add: Act)
      with Some Cons.IH [OF ok] show ?thesis by (simp add: Act)
    qed
  next
    case (Collect a)
    obtain q' where q': "pooled_step (Collect a) q = Some q'" by (cases q) simp
    with pooled_collect_simulates [OF Cons.prems, of a] Cons.IH [OF pooled_step_owners_ok [OF Cons.prems q']]
    show ?thesis by (simp add: Collect q')
  qed
qed simp

lemma pooled_run_owners_ok: "owners_ok q \<Longrightarrow> run_steps pooled_step es q = Some q' \<Longrightarrow> owners_ok q'"
  by (induction es arbitrary: q) (auto simp: bind_eq_Some_conv dest: pooled_step_owners_ok)

section \<open>Properties\<close>

text \<open>
  C9: Handing payloads to polls in reused buffers is equivalent to handing over the payloads
  themselves. Whichever buffer the pool returns for each delivery, whenever it drops buffers and in
  whatever order deliveries, responses and cancelled polls interleave, exactly the same actions are
  possible and every response is written with exactly the payload that was encoded for its poll.
\<close>

theorem pooled_polls_equivalent:
  "map_option values_of (run_steps pooled_step es (pollPayloadPool, no_polls)) =
     run_steps value_step (actions_of es) no_polls"
  using pooled_run_simulates [OF owners_ok_start, of es] by (simp add: values_of_def no_polls_def)

text \<open>
  In every such run each buffer has a single owner, the pool, a channel or a handler, and what the pool
  retains is empty and at most 64 KiB each.
\<close>

lemma pool_ownership:
  assumes "run_steps pooled_step es (pollPayloadPool, no_polls) = Some (p, s)"
  shows "distinct (pooled p)"
    and "owned s l = Some a \<Longrightarrow> a \<notin> set (pooled p)"
    and "owned s l = Some a \<Longrightarrow> owned s l' = Some a \<Longrightarrow> l = l'"
    and "a \<in> set (pooled p) \<Longrightarrow> content (objects p a) = [] \<and> capacity (objects p a) \<le> 64 * 1024"
  using pooled_run_owners_ok [OF owners_ok_start assms]
  by (auto simp: owners_ok_def pool_ok_def maxPooledPayloadBuffer_def)

text \<open>Two polls answered one after the other from one buffer, the second while the first is cancelled.\<close>

definition two_polls :: "pooled_action list" where
  "two_polls =
     [Act (Deliver 0 [text_packet PacketMessage (bytes_of ''hi'')]) None 8,
      Act (Receive 0) None 0, Act (Write 0) None 0, Act (Return 0) None 0,
      Act (Deliver 1 [text_packet PacketNoop []]) (Some 0) 8,
      Act (Deliver 2 [text_packet PacketClose []]) (Some 0) 0,
      Act (Receive 1) None 0, Act (Return 1) None 0,
      Act (Receive 2) None 0, Act (Write 2) None 0]"

lemmas two_polls_eval = two_polls_def take_poll_buffer_def Pool_Get_def putPollBuffer_def Pool_Put_def
  pollPayloadPool_def NewPool_def no_polls_def store_content_def getPollBuffer_def maxPooledPayloadBuffer_def

lemma two_polls_share_a_buffer:
  "\<exists>p s. run_steps pooled_step two_polls (pollPayloadPool, no_polls) = Some (p, s) \<and> nextAddr p = 2 \<and>
     written s = [(0, EncodePayload [text_packet PacketMessage (bytes_of ''hi'')]),
       (2, EncodePayload [text_packet PacketClose []])]"
  by (simp add: two_polls_eval Let_def EncodePayload_def appendPayload_def
      appendPacket_def bytes_of_def)

end
