(* ===== verification/Yeast.thy ===== *)
theory Yeast
  imports Prelude
begin

text \<open>
  The generator of cache-busting query values (\<^verbatim>\<open>yeast.go\<close>): the current millisecond in a
  64 character URL-safe alphabet, followed by a sequence number when the millisecond repeats.
  The generator is shared by every polling transport of the process; each call runs under its
  mutex, so a sequence of calls is a sequence of clock readings.
\<close>

definition yeastAlphabet :: string where
  "yeastAlphabet = ''0123456789ABCDEFGHIJKLMNOPQRSTUVWXYZabcdefghijklmnopqrstuvwxyz-_''"

record yeastGenerator =
  seed :: int
  previousMillis :: int

definition defaultYeast :: yeastGenerator where
  "defaultYeast = \<lparr>seed = 0, previousMillis = 0\<rparr>"

text \<open>The loop of \<^verbatim>\<open>yeastEncode\<close> on a non-negative number; it runs at least once.\<close>

fun yeastEncode_loop :: "nat \<Rightarrow> string \<Rightarrow> string" where
  "yeastEncode_loop num encoded =
     (let encoded = (yeastAlphabet ! (num mod 64)) # encoded
      in if num div 64 = 0 then encoded else yeastEncode_loop (num div 64) encoded)"

declare yeastEncode_loop.simps [simp del]

text \<open>
  A negative number leaves a negative remainder sooner or later, which indexes the alphabet out
  of range.
\<close>

definition yeastEncode :: "int \<Rightarrow> string result" where
  "yeastEncode num =
     (if num < 0 then Inl (Panic IndexOutOfRange) else Inr (yeastEncode_loop (nat num) []))"

definition yeast_next :: "yeastGenerator \<Rightarrow> int \<Rightarrow> string result \<times> yeastGenerator" where
  "yeast_next g now =
     (let millis = max now (previousMillis g)
      in if millis \<noteq> previousMillis g
         then (yeastEncode millis, g\<lparr>previousMillis := millis, seed := 0\<rparr>)
         else (let seq = seed g; g = g\<lparr>seed := wrap64 (seed g + 1)\<rparr>
               in (case yeastEncode millis of
                     Inl f \<Rightarrow> (Inl f, g)
                   | Inr m \<Rightarrow>
                       (case yeastEncode seq of
                          Inl f \<Rightarrow> (Inl f, g)
                        | Inr s \<Rightarrow> (Inr (m @ ''.'' @ s), g)))))"

text \<open>A sequence of calls, one per clock reading.\<close>

fun nexts :: "yeastGenerator \<Rightarrow> int list \<Rightarrow> string result list" where
  "nexts g [] = []"
| "nexts g (now # nows) = (case yeast_next g now of (v, g') \<Rightarrow> v # nexts g' nows)"

section \<open>The encoding is injective\<close>

text \<open>Reading the digits back.\<close>

definition yeast_value :: "string \<Rightarrow> nat" where
  "yeast_value s =
     foldl (\<lambda>n c. n * 64 + the (map_of (zip yeastAlphabet [0..<length yeastAlphabet]) c)) 0 s"

lemma yeastAlphabet_length [simp]: "length yeastAlphabet = 64"
  by (simp add: yeastAlphabet_def)

lemma yeastAlphabet_distinct: "distinct yeastAlphabet"
  by (simp add: yeastAlphabet_def)

lemma yeast_index [simp]:
  "n < 64 \<Longrightarrow> map_of (zip yeastAlphabet [0..<64]) (yeastAlphabet ! n) = Some n"
  using map_of_zip_nth_upt [OF yeastAlphabet_distinct, of n] by simp

lemma yeastEncode_loop_value:
  "foldl (\<lambda>n c. n * 64 + the (map_of (zip yeastAlphabet [0..<64]) c)) 0 (yeastEncode_loop num enc) =
     foldl (\<lambda>n c. n * 64 + the (map_of (zip yeastAlphabet [0..<64]) c)) num enc"
proof (induction num enc rule: yeastEncode_loop.induct)
  case (1 num enc)
  show ?case
  proof (cases "num div 64 = 0")
    case True
    then have "num mod 64 = num" by (metis div_mult_mod_eq mult_0 add_0)
    with True show ?thesis by (subst yeastEncode_loop.simps) simp
  next
    case False
    with 1 [OF refl False] show ?thesis
      by (subst yeastEncode_loop.simps) (simp add: div_mult_mod_eq)
  qed
qed

lemma yeast_value_encode: "yeast_value (yeastEncode_loop num []) = num"
  using yeastEncode_loop_value [of num "[]"] by (simp add: yeast_value_def)

lemma yeastEncode_loop_chars:
  "c \<in> set (yeastEncode_loop num enc) \<Longrightarrow> c \<in> set enc \<or> c \<in> set yeastAlphabet"
proof (induction num enc rule: yeastEncode_loop.induct)
  case (1 num enc)
  then show ?case
    by (subst (asm) (2) yeastEncode_loop.simps) (auto simp: Let_def split: if_splits)
qed

lemma yeastEncode_no_dot: "CHR ''.'' \<notin> set (yeastEncode_loop num [])"
  using yeastEncode_loop_chars [of "CHR ''.''" num "[]"] by (auto simp: yeastAlphabet_def)

lemma yeastEncode_loop_inj: "yeastEncode_loop m [] = yeastEncode_loop n [] \<Longrightarrow> m = n"
  using yeast_value_encode by metis

section \<open>Every value is fresh\<close>

text \<open>
  The abstract view of the generator: the n-th value for a millisecond is the key
  \<open>(millis, n)\<close>; the plain millisecond is \<open>n = 0\<close>, the sequence numbers follow. Keys grow
  strictly from call to call, and the rendering of keys is injective.
\<close>

fun render_key :: "nat \<times> nat \<Rightarrow> string" where
  "render_key (m, 0) = yeastEncode_loop m []"
| "render_key (m, Suc s) = yeastEncode_loop m [] @ ''.'' @ yeastEncode_loop s []"

lemma dot_split:
  assumes "a @ ''.'' @ b = c @ ''.'' @ d" "CHR ''.'' \<notin> set a" "CHR ''.'' \<notin> set c"
  shows "a = c \<and> b = d"
proof -
  have "takeWhile (\<lambda>x. x \<noteq> CHR ''.'') (a @ ''.'' @ b) = a"
    "takeWhile (\<lambda>x. x \<noteq> CHR ''.'') (c @ ''.'' @ d) = c"
    using assms(2,3) by (auto simp: takeWhile_append2 takeWhile_tail)
  with assms(1) show ?thesis by simp
qed

lemma render_key_inj: "render_key k = render_key l \<Longrightarrow> k = l"
proof -
  assume eq: "render_key k = render_key l"
  obtain m i n j where k: "k = (m, i)" and l: "l = (n, j)" by (cases k, cases l)
  note nd = yeastEncode_no_dot [of m] yeastEncode_no_dot [of n]
  show ?thesis
  proof (cases i)
    case 0
    with eq k l nd show ?thesis by (cases j) (auto dest: yeastEncode_loop_inj)
  next
    case i: (Suc i')
    show ?thesis
    proof (cases j)
      case 0
      with eq k l i have "yeastEncode_loop n [] = yeastEncode_loop m [] @ ''.'' @ yeastEncode_loop i' []"
        by simp
      then have "CHR ''.'' \<in> set (yeastEncode_loop n [])" by simp
      with nd show ?thesis by simp
    next
      case (Suc j')
      with eq k l i dot_split [OF _ nd, of "yeastEncode_loop i' []" "yeastEncode_loop j' []"]
      show ?thesis by (auto dest: yeastEncode_loop_inj)
    qed
  qed
qed

definition yeast_key :: "yeastGenerator \<Rightarrow> int \<Rightarrow> nat \<times> nat" where
  "yeast_key g now =
     (if previousMillis g < now then (nat now, 0) else (nat (previousMillis g), Suc (nat (seed g))))"

definition yeast_ok :: "yeastGenerator \<Rightarrow> bool" where
  "yeast_ok g \<longleftrightarrow> 0 \<le> previousMillis g \<and> 0 \<le> seed g"

lemma yeast_next_key:
  assumes "yeast_ok g" "seed g + 1 < 2 ^ 63"
  shows "fst (yeast_next g now) = Inr (render_key (yeast_key g now))"
    "yeast_ok (snd (yeast_next g now))"
    "seed (snd (yeast_next g now)) \<le> seed g + 1"
    "previousMillis g \<le> previousMillis (snd (yeast_next g now))"
proof -
  have "wrap64 (seed g + 1) = seed g + 1"
    using assms by (intro wrap64_id) (auto simp: yeast_ok_def)
  with assms show "fst (yeast_next g now) = Inr (render_key (yeast_key g now))"
    "yeast_ok (snd (yeast_next g now))"
    "seed (snd (yeast_next g now)) \<le> seed g + 1"
    "previousMillis g \<le> previousMillis (snd (yeast_next g now))"
    by (auto simp: yeast_next_def yeast_key_def yeast_ok_def yeastEncode_def Let_def max_def
        split: if_splits)
qed

text \<open>The keys still to come are all larger than those already issued.\<close>

definition key_bound :: "yeastGenerator \<Rightarrow> nat \<times> nat \<Rightarrow> bool" where
  "key_bound g k \<longleftrightarrow> (case k of (m, n) \<Rightarrow>
     nat (previousMillis g) < m \<or> nat (previousMillis g) = m \<and> nat (seed g) < n)"

lemma yeast_key_bound: "yeast_ok g \<Longrightarrow> key_bound g (yeast_key g now)"
  by (auto simp: key_bound_def yeast_key_def yeast_ok_def)

lemma key_bound_next:
  assumes "yeast_ok g" "seed g + 1 < 2 ^ 63" "key_bound (snd (yeast_next g now)) k"
  shows "key_bound g k \<and> k \<noteq> yeast_key g now"
proof -
  have "wrap64 (seed g + 1) = seed g + 1"
    using assms by (intro wrap64_id) (auto simp: yeast_ok_def)
  with assms show ?thesis
    by (cases k) (auto simp: key_bound_def yeast_next_def yeast_key_def yeast_ok_def Let_def max_def
        split: if_splits sum.splits)
qed

lemma nexts_keys:
  assumes "yeast_ok g" "seed g + int (length nows) < 2 ^ 63"
  shows "\<exists>ks. nexts g nows = map (\<lambda>k. Inr (render_key k)) ks \<and> distinct ks \<and> (\<forall>k \<in> set ks. key_bound g k)"
  using assms
proof (induction nows arbitrary: g)
  case Nil
  then show ?case by simp
next
  case (Cons now nows)
  let ?g = "snd (yeast_next g now)"
  have seed: "seed g + 1 < 2 ^ 63" using Cons.prems(2) by simp
  note n = yeast_next_key [OF Cons.prems(1) seed, of now]
  obtain ks where ks: "nexts ?g nows = map (\<lambda>k. Inr (render_key k)) ks" "distinct ks"
    "\<forall>k \<in> set ks. key_bound ?g k"
    using Cons.IH [of ?g] n(2,3) Cons.prems(2) by (auto simp del: nexts.simps)
  have new: "\<forall>k \<in> set ks. key_bound g k \<and> k \<noteq> yeast_key g now"
    using ks(3) key_bound_next [OF Cons.prems(1) seed] by blast
  have "nexts g (now # nows) = map (\<lambda>k. Inr (render_key k)) (yeast_key g now # ks)"
    using n(1) ks(1) by (simp add: case_prod_unfold)
  moreover have "distinct (yeast_key g now # ks)" using new ks(2) by auto
  moreover have "\<forall>k \<in> set (yeast_key g now # ks). key_bound g k"
    using new yeast_key_bound [OF Cons.prems(1)] by auto
  ultimately show ?case by blast
qed

text \<open>
  C38: the cache-busting values of one generator are pairwise distinct, whatever the clock readings
  are, even when the clock stalls or runs backwards, as long as the sequence number does not reach
  \<open>2 ^ 63\<close>, and none of the calls fails.
\<close>

theorem yeast_values_distinct:
  assumes "yeast_ok g" and "seed g + int (length nows) < 2 ^ 63"
  shows "\<exists>ids. nexts g nows = map Inr ids \<and> distinct ids \<and> length ids = length nows"
proof -
  obtain ks where ks: "nexts g nows = map (\<lambda>k. Inr (render_key k)) ks" "distinct ks"
    using nexts_keys [OF assms] by blast
  have "length (nexts g nows) = length nows"
    by (induction nows arbitrary: g) (simp_all add: case_prod_unfold)
  moreover have "distinct (map render_key ks)"
    using ks(2) render_key_inj by (simp add: distinct_map inj_on_def)
  ultimately show ?thesis
    using ks(1) by (intro exI [of _ "map render_key ks"]) (simp add: comp_def)
qed

theorem yeast_values_distinct_witness:
  "\<exists>ids. nexts defaultYeast [1700000000000, 1700000000000, 1699999999999, 1700000000001] = map Inr ids \<and>
     distinct ids \<and> length ids = 4"
  using yeast_values_distinct [of defaultYeast "[1700000000000, 1700000000000, 1699999999999, 1700000000001]"]
  by (simp add: yeast_ok_def defaultYeast_def eval_nat_numeral del: nexts.simps)

end
