(* ===== verification/ClientTransport.thy ===== *)
theory ClientTransport
  imports Http Json Yeast ServerTransport "HOL-Library.List_Lexorder" "HOL-Library.Char_ord"
begin

text \<open>
  The client side of the transports (\<^verbatim>\<open>transport.go\<close>, \<^verbatim>\<open>socket_transport_polling.go\<close>,
  \<^verbatim>\<open>socket_transport_websocket.go\<close>, \<^verbatim>\<open>socket_transport_webtransport.go\<close>). The three structures share
  their fields but for the connection, so they are one record with the type as a field.

  A transport calls back into whoever registered its handlers. The handlers a socket registers are of
  two kinds, its own methods and the closures of an upgrade probe; a transport remembers the kind, and
  its operations take as a parameter \<open>invoke\<close> the function that runs a handler. What the HTTP client,
  the WebSocket and the WebTransport libraries answer is the parameter \<open>clientNet\<close>: an answer may
  depend on the request and on the requests before it.
\<close>

section \<open>URLs\<close>

text \<open>The text before the query, the query, and the scheme apart, since the code replaces it.\<close>

record URL =
  Scheme :: string
  Rest :: string
  Query :: string

definition url_String :: "URL \<Rightarrow> string" where
  "url_String u = Scheme u @ Rest u @ (if Query u = '''' then '''' else CHR ''?'' # Query u)"

definition values_Set :: "string \<Rightarrow> string \<Rightarrow> query_values \<Rightarrow> query_values" where
  "values_Set k v vs = filter (\<lambda>(k', _). k' \<noteq> k) vs @ [(k, v)]"

text \<open>\<^verbatim>\<open>Values.Encode\<close> sorts by key and keeps the values of a key in order.\<close>

definition values_Encode :: "query_values \<Rightarrow> string" where
  "values_Encode vs = encodeQuery (sort_key fst vs)"

section \<open>Transports\<close>

datatype TransportState =
    TransportStateOpening
  | TransportStateOpen
  | TransportStateClosing
  | TransportStateClosed
  | TransportStatePausing
  | TransportStatePaused

fun TransportState_String :: "TransportState \<Rightarrow> string" where
  "TransportState_String TransportStateOpening = ''opening''"
| "TransportState_String TransportStateOpen = ''open''"
| "TransportState_String TransportStateClosing = ''closing''"
| "TransportState_String TransportStateClosed = ''closed''"
| "TransportState_String TransportStatePausing = ''pausing''"
| "TransportState_String TransportStatePaused = ''paused''"

datatype handler = OfSocket | OfProbe

text \<open>The connection: what is left to read of a WebTransport stream; a WebSocket has its frames fed.\<close>

datatype connection = WebSocketConn | WebTransportSession Reader

record Transport =
  t_type :: TransportType
  t_header :: Header
  t_url :: URL
  t_onOpen :: "handler option"
  t_onClose :: "handler option"
  t_onPacket :: "handler option"
  t_onError :: "handler option"
  t_state :: TransportState
  t_conn :: "connection option"
  t_frames :: "frame list"
  t_stream :: bytes

datatype transportCallback = CbOpen handler | CbClose handler | CbPacket handler Packet | CbError handler error

text \<open>A nil URL is an error, a nil header an empty one.\<close>

definition newTransport :: "TransportType \<Rightarrow> URL \<Rightarrow> Header option \<Rightarrow> Transport" where
  "newTransport ty url header =
     \<lparr>t_type = ty, t_header = (case header of None \<Rightarrow> (\<lambda>_. []) | Some h \<Rightarrow> h), t_url = url,
      t_onOpen = None, t_onClose = None, t_onPacket = None, t_onError = None,
      t_state = TransportStateClosed, t_conn = None, t_frames = [], t_stream = []\<rparr>"

definition NewPollingTransport :: "URL option \<Rightarrow> Header option \<Rightarrow> error + Transport" where
  "NewPollingTransport url header =
     (case url of None \<Rightarrow> Inl ErrURLRequired | Some u \<Rightarrow> Inr (newTransport TransportTypePolling u header))"

definition NewWebSocketTransport :: "URL option \<Rightarrow> Header option \<Rightarrow> error + Transport" where
  "NewWebSocketTransport url header =
     (case url of None \<Rightarrow> Inl ErrURLRequired | Some u \<Rightarrow> Inr (newTransport TransportTypeWebSocket u header))"

text \<open>\<open>dialer\<close> tells whether the dialer is there.\<close>

definition NewWebTransportTransport :: "bool \<Rightarrow> URL option \<Rightarrow> Header option \<Rightarrow> error + Transport" where
  "NewWebTransportTransport dialer url header =
     (case url of
        None \<Rightarrow> Inl ErrURLRequired
      | Some u \<Rightarrow>
          if \<not> dialer then Inl ErrWebTransportDialerRequired
          else Inr (newTransport TransportTypeWebTransport u header))"

section \<open>The network\<close>

record httpRequest =
  req_method :: string
  req_url :: string
  req_header :: Header
  req_body :: bytes

record httpResponse =
  StatusCode :: int
  res_Body :: Reader

text \<open>\<^verbatim>\<open>TransportRoundTripper\<close>: the request goes to the client it wraps, and without one it is refused.\<close>

definition RoundTrip ::
  "(httpRequest \<Rightarrow> error + httpResponse) option \<Rightarrow> httpRequest \<Rightarrow> error + httpResponse" where
  "RoundTrip client req =
     (case client of None \<Rightarrow> Inl ErrTransportRoundTripperClientRequired | Some do \<Rightarrow> do req)"

record clientNet =
  url_Parse :: "string \<Rightarrow> error + URL"
  time_Now :: "nat \<Rightarrow> int"
  http_Do :: "httpRequest list \<Rightarrow> httpRequest \<Rightarrow> error + httpResponse"
  ws_Dial :: "tref \<Rightarrow> string \<Rightarrow> Header \<Rightarrow> (error \<times> Reader option) + unit"
  wsc_Write :: "tref \<Rightarrow> frame list \<Rightarrow> frame \<Rightarrow> error option"
  ws_CloseNow :: "tref \<Rightarrow> error option"
  wt_Dial :: "tref \<Rightarrow> string \<Rightarrow> Header \<Rightarrow> error option"
  wt_OpenStreamSync :: "tref \<Rightarrow> error + Reader"
  wtc_SetWriteDeadline :: "tref \<Rightarrow> bytes \<Rightarrow> error option"
  wtc_Write :: "tref \<Rightarrow> bytes \<Rightarrow> bytes \<Rightarrow> error option"
  wt_CloseWithError :: "tref \<Rightarrow> error option"

text \<open>
  The part of the client's state the transports use: their heap, the requests made, the generator of
  cache-busting values with the number of clock readings, and the goroutines started to poll and to
  read. The socket's own state is the extension of this record.
\<close>

record links =
  theap :: "tref \<Rightarrow> Transport"
  requests :: "httpRequest list"
  yeast :: yeastGenerator
  readings :: nat
  polls :: "tref list"
  readers :: "tref list"
  halted :: bool

definition upd_t :: "tref \<Rightarrow> (Transport \<Rightarrow> Transport) \<Rightarrow> 'a links_scheme \<Rightarrow> 'a links_scheme" where
  "upd_t tr f w = w\<lparr>theap := (theap w)(tr := f (theap w tr))\<rparr>"

type_synonym 'a invoke = "transportCallback \<Rightarrow> tref \<Rightarrow> 'a links_scheme \<Rightarrow> 'a links_scheme"

definition SetURL :: "URL \<Rightarrow> tref \<Rightarrow> 'a links_scheme \<Rightarrow> 'a links_scheme" where
  "SetURL url tr w = upd_t tr (\<lambda>t. t\<lparr>t_url := url\<rparr>) w"

definition transport_OnOpen :: "handler option \<Rightarrow> tref \<Rightarrow> 'a links_scheme \<Rightarrow> 'a links_scheme" where
  "transport_OnOpen h tr w = upd_t tr (\<lambda>t. t\<lparr>t_onOpen := h\<rparr>) w"

definition transport_OnClose :: "handler option \<Rightarrow> tref \<Rightarrow> 'a links_scheme \<Rightarrow> 'a links_scheme" where
  "transport_OnClose h tr w = upd_t tr (\<lambda>t. t\<lparr>t_onClose := h\<rparr>) w"

definition transport_OnPacket :: "handler option \<Rightarrow> tref \<Rightarrow> 'a links_scheme \<Rightarrow> 'a links_scheme" where
  "transport_OnPacket h tr w = upd_t tr (\<lambda>t. t\<lparr>t_onPacket := h\<rparr>) w"

definition transport_OnError :: "handler option \<Rightarrow> tref \<Rightarrow> 'a links_scheme \<Rightarrow> 'a links_scheme" where
  "transport_OnError h tr w = upd_t tr (\<lambda>t. t\<lparr>t_onError := h\<rparr>) w"

section \<open>Notifications\<close>

definition notify :: "'a invoke \<Rightarrow> (handler \<Rightarrow> transportCallback) \<Rightarrow> handler option \<Rightarrow> tref \<Rightarrow> 'a links_scheme \<Rightarrow> 'a links_scheme" where
  "notify invoke cb h tr w = (case h of None \<Rightarrow> w | Some h \<Rightarrow> invoke (cb h) tr w)"

definition transport_onOpen :: "'a invoke \<Rightarrow> tref \<Rightarrow> 'a links_scheme \<Rightarrow> 'a links_scheme" where
  "transport_onOpen invoke tr w =
     (let w = upd_t tr (\<lambda>t. t\<lparr>t_state := TransportStateOpen\<rparr>) w
      in notify invoke CbOpen (t_onOpen (theap w tr)) tr w)"

definition transport_onPacket :: "'a invoke \<Rightarrow> tref \<Rightarrow> Packet \<Rightarrow> 'a links_scheme \<Rightarrow> 'a links_scheme" where
  "transport_onPacket invoke tr packet w =
     notify invoke (\<lambda>h. CbPacket h packet) (t_onPacket (theap w tr)) tr w"

definition transport_onError :: "'a invoke \<Rightarrow> tref \<Rightarrow> error \<Rightarrow> 'a links_scheme \<Rightarrow> 'a links_scheme" where
  "transport_onError invoke tr err w =
     notify invoke (\<lambda>h. CbError h err) (t_onError (theap w tr)) tr w"

definition polling_onClose :: "'a invoke \<Rightarrow> tref \<Rightarrow> 'a links_scheme \<Rightarrow> 'a links_scheme" where
  "polling_onClose invoke tr w =
     (if t_state (theap w tr) = TransportStateClosed then w
      else notify invoke CbClose (t_onClose (theap w tr)) tr
             (upd_t tr (\<lambda>t. t\<lparr>t_state := TransportStateClosed\<rparr>) w))"

text \<open>The handler called at the end is the one that was registered at the start.\<close>

definition websocket_onClose ::
  "clientNet \<Rightarrow> 'a invoke \<Rightarrow> tref \<Rightarrow> 'a links_scheme \<Rightarrow> 'a links_scheme" where
  "websocket_onClose N invoke tr w =
     (if t_state (theap w tr) = TransportStateClosed then w
      else
        (let ws = t_conn (theap w tr);
             handler = t_onClose (theap w tr);
             w = upd_t tr (\<lambda>t. t\<lparr>t_state := TransportStateClosed, t_conn := None\<rparr>) w;
             w = (if ws = None then w
                  else (case ws_CloseNow N tr of
                          None \<Rightarrow> w
                        | Some err \<Rightarrow>
                            transport_onError invoke tr
                              (Errorf ''closing websocket connection: %w'' [] [err]) w))
         in notify invoke CbClose handler tr w))"

definition webtransport_onClose ::
  "clientNet \<Rightarrow> 'a invoke \<Rightarrow> tref \<Rightarrow> 'a links_scheme \<Rightarrow> 'a links_scheme" where
  "webtransport_onClose N invoke tr w =
     (if t_state (theap w tr) = TransportStateClosed then w
      else
        (let session = t_conn (theap w tr);
             handler = t_onClose (theap w tr);
             w = upd_t tr (\<lambda>t. t\<lparr>t_state := TransportStateClosed, t_conn := None\<rparr>) w;
             w = (if session = None then w
                  else (case wt_CloseWithError N tr of
                          None \<Rightarrow> w
                        | Some err \<Rightarrow>
                            transport_onError invoke tr
                              (Errorf ''closing webtransport session: %w'' [] [err]) w))
         in notify invoke CbClose handler tr w))"

section \<open>Long polling\<close>

text \<open>
  One HTTP request. The cache-busting value is appended to the text of the URL, behind the query the
  socket's URLs always have.
\<close>

definition polling_request ::
  "clientNet \<Rightarrow> tref \<Rightarrow> bytes \<Rightarrow> 'a links_scheme \<Rightarrow> httpResponse result \<times> 'a links_scheme" where
  "polling_request N tr data w =
     (let t = theap w tr;
          post = (data \<noteq> []);
          (stamp, w) =
            (if post then (Inr '''', w)
             else (case yeast_next (yeast w) (time_Now N (readings w)) of
                     (v, g) \<Rightarrow> (map_sum id (\<lambda>v. ''&t='' @ QueryEscape v) v,
                                w\<lparr>yeast := g, readings := Suc (readings w)\<rparr>)))
      in case stamp of
           Inl f \<Rightarrow> (Inl f, w)
         | Inr suffix \<Rightarrow>
             (let target = url_String (t_url t) @ suffix;
                  header = (if post then header_Set (t_header t) ''Content-Type'' ''text/plain; charset=UTF-8''
                            else t_header t);
                  req = \<lparr>req_method = (if post then ''POST'' else ''GET''), req_url = target,
                         req_header = header, req_body = data\<rparr>
              in case url_Parse N target of
                   Inl err \<Rightarrow> (Inl (Error (Errorf ''building request: %w'' [] [err])), w)
                 | Inr _ \<Rightarrow>
                     (lift_error (http_Do N (requests w) req), w\<lparr>requests := requests w @ [req]\<rparr>)))"

definition polling_write ::
  "clientNet \<Rightarrow> tref \<Rightarrow> bytes \<Rightarrow> 'a links_scheme \<Rightarrow> unit result \<times> 'a links_scheme" where
  "polling_write N tr data w =
     (case polling_request N tr data w of
        (Inl (Panic p), w) \<Rightarrow> (Inl (Panic p), w)
      | (Inl (Error err), w) \<Rightarrow> (Inl (Error (Errorf ''writing poll body: %w'' [] [err])), w)
      | (Inr res, w) \<Rightarrow>
          if StatusCode res \<noteq> 200
          then (Inl (Error (Errorf ''writing poll body: %w: %d'' [StatusCode res] [ErrUnexpectedStatus])), w)
          else (Inr (), w))"

definition client_polling_Send ::
  "clientNet \<Rightarrow> tref \<Rightarrow> Packet list \<Rightarrow> 'a links_scheme \<Rightarrow> unit result \<times> 'a links_scheme" where
  "client_polling_Send N tr packets w =
     (if t_state (theap w tr) \<noteq> TransportStateOpen then (Inr (), w)
      else polling_write N tr (EncodePayload packets) w)"

text \<open>The packets of a payload are dispatched in order, whatever the handlers do in between.\<close>

fun polling_dispatch ::
  "'a invoke \<Rightarrow> tref \<Rightarrow> Packet list \<Rightarrow> 'a links_scheme \<Rightarrow> 'a links_scheme" where
  "polling_dispatch invoke tr [] w = w"
| "polling_dispatch invoke tr (packet # packets) w =
     (let state = t_state (theap w tr);
          w = (if Type packet = PacketOpen \<and> state = TransportStateOpening
               then transport_onOpen invoke tr w
               else if Type packet = PacketClose \<and> state \<noteq> TransportStateClosed
               then polling_onClose invoke tr w
               else w)
      in polling_dispatch invoke tr packets (transport_onPacket invoke tr packet w))"

definition polling_onData ::
  "'a invoke \<Rightarrow> tref \<Rightarrow> bytes \<Rightarrow> 'a links_scheme \<Rightarrow> 'a links_scheme" where
  "polling_onData invoke tr data w =
     (case DecodePayload ProtocolVersion4 data of
        Inl (Panic p) \<Rightarrow> w\<lparr>halted := True\<rparr>
      | Inl (Error err) \<Rightarrow> transport_onError invoke tr (Errorf ''decoding payload: %w'' [] [err]) w
      | Inr packets \<Rightarrow>
          (let w = polling_dispatch invoke tr packets w
           in if t_state (theap w tr) = TransportStateOpen then w\<lparr>polls := polls w @ [tr]\<rparr> else w))"

definition readAll :: "Reader \<Rightarrow> error + bytes" where
  "readAll r = (if final r = EOF then Inr (pending r) else Inl (final r))"

definition polling_poll ::
  "clientNet \<Rightarrow> 'a invoke \<Rightarrow> tref \<Rightarrow> 'a links_scheme \<Rightarrow> 'a links_scheme" where
  "polling_poll N invoke tr w =
     (if t_state (theap w tr) \<noteq> TransportStateOpening \<and> t_state (theap w tr) \<noteq> TransportStateOpen then w
      else
        (case polling_request N tr [] w of
           (Inl (Panic p), w) \<Rightarrow> w\<lparr>halted := True\<rparr>
         | (Inl (Error err), w) \<Rightarrow> transport_onError invoke tr (Errorf ''polling: %w'' [] [err]) w
         | (Inr res, w) \<Rightarrow>
             if StatusCode res \<noteq> 200
             then transport_onError invoke tr
                    (Errorf ''polling: %w: %d'' [StatusCode res] [ErrUnexpectedStatus]) w
             else
               (case readAll (res_Body res) of
                  Inl err \<Rightarrow> transport_onError invoke tr (Errorf ''reading poll response: %w'' [] [err]) w
                | Inr body \<Rightarrow> if body \<noteq> [] then polling_onData invoke tr body w else w)))"

definition client_polling_Open ::
  "clientNet \<Rightarrow> 'a invoke \<Rightarrow> tref \<Rightarrow> 'a links_scheme \<Rightarrow> 'a links_scheme" where
  "client_polling_Open N invoke tr w =
     (if t_state (theap w tr) \<noteq> TransportStateClosed then w
      else polling_poll N invoke tr (upd_t tr (\<lambda>t. t\<lparr>t_state := TransportStateOpening\<rparr>) w))"

text \<open>No poll is in flight between two steps, so there is none to wait for.\<close>

definition polling_beginPause :: "Transport \<Rightarrow> Transport option" where
  "polling_beginPause t =
     (if t_state t = TransportStateOpening \<or> t_state t = TransportStateOpen
      then Some (t\<lparr>t_state := TransportStatePausing\<rparr>) else None)"

definition client_polling_Pause :: "tref \<Rightarrow> 'a links_scheme \<Rightarrow> 'a links_scheme" where
  "client_polling_Pause tr w =
     (case polling_beginPause (theap w tr) of
        None \<Rightarrow> w
      | Some t \<Rightarrow> upd_t tr (\<lambda>_. t\<lparr>t_state := TransportStatePaused\<rparr>) w)"

definition polling_beginClose :: "Transport \<Rightarrow> Transport option" where
  "polling_beginClose t =
     (if t_state t = TransportStateClosed then None else Some (t\<lparr>t_state := TransportStateClosing\<rparr>))"

definition close_packets :: "Packet list" where
  "close_packets = [text_packet PacketClose []]"

definition client_polling_Close ::
  "clientNet \<Rightarrow> 'a invoke \<Rightarrow> tref \<Rightarrow> 'a links_scheme \<Rightarrow> 'a links_scheme" where
  "client_polling_Close N invoke tr w =
     (if t_state (theap w tr) \<noteq> TransportStateOpening \<and> t_state (theap w tr) \<noteq> TransportStateOpen then w
      else
        (let w = (case client_polling_Send N tr close_packets w of
                    (Inl (Panic p), w) \<Rightarrow> w\<lparr>halted := True\<rparr>
                  | (Inl (Error err), w) \<Rightarrow>
                      transport_onError invoke tr (Errorf ''sending close packet: %w'' [] [err]) w
                  | (Inr _, w) \<Rightarrow> w)
         in case polling_beginClose (theap w tr) of
              None \<Rightarrow> w
            | Some t \<Rightarrow> polling_onClose invoke tr (upd_t tr (\<lambda>_. t) w)))"

section \<open>WebSocket\<close>

definition webSocketReadLimit :: int where
  "webSocketReadLimit = 16 * 2 ^ 20"

definition dialError :: "error \<Rightarrow> Reader option \<Rightarrow> error" where
  "dialError cause res =
     (case res of
        None \<Rightarrow> Errorf ''dialing websocket connection: %w'' [] [cause]
      | Some body \<Rightarrow>
          (case readAll body of
             Inr (b # bs) \<Rightarrow> Errorf (''dialing websocket connection: %w: '' @ string_of (b # bs)) [] [cause]
           | _ \<Rightarrow> Errorf ''dialing websocket connection: %w'' [] [cause]))"

definition client_websocket_Open ::
  "clientNet \<Rightarrow> 'a invoke \<Rightarrow> tref \<Rightarrow> 'a links_scheme \<Rightarrow> 'a links_scheme" where
  "client_websocket_Open N invoke tr w =
     (if t_state (theap w tr) \<noteq> TransportStateClosed then w
      else
        (let w = upd_t tr (\<lambda>t. t\<lparr>t_state := TransportStateOpening\<rparr>) w;
             t = theap w tr
         in case ws_Dial N tr (url_String (t_url t)) (t_header t) of
              Inl (err, res) \<Rightarrow>
                transport_onError invoke tr (dialError err res)
                  (upd_t tr (\<lambda>t. t\<lparr>t_state := TransportStateClosed\<rparr>) w)
            | Inr _ \<Rightarrow>
                (let w = upd_t tr (\<lambda>t. t\<lparr>t_conn := Some WebSocketConn\<rparr>) w;
                     w = transport_onOpen invoke tr w
                 in w\<lparr>readers := readers w @ [tr]\<rparr>)))"

fun websocket_writeAll ::
  "(frame list \<Rightarrow> frame \<Rightarrow> error option) \<Rightarrow> Packet list \<Rightarrow> Transport \<Rightarrow> unit result \<times> Transport" where
  "websocket_writeAll wr [] t = (Inr (), t)"
| "websocket_writeAll wr (packet # packets) t =
     (case wr (t_frames t) (websocket_frame packet) of
        Some err \<Rightarrow>
          (Inl (Error (Errorf (if IsBinary packet then ''writing binary frame: %w'' else ''writing frame: %w'')
             [] [err])), t)
      | None \<Rightarrow> websocket_writeAll wr packets (t\<lparr>t_frames := t_frames t @ [websocket_frame packet]\<rparr>))"

definition client_websocket_Send ::
  "clientNet \<Rightarrow> tref \<Rightarrow> Packet list \<Rightarrow> 'a links_scheme \<Rightarrow> unit result \<times> 'a links_scheme" where
  "client_websocket_Send N tr packets w =
     (if t_state (theap w tr) \<noteq> TransportStateOpen \<or> t_conn (theap w tr) = None then (Inr (), w)
      else (case websocket_writeAll (wsc_Write N tr) packets (theap w tr) of
              (res, t) \<Rightarrow> (res, upd_t tr (\<lambda>_. t) w)))"

definition client_websocket_Close ::
  "clientNet \<Rightarrow> 'a invoke \<Rightarrow> tref \<Rightarrow> 'a links_scheme \<Rightarrow> 'a links_scheme" where
  "client_websocket_Close N invoke tr w =
     (if t_state (theap w tr) \<noteq> TransportStateOpening \<and> t_state (theap w tr) \<noteq> TransportStateOpen then w
      else
        (let w = (case client_websocket_Send N tr close_packets w of
                    (Inl (Panic p), w) \<Rightarrow> w\<lparr>halted := True\<rparr>
                  | (Inl (Error err), w) \<Rightarrow>
                      transport_onError invoke tr (Errorf ''sending close packet: %w'' [] [err]) w
                  | (Inr _, w) \<Rightarrow> w)
         in websocket_onClose N invoke tr w))"

text \<open>One iteration of the read loop, for what \<^verbatim>\<open>ws.Read\<close> returned, and whether the loop goes on.\<close>

definition client_websocket_readStep ::
  "clientNet \<Rightarrow> 'a invoke \<Rightarrow> tref \<Rightarrow> error + frame \<Rightarrow> 'a links_scheme \<Rightarrow> bool \<times> 'a links_scheme" where
  "client_websocket_readStep N invoke tr input w =
     (if t_conn (theap w tr) = None \<or> t_state (theap w tr) = TransportStateClosing \<or>
         t_state (theap w tr) = TransportStateClosed
      then (False, w)
      else
        (case input of
           Inl err \<Rightarrow>
             (False, websocket_onClose N invoke tr
                (transport_onError invoke tr (Errorf ''reading websocket connection: %w'' [] [err]) w))
         | Inr (messageType, frame) \<Rightarrow>
             (case decodeWebSocketFrame messageType frame of
                Inl err \<Rightarrow> (True, transport_onError invoke tr err w)
              | Inr packet \<Rightarrow>
                  if Type packet = PacketClose
                  then (False, websocket_onClose N invoke tr (transport_onPacket invoke tr packet w))
                  else (True, transport_onPacket invoke tr packet w))))"

fun client_websocket_readLoop ::
  "clientNet \<Rightarrow> 'a invoke \<Rightarrow> tref \<Rightarrow> (error + frame) list \<Rightarrow> 'a links_scheme \<Rightarrow> 'a links_scheme" where
  "client_websocket_readLoop N invoke tr [] w = w"
| "client_websocket_readLoop N invoke tr (input # inputs) w =
     (case client_websocket_readStep N invoke tr input w of
        (True, w') \<Rightarrow> client_websocket_readLoop N invoke tr inputs w'
      | (False, w') \<Rightarrow> w')"

section \<open>WebTransport\<close>

definition client_webtransport_writeFrames ::
  "clientNet \<Rightarrow> tref \<Rightarrow> Packet list \<Rightarrow> 'a links_scheme \<Rightarrow> unit result \<times> 'a links_scheme" where
  "client_webtransport_writeFrames N tr packets w =
     (if t_conn (theap w tr) = None then (Inr (), w)
      else
        (let buffer = framesBuffer [] packets;
             written = t_stream (theap w tr)
         in case wtc_SetWriteDeadline N tr written of
              Some err \<Rightarrow> (Inl (Error (Errorf ''setting write deadline: %w'' [] [err])), w)
            | None \<Rightarrow>
                (case wtc_Write N tr written buffer of
                   Some err \<Rightarrow> (Inl (Error (Errorf ''writing webtransport frame: %w'' [] [err])), w)
                 | None \<Rightarrow> (Inr (), upd_t tr (\<lambda>t. t\<lparr>t_stream := written @ buffer\<rparr>) w))))"

definition client_webtransport_Send ::
  "clientNet \<Rightarrow> tref \<Rightarrow> Packet list \<Rightarrow> 'a links_scheme \<Rightarrow> unit result \<times> 'a links_scheme" where
  "client_webtransport_Send N tr packets w =
     (if t_state (theap w tr) \<noteq> TransportStateOpen then (Inr (), w)
      else client_webtransport_writeFrames N tr packets w)"

definition webtransport_writeOpen ::
  "clientNet \<Rightarrow> tref \<Rightarrow> string \<Rightarrow> 'a links_scheme \<Rightarrow> unit result \<times> 'a links_scheme" where
  "webtransport_writeOpen N tr sid w =
     (case (if sid = '''' then Inr [] else json_Marshal_sid sid) of
        Inl err \<Rightarrow> (Inl (Error (Errorf ''marshalling open packet: %w'' [] [err])), w)
      | Inr data \<Rightarrow> client_webtransport_writeFrames N tr [text_packet PacketOpen data] w)"

text \<open>The dial target has the scheme forced to HTTPS; the session id comes from the query.\<close>

definition webtransport_target :: "Transport \<Rightarrow> string" where
  "webtransport_target t = url_String ((t_url t)\<lparr>Scheme := ''https''\<rparr>)"

definition client_webtransport_Open ::
  "clientNet \<Rightarrow> 'a invoke \<Rightarrow> tref \<Rightarrow> 'a links_scheme \<Rightarrow> 'a links_scheme" where
  "client_webtransport_Open N invoke tr w =
     (if t_state (theap w tr) \<noteq> TransportStateClosed then w
      else
        (let t = theap w tr;
             sid = values_Get (parseQuery (Query (t_url t))) ''sid'';
             w = upd_t tr (\<lambda>t. t\<lparr>t_state := TransportStateOpening\<rparr>) w;
             failed = (\<lambda>err. transport_onError invoke tr err
                         (upd_t tr (\<lambda>t. t\<lparr>t_state := TransportStateClosed\<rparr>) w))
         in case wt_Dial N tr (webtransport_target t) (t_header t) of
              Some err \<Rightarrow> failed (Errorf ''dialing webtransport session: %w'' [] [err])
            | None \<Rightarrow>
                (case wt_OpenStreamSync N tr of
                   Inl err \<Rightarrow> failed (Errorf ''opening webtransport stream: %w'' [] [err])
                 | Inr reader \<Rightarrow>
                     (let w = upd_t tr (\<lambda>t. t\<lparr>t_conn := Some (WebTransportSession reader)\<rparr>) w
                      in case webtransport_writeOpen N tr sid w of
                           (Inl (Panic p), w) \<Rightarrow> w\<lparr>halted := True\<rparr>
                         | (Inl (Error err), w) \<Rightarrow>
                             webtransport_onClose N invoke tr
                               (transport_onError invoke tr
                                  (Errorf ''sending webtransport open packet: %w'' [] [err]) w)
                         | (Inr _, w) \<Rightarrow>
                             (let w = transport_onOpen invoke tr w
                              in w\<lparr>readers := readers w @ [tr]\<rparr>)))))"

definition client_webtransport_Close ::
  "clientNet \<Rightarrow> 'a invoke \<Rightarrow> tref \<Rightarrow> 'a links_scheme \<Rightarrow> 'a links_scheme" where
  "client_webtransport_Close N invoke tr w =
     (if t_state (theap w tr) \<noteq> TransportStateOpening \<and> t_state (theap w tr) \<noteq> TransportStateOpen then w
      else
        (let w = (case client_webtransport_Send N tr close_packets w of
                    (Inl (Panic p), w) \<Rightarrow> w\<lparr>halted := True\<rparr>
                  | (Inl (Error err), w) \<Rightarrow>
                      transport_onError invoke tr (Errorf ''sending close packet: %w'' [] [err]) w
                  | (Inr _, w) \<Rightarrow> w)
         in webtransport_onClose N invoke tr w))"

text \<open>One iteration of the read loop, and whether the loop goes on.\<close>

definition client_webtransport_readStep ::
  "clientNet \<Rightarrow> 'a invoke \<Rightarrow> tref \<Rightarrow> 'a links_scheme \<Rightarrow> bool \<times> 'a links_scheme" where
  "client_webtransport_readStep N invoke tr w =
     (if t_state (theap w tr) = TransportStateClosing \<or> t_state (theap w tr) = TransportStateClosed
      then (False, w)
      else
        (case t_conn (theap w tr) of
           Some (WebTransportSession reader) \<Rightarrow>
             (case readWebTransportPacket reader webTransportReadLimit of
                (Inl (Panic p), r) \<Rightarrow> (False, w\<lparr>halted := True\<rparr>)
              | (Inl (Error err), r) \<Rightarrow>
                  (False, webtransport_onClose N invoke tr
                     (transport_onError invoke tr (Errorf ''reading webtransport stream: %w'' [] [err])
                        (upd_t tr (\<lambda>t. t\<lparr>t_conn := Some (WebTransportSession r)\<rparr>) w)))
              | (Inr packet, r) \<Rightarrow>
                  (let w = upd_t tr (\<lambda>t. t\<lparr>t_conn := Some (WebTransportSession r)\<rparr>) w;
                       w = transport_onPacket invoke tr packet w
                   in if Type packet = PacketClose
                      then (False, webtransport_onClose N invoke tr w)
                      else (True, w)))
         | _ \<Rightarrow> (False, w)))"

section \<open>The interface\<close>

text \<open>\<^verbatim>\<open>Transport\<close>: the method of the structure the value has. A registered transport has one of the
  three types.\<close>

definition Transport_Open ::
  "clientNet \<Rightarrow> 'a invoke \<Rightarrow> tref \<Rightarrow> 'a links_scheme \<Rightarrow> 'a links_scheme" where
  "Transport_Open N invoke tr w =
     (if t_type (theap w tr) = TransportTypePolling then client_polling_Open N invoke tr w
      else if t_type (theap w tr) = TransportTypeWebSocket then client_websocket_Open N invoke tr w
      else client_webtransport_Open N invoke tr w)"

definition Transport_Close ::
  "clientNet \<Rightarrow> 'a invoke \<Rightarrow> tref \<Rightarrow> 'a links_scheme \<Rightarrow> 'a links_scheme" where
  "Transport_Close N invoke tr w =
     (if t_type (theap w tr) = TransportTypePolling then client_polling_Close N invoke tr w
      else if t_type (theap w tr) = TransportTypeWebSocket then client_websocket_Close N invoke tr w
      else client_webtransport_Close N invoke tr w)"

definition Transport_Pause :: "tref \<Rightarrow> 'a links_scheme \<Rightarrow> 'a links_scheme" where
  "Transport_Pause tr w =
     (if t_type (theap w tr) = TransportTypePolling then client_polling_Pause tr w else w)"

definition Transport_Send ::
  "clientNet \<Rightarrow> tref \<Rightarrow> Packet list \<Rightarrow> 'a links_scheme \<Rightarrow> unit result \<times> 'a links_scheme" where
  "Transport_Send N tr packets w =
     (if t_type (theap w tr) = TransportTypePolling then client_polling_Send N tr packets w
      else if t_type (theap w tr) = TransportTypeWebSocket then client_websocket_Send N tr packets w
      else client_webtransport_Send N tr packets w)"

end
