(* ===== verification/ClientSocket.thy ===== *)
theory ClientSocket
  imports ClientTransport JsonDecode ServerOptions
begin

text \<open>
  The client socket (\<^verbatim>\<open>socket.go\<close>). The state of a client is the links of its transports, the socket,
  and what its goroutines leave behind: the upgrade probes that wait for their outcome, the heartbeat
  callback that has fired, the run contexts that were cancelled, and the trace of the handlers
  invoked. A registered handler is represented by its being set; invoking it is an event of the trace.

  The handlers a transport holds are run by \<open>dispatch\<close>. Of these only the error handler can open a
  transport again: it does so at most once for each transport that remains to be tried, which is what
  the first argument of \<open>Socket_Open\<close> counts.
\<close>

type_synonym ctx = nat

datatype SocketState = SocketStateOpen | SocketStateOpening | SocketStateClosed | SocketStateClosing

datatype deadline = Ticking | Expired

type_synonym TransportConstructor = "URL option \<Rightarrow> Header option \<Rightarrow> error + Transport"

record Socket =
  s_url :: URL
  s_header :: "Header option"
  s_upgrade :: bool
  s_rememberUpgrade :: bool
  s_tryAllTransports :: bool
  s_constructors :: "TransportType \<Rightarrow> TransportConstructor option"
  s_onOpen :: bool
  s_onClose :: bool
  s_onPacket :: bool
  s_onMessage :: bool
  s_onError :: bool
  s_onUpgrade :: bool
  s_onUpgradeError :: bool
  s_transports :: "TransportType list"
  s_sessionID :: string
  s_pingInterval :: int
  s_pingTimeout :: int
  s_maxPayload :: int
  s_state :: SocketState
  s_transport :: "tref option"
  s_priorUpgrade :: TransportType
  s_pingTimeoutTimer :: "deadline option"
  s_baseCtx :: ctx
  s_runCancel :: "ctx option"
  s_writeBuffer :: "Packet list"
  s_upgrading :: bool
  s_flushing :: bool

datatype clientEvent =
    EvOpen
  | EvClose string "error option"
  | EvPacket Packet
  | EvMessage bytes bool
  | EvError error
  | EvUpgrade TransportType
  | EvUpgradeError error

text \<open>
  A probe waits in \<open>pending_probes\<close> under the transport it opened, with the candidates and the
  transports of the loop it belongs to; its outcome is set once.
\<close>

record probe =
  p_rest :: "TransportType list"
  p_transports :: "TransportType list"
  p_outcome :: "error option option"

record client = links +
  sock :: Socket
  nextT :: tref
  nextCtx :: ctx
  cancelled :: "ctx list"
  pingDue :: nat
  spawned :: "(TransportType list \<times> TransportType list) list"
  probes :: "tref \<Rightarrow> probe option"
  events :: "clientEvent list"

section \<open>Options\<close>

record socketConfig =
  sc_header :: "Header option"
  sc_upgrade :: bool
  sc_rememberUpgrade :: bool
  sc_transports :: "TransportType list"
  sc_tryAllTransports :: bool
  sc_webTransportConstructor :: "TransportConstructor option"

type_synonym SocketOption = "socketConfig \<Rightarrow> socketConfig"

definition WithHeader :: "Header option \<Rightarrow> SocketOption" where
  "WithHeader header c = c\<lparr>sc_header := header\<rparr>"

definition WithUpgrade :: "bool \<Rightarrow> SocketOption" where
  "WithUpgrade upgrade c = c\<lparr>sc_upgrade := upgrade\<rparr>"

definition WithRememberUpgrade :: "bool \<Rightarrow> SocketOption" where
  "WithRememberUpgrade rememberUpgrade c = c\<lparr>sc_rememberUpgrade := rememberUpgrade\<rparr>"

definition WithTransports :: "TransportType list \<Rightarrow> SocketOption" where
  "WithTransports ts c = c\<lparr>sc_transports := ts\<rparr>"

definition WithTryAllTransports :: "bool \<Rightarrow> SocketOption" where
  "WithTryAllTransports b c = c\<lparr>sc_tryAllTransports := b\<rparr>"

definition WithWebTransportDialer :: "bool \<Rightarrow> SocketOption" where
  "WithWebTransportDialer dialer c =
     c\<lparr>sc_webTransportConstructor := Some (NewWebTransportTransport dialer)\<rparr>"

definition Transports :: "TransportType \<Rightarrow> TransportConstructor option" where
  "Transports = [TransportTypePolling \<mapsto> NewPollingTransport, TransportTypeWebSocket \<mapsto> NewWebSocketTransport]"

definition defaultSocketConfig :: socketConfig where
  "defaultSocketConfig =
     \<lparr>sc_header = Some (\<lambda>_. []), sc_upgrade = True, sc_rememberUpgrade = False,
      sc_transports = [TransportTypePolling, TransportTypeWebSocket], sc_tryAllTransports = False,
      sc_webTransportConstructor = None\<rparr>"

definition NewSocket ::
  "(string \<Rightarrow> error + URL) \<Rightarrow> (TransportType \<Rightarrow> TransportConstructor option) \<Rightarrow> string \<Rightarrow> SocketOption list \<Rightarrow>
     error + Socket" where
  "NewSocket parse registry serverURL opts =
     (case parse serverURL of
        Inl err \<Rightarrow> Inl (Errorf ''%w: %w'' [] [ErrInvalidURL, err])
      | Inr target \<Rightarrow>
          (let config = fold (\<lambda>f c. f c) opts defaultSocketConfig;
               constructors = (case sc_webTransportConstructor config of
                                 None \<Rightarrow> registry
                               | Some c \<Rightarrow> registry(TransportTypeWebTransport \<mapsto> c))
           in Inr \<lparr>s_url = target, s_header = sc_header config, s_upgrade = sc_upgrade config,
                s_rememberUpgrade = sc_rememberUpgrade config,
                s_tryAllTransports = sc_tryAllTransports config, s_constructors = constructors,
                s_onOpen = False, s_onClose = False, s_onPacket = False, s_onMessage = False,
                s_onError = False, s_onUpgrade = False, s_onUpgradeError = False,
                s_transports = sc_transports config, s_sessionID = '''', s_pingInterval = 0,
                s_pingTimeout = 0, s_maxPayload = 0, s_state = SocketStateClosed, s_transport = None,
                s_priorUpgrade = '''', s_pingTimeoutTimer = None, s_baseCtx = 0, s_runCancel = None,
                s_writeBuffer = [], s_upgrading = False, s_flushing = False\<rparr>))"

section \<open>State and events\<close>

definition upd_s :: "(Socket \<Rightarrow> Socket) \<Rightarrow> client \<Rightarrow> client" where
  "upd_s f w = w\<lparr>sock := f (sock w)\<rparr>"

definition emit :: "(Socket \<Rightarrow> bool) \<Rightarrow> clientEvent \<Rightarrow> client \<Rightarrow> client" where
  "emit handler e w = (if handler (sock w) then w\<lparr>events := events w @ [e]\<rparr> else w)"

definition errorHandler :: "error \<Rightarrow> client \<Rightarrow> client" where
  "errorHandler err w = emit s_onError (EvError err) w"

definition Socket_OnOpen :: "bool \<Rightarrow> client \<Rightarrow> client" where
  "Socket_OnOpen h w = upd_s (\<lambda>s. s\<lparr>s_onOpen := h\<rparr>) w"
definition Socket_OnClose :: "bool \<Rightarrow> client \<Rightarrow> client" where
  "Socket_OnClose h w = upd_s (\<lambda>s. s\<lparr>s_onClose := h\<rparr>) w"
definition Socket_OnPacket :: "bool \<Rightarrow> client \<Rightarrow> client" where
  "Socket_OnPacket h w = upd_s (\<lambda>s. s\<lparr>s_onPacket := h\<rparr>) w"
definition Socket_OnMessage :: "bool \<Rightarrow> client \<Rightarrow> client" where
  "Socket_OnMessage h w = upd_s (\<lambda>s. s\<lparr>s_onMessage := h\<rparr>) w"
definition Socket_OnError :: "bool \<Rightarrow> client \<Rightarrow> client" where
  "Socket_OnError h w = upd_s (\<lambda>s. s\<lparr>s_onError := h\<rparr>) w"
definition Socket_OnUpgrade :: "bool \<Rightarrow> client \<Rightarrow> client" where
  "Socket_OnUpgrade h w = upd_s (\<lambda>s. s\<lparr>s_onUpgrade := h\<rparr>) w"
definition Socket_OnUpgradeError :: "bool \<Rightarrow> client \<Rightarrow> client" where
  "Socket_OnUpgradeError h w = upd_s (\<lambda>s. s\<lparr>s_onUpgradeError := h\<rparr>) w"

section \<open>Choosing and creating a transport\<close>

definition Socket_selectTransport :: "Socket \<Rightarrow> TransportType option" where
  "Socket_selectTransport s =
     (case s_transports s of
        [] \<Rightarrow> None
      | t # _ \<Rightarrow>
          Some (if s_rememberUpgrade s \<and> s_priorUpgrade s \<noteq> '''' \<and> s_priorUpgrade s \<in> set (s_transports s)
                then s_priorUpgrade s else t))"

definition resolveURL :: "clientNet \<Rightarrow> Socket \<Rightarrow> TransportType \<Rightarrow> error + URL" where
  "resolveURL N s transportType =
     (case url_Parse N (url_String (s_url s)) of
        Inl err \<Rightarrow> Inl (Errorf ''%w: %w'' [] [ErrInvalidURL, err])
      | Inr target \<Rightarrow>
          (let q = parseQuery (Query (s_url s));
               q = values_Set ''EIO'' ''4'' q;
               q = values_Set ''transport'' transportType q;
               q = (if s_sessionID s \<noteq> '''' then values_Set ''sid'' (s_sessionID s) q else q)
           in Inr (target\<lparr>Query := values_Encode q\<rparr>)))"

definition constructorFor :: "Socket \<Rightarrow> TransportType \<Rightarrow> error + TransportConstructor" where
  "constructorFor s transportType =
     (case s_constructors s transportType of
        None \<Rightarrow> Inl (Errorf (''transport '' @ transportType @ '' is not registered'') [] [])
      | Some c \<Rightarrow> Inr c)"

definition createTransport :: "clientNet \<Rightarrow> Socket \<Rightarrow> error + Transport" where
  "createTransport N s =
     (case Socket_selectTransport s of
        None \<Rightarrow> Inl ErrNoTransports
      | Some ty \<Rightarrow>
          (case resolveURL N s ty of
             Inl err \<Rightarrow> Inl (Errorf ''resolving URL: %w'' [] [err])
           | Inr target \<Rightarrow>
               (case constructorFor s ty of
                  Inl err \<Rightarrow> Inl err
                | Inr c \<Rightarrow> c (Some target) (s_header s))))"

section \<open>Sending\<close>

text \<open>
  The loop of \<^verbatim>\<open>chunkPackets\<close>: the chunks so far, the current chunk and the size of its payload.
\<close>

fun chunk_loop :: "int \<Rightarrow> Packet list list \<Rightarrow> Packet list \<Rightarrow> int \<Rightarrow> Packet list \<Rightarrow> Packet list list" where
  "chunk_loop limit chunks current sz [] = chunks @ [current]"
| "chunk_loop limit chunks current sz (packet # packets) =
     (let encoded = int (length (EncodePacket packet));
          addition = (if current \<noteq> [] then encoded + 1 else encoded)
      in if current \<noteq> [] \<and> limit < sz + addition
         then chunk_loop limit (chunks @ [current]) [packet] encoded packets
         else chunk_loop limit chunks (current @ [packet]) (sz + addition) packets)"

definition chunkPackets :: "Packet list \<Rightarrow> int \<Rightarrow> Packet list list" where
  "chunkPackets packets limit =
     (if limit \<le> 0 \<or> length packets \<le> 1 then [packets]
      else chunk_loop limit [] [] 0 packets)"

fun sendChunks_loop ::
  "clientNet \<Rightarrow> tref \<Rightarrow> nat \<Rightarrow> Packet list list \<Rightarrow> client \<Rightarrow> (nat \<times> failure option) \<times> client" where
  "sendChunks_loop N tr sent [] w = ((sent, None), w)"
| "sendChunks_loop N tr sent (chunk # chunks) w =
     (case Transport_Send N tr chunk w of
        (Inl (Panic p), w) \<Rightarrow> ((sent, Some (Panic p)), w)
      | (Inl (Error err), w) \<Rightarrow> ((sent, Some (Error (Errorf ''sending packets: %w'' [] [err]))), w)
      | (Inr _, w) \<Rightarrow> sendChunks_loop N tr (sent + length chunk) chunks w)"

definition sendChunks ::
  "clientNet \<Rightarrow> tref \<Rightarrow> Packet list \<Rightarrow> int \<Rightarrow> client \<Rightarrow> (nat \<times> failure option) \<times> client" where
  "sendChunks N tr packets limit w = sendChunks_loop N tr 0 (chunkPackets packets limit) w"

text \<open>The two sections of an iteration of \<^verbatim>\<open>flush\<close> under the lock.\<close>

definition flush_begin :: "Socket \<Rightarrow> (Packet list \<times> tref \<times> int \<times> Socket) option" where
  "flush_begin s =
     (if s_state s \<noteq> SocketStateOpen \<or> s_upgrading s \<or> s_transport s = None \<or> s_writeBuffer s = [] \<or>
         s_flushing s
      then None
      else Some (s_writeBuffer s, the (s_transport s), s_maxPayload s, s\<lparr>s_flushing := True\<rparr>))"

definition flush_end :: "nat \<Rightarrow> failure option \<Rightarrow> Socket \<Rightarrow> (bool \<times> Socket) result" where
  "flush_end sent err s =
     (if s_state s = SocketStateOpen \<and> length (s_writeBuffer s) < sent
      then Inl (Panic SliceBoundsOutOfRange)
      else
        (let s = (if s_state s = SocketStateOpen
                  then s\<lparr>s_writeBuffer := drop sent (s_writeBuffer s)\<rparr> else s);
             s = s\<lparr>s_flushing := False\<rparr>
         in Inr (err = None \<and> s_state s = SocketStateOpen \<and> \<not> s_upgrading s \<and> s_transport s \<noteq> None \<and>
                   s_writeBuffer s \<noteq> [], s)))"

text \<open>One iteration, and \<open>None\<close> if the loop goes on.\<close>

definition client_flush_iteration :: "clientNet \<Rightarrow> client \<Rightarrow> error option option \<times> client" where
  "client_flush_iteration N w =
     (case flush_begin (sock w) of
        None \<Rightarrow> (Some None, w)
      | Some (packets, tr, limit, s) \<Rightarrow>
          (case sendChunks N tr packets limit (w\<lparr>sock := s\<rparr>) of
             ((sent, err), w) \<Rightarrow>
               (case flush_end sent err (sock w) of
                  Inl _ \<Rightarrow> (Some None, w\<lparr>halted := True\<rparr>)
                | Inr (again, s) \<Rightarrow>
                    (case err of
                       Some (Panic p) \<Rightarrow> (Some None, w\<lparr>sock := s, halted := True\<rparr>)
                     | Some (Error e) \<Rightarrow> (Some (Some e), w\<lparr>sock := s\<rparr>)
                     | None \<Rightarrow> (if again then None else Some None, w\<lparr>sock := s\<rparr>)))))"

lemma polling_request_more: "links.more (snd (polling_request N tr data w)) = links.more w"
  by (auto simp: polling_request_def Let_def split: prod.splits sum.splits)

lemma polling_write_more: "links.more (snd (polling_write N tr data w)) = links.more w"
  using polling_request_more [of N tr data w]
  by (auto simp: polling_write_def split: prod.splits sum.splits failure.splits)

lemma Transport_Send_more: "links.more (snd (Transport_Send N tr packets w)) = links.more w"
  using polling_write_more [of N tr "EncodePayload packets" w]
  by (auto simp: Transport_Send_def client_polling_Send_def client_websocket_Send_def
      client_webtransport_Send_def client_webtransport_writeFrames_def upd_t_def Let_def
      split: prod.splits option.splits)

lemma Transport_Send_sock: "sock (snd (Transport_Send N tr packets w)) = sock w"
  using Transport_Send_more [of N tr packets w]
  by (cases w; cases "snd (Transport_Send N tr packets w)") simp

lemma chunk_loop_concat:
  "concat (chunk_loop limit chunks current sz packets) = concat chunks @ current @ packets"
  by (induction limit chunks current sz packets rule: chunk_loop.induct) (simp_all add: Let_def)

lemma chunkPackets_concat: "concat (chunkPackets packets limit) = packets"
  by (simp add: chunkPackets_def chunk_loop_concat)

lemma sendChunks_loop_sock: "sock (snd (sendChunks_loop N tr sent chunks w)) = sock w"
proof (induction chunks arbitrary: sent w)
  case (Cons chunk chunks)
  obtain r w1 where r: "Transport_Send N tr chunk w = (r, w1)" by (cases "Transport_Send N tr chunk w")
  then have "sock w1 = sock w" using Transport_Send_sock [of N tr chunk w] by simp
  with r show ?case using Cons.IH [of _ w1] by (simp split: sum.split failure.split)
qed simp

lemma sendChunks_loop_sent:
  "sendChunks_loop N tr sent chunks w = ((sent', None), w') \<Longrightarrow> sent' = sent + length (concat chunks)"
  by (induction N tr sent chunks w rule: sendChunks_loop.induct)
    (auto split: prod.splits sum.splits failure.splits)

lemma sendChunks_sock: "sock (snd (sendChunks N tr packets limit w)) = sock w"
  by (simp add: sendChunks_def sendChunks_loop_sock)

lemma sendChunks_all:
  "sendChunks N tr packets limit w = ((sent, None), w') \<Longrightarrow> sent = length packets"
  by (auto simp: sendChunks_def chunkPackets_concat dest!: sendChunks_loop_sent)

lemma client_flush_iteration_once: "fst (client_flush_iteration N w) \<noteq> None"
proof (cases "flush_begin (sock w)")
  case (Some x)
  then obtain packets tr limit s where b: "flush_begin (sock w) = Some (packets, tr, limit, s)"
    by (cases x) auto
  then have s: "s_writeBuffer s = packets" by (auto simp: flush_begin_def split: if_splits)
  obtain sent err w' where c: "sendChunks N tr packets limit (w\<lparr>sock := s\<rparr>) = ((sent, err), w')"
    by (metis prod.collapse)
  then have "sock w' = s" using sendChunks_sock [of N tr packets limit "w\<lparr>sock := s\<rparr>"] by simp
  moreover have "err = None \<Longrightarrow> sent = length packets" using c sendChunks_all by blast
  ultimately show ?thesis
    using b c s by (auto simp: client_flush_iteration_def flush_end_def Let_def
        split: option.splits failure.splits if_splits)
qed (simp add: client_flush_iteration_def)

text \<open>Nothing is appended between two steps, so one iteration drains the buffer.\<close>

function client_flush :: "clientNet \<Rightarrow> client \<Rightarrow> error option \<times> client" where
  "client_flush N w =
     (case client_flush_iteration N w of
        (Some r, w') \<Rightarrow> (r, w')
      | (None, w') \<Rightarrow> client_flush N w')"
  by pat_completeness auto
termination
proof (relation "{}", goal_cases)
  case (2 N w x w')
  then show ?case using client_flush_iteration_once [of N w] by (metis fst_conv)
qed simp

declare client_flush.simps [simp del]

definition Socket_Send :: "clientNet \<Rightarrow> Packet list \<Rightarrow> client \<Rightarrow> error option \<times> client" where
  "Socket_Send N packets w =
     (if s_state (sock w) \<noteq> SocketStateOpen \<and> s_state (sock w) \<noteq> SocketStateOpening then (None, w)
      else client_flush N (upd_s (\<lambda>s. s\<lparr>s_writeBuffer := s_writeBuffer s @ packets\<rparr>) w))"

section \<open>Closing\<close>

text \<open>
  Before a transport is closed for good its handlers are cleared, so that closing it calls nobody:
  \<open>nobody\<close> runs no handler because there is none to run.
\<close>

definition nobody :: "transportCallback \<Rightarrow> tref \<Rightarrow> client \<Rightarrow> client" where
  "nobody cb tr w = w"

definition detach :: "tref \<Rightarrow> client \<Rightarrow> client" where
  "detach tr w =
     transport_OnError None tr (transport_OnPacket None tr (transport_OnClose None tr
       (transport_OnOpen None tr w)))"

definition Socket_beginTeardown :: "Socket \<Rightarrow> (tref option \<times> ctx option \<times> bool \<times> Socket) option" where
  "Socket_beginTeardown s =
     (if s_state s \<noteq> SocketStateOpen \<and> s_state s \<noteq> SocketStateOpening \<and> s_state s \<noteq> SocketStateClosing
      then None
      else Some (s_transport s, s_runCancel s, s_onClose s,
             s\<lparr>s_state := SocketStateClosed, s_pingTimeoutTimer := None, s_transport := None,
               s_sessionID := '''', s_writeBuffer := [], s_upgrading := False, s_runCancel := None\<rparr>))"

definition cancel :: "ctx option \<Rightarrow> client \<Rightarrow> client" where
  "cancel c w = (case c of None \<Rightarrow> w | Some c \<Rightarrow> w\<lparr>cancelled := c # cancelled w\<rparr>)"

definition Socket_onClose :: "clientNet \<Rightarrow> string \<Rightarrow> error option \<Rightarrow> client \<Rightarrow> client" where
  "Socket_onClose N reason cause w =
     (case Socket_beginTeardown (sock w) of
        None \<Rightarrow> w
      | Some (tr, runCancel, handler, s) \<Rightarrow>
          (let w = w\<lparr>sock := s\<rparr>;
               w = (case tr of None \<Rightarrow> w | Some tr \<Rightarrow> Transport_Close N nobody tr (detach tr w));
               w = cancel runCancel w
           in if handler then w\<lparr>events := events w @ [EvClose reason cause]\<rparr> else w))"

definition Socket_beginRetry :: "Socket \<Rightarrow> bool \<times> tref option \<times> ctx \<times> Socket" where
  "Socket_beginRetry s =
     (let s = s\<lparr>s_priorUpgrade := ''''\<rparr>;
          retry = (s_tryAllTransports s \<and> 1 < length (s_transports s) \<and> s_state s = SocketStateOpening)
      in (retry, s_transport s, s_baseCtx s,
          if retry
          then s\<lparr>s_transports := tl (s_transports s), s_state := SocketStateClosed, s_transport := None,
                 s_writeBuffer := []\<rparr>
          else s))"

definition Socket_onError ::
  "clientNet \<Rightarrow> (ctx \<Rightarrow> client \<Rightarrow> client) \<Rightarrow> error \<Rightarrow> client \<Rightarrow> client" where
  "Socket_onError N reopen err w =
     (let w = errorHandler (Errorf ''transport error: %w'' [] [err]) w
      in case Socket_beginRetry (sock w) of
           (False, _, _, s) \<Rightarrow> Socket_onClose N ''transport error'' (Some err) (w\<lparr>sock := s\<rparr>)
         | (True, tr, baseCtx, s) \<Rightarrow>
             (let w = w\<lparr>sock := s\<rparr>;
                  w = (case tr of None \<Rightarrow> w | Some tr \<Rightarrow> Transport_Close N nobody tr (detach tr w))
              in reopen baseCtx w))"

section \<open>Packets\<close>

definition reschedulePingTimeout :: "client \<Rightarrow> client" where
  "reschedulePingTimeout w =
     (let timeout = wrap64 (s_pingInterval (sock w) + s_pingTimeout (sock w))
      in upd_s (\<lambda>s. s\<lparr>s_pingTimeoutTimer := (if timeout \<le> 0 then None else Some Ticking)\<rparr>) w)"

definition recordOpen :: "(tref \<Rightarrow> TransportType) \<Rightarrow> OpenPacket \<Rightarrow> Socket \<Rightarrow> Socket" where
  "recordOpen typ p s =
     s\<lparr>s_sessionID := SessionID p, s_maxPayload := MaxPayload p,
       s_pingTimeout := wrap64 (PingTimeout p * Millisecond),
       s_pingInterval := wrap64 (PingInterval p * Millisecond), s_state := SocketStateOpen,
       s_priorUpgrade :=
         (case s_transport s of
            Some tr \<Rightarrow> if typ tr \<noteq> TransportTypePolling then typ tr else ''''
          | None \<Rightarrow> '''')\<rparr>"

definition reported :: "string \<Rightarrow> error option \<times> client \<Rightarrow> client" where
  "reported context = (\<lambda>(err, w).
     case err of None \<Rightarrow> w | Some e \<Rightarrow> errorHandler (Errorf context [] [e]) w)"

definition Socket_opened :: "clientNet \<Rightarrow> OpenPacket \<Rightarrow> client \<Rightarrow> client" where
  "Socket_opened N p w =
     (let w = upd_s (recordOpen (\<lambda>tr. t_type (theap w tr)) p) w
      in case s_transport (sock w) of
           None \<Rightarrow> w
         | Some tr \<Rightarrow>
             (let upgrade = s_upgrade (sock w);
                  transports' = s_transports (sock w);
                  w = reschedulePingTimeout w
              in case resolveURL N (sock w) (t_type (theap w tr)) of
                   Inl err \<Rightarrow> errorHandler (Errorf ''resolving URL: %w'' [] [err]) w
                 | Inr target \<Rightarrow>
                     (let w = SetURL target tr w;
                          w = reported ''flushing buffered packets: %w'' (client_flush N w);
                          w = emit s_onOpen EvOpen w
                      in if upgrade \<and> Upgrades p \<noteq> []
                         then w\<lparr>spawned := spawned w @ [(Upgrades p, transports')]\<rparr> else w)))"

definition Socket_onPacket :: "clientNet \<Rightarrow> Packet \<Rightarrow> client \<Rightarrow> client" where
  "Socket_onPacket N p w =
     (if s_state (sock w) = SocketStateClosed then w
      else
        (let w = reschedulePingTimeout w;
             w = (if Type p = PacketOpen then
                    (case json_Unmarshal_OpenPacket (Data p) of
                       Inl err \<Rightarrow> errorHandler (Errorf ''unmarshalling open packet: %w'' [] [err]) w
                     | Inr openPacket \<Rightarrow> Socket_opened N openPacket w)
                  else if Type p = PacketPing then
                    reported ''sending pong packet: %w'' (Socket_Send N [text_packet PacketPong []] w)
                  else if Type p = PacketMessage then emit s_onMessage (EvMessage (Data p) (IsBinary p)) w
                  else w)
         in emit s_onPacket (EvPacket p) w))"

section \<open>The closures of a probe\<close>

definition probe_packet :: Packet where
  "probe_packet = text_packet PacketPing (bytes_of ''probe'')"

definition signal :: "tref \<Rightarrow> error option \<Rightarrow> client \<Rightarrow> client" where
  "signal tr err w =
     (case probes w tr of
        Some p \<Rightarrow>
          if p_outcome p = None then w\<lparr>probes := (probes w)(tr \<mapsto> p\<lparr>p_outcome := Some err\<rparr>)\<rparr> else w
      | None \<Rightarrow> w)"

definition probe_onOpen :: "clientNet \<Rightarrow> tref \<Rightarrow> client \<Rightarrow> client" where
  "probe_onOpen N tr w =
     (let w = (case Transport_Send N tr [probe_packet] w of
                 (Inl (Panic p), w) \<Rightarrow> w\<lparr>halted := True\<rparr>
               | (Inl (Error err), w) \<Rightarrow> errorHandler (Errorf ''sending probe packet: %w'' [] [err]) w
               | (Inr _, w) \<Rightarrow> w)
      in transport_OnOpen None tr w)"

definition discardProbe :: "clientNet \<Rightarrow> tref \<Rightarrow> error \<Rightarrow> client \<Rightarrow> client" where
  "discardProbe N tr reason w = signal tr (Some reason) (Transport_Close N nobody tr (detach tr w))"

text \<open>The old transport keeps its packet handler.\<close>

definition detachLifecycle :: "tref option \<Rightarrow> client \<Rightarrow> client" where
  "detachLifecycle old w =
     (case old of
        None \<Rightarrow> w
      | Some tr \<Rightarrow> transport_OnError None tr (transport_OnClose None tr (transport_OnOpen None tr w)))"

definition restoreLifecycle :: "tref option \<Rightarrow> client \<Rightarrow> client" where
  "restoreLifecycle old w =
     (case old of
        None \<Rightarrow> w
      | Some tr \<Rightarrow> transport_OnClose (Some OfSocket) tr (transport_OnError (Some OfSocket) tr w))"

definition adopt :: "clientNet \<Rightarrow> tref \<Rightarrow> client \<Rightarrow> client" where
  "adopt N tr w =
     (if s_state (sock w) \<noteq> SocketStateOpen
      then discardProbe N tr (NewError ''socket closed during upgrade'') w
      else
        (let w = upd_s (\<lambda>s. s\<lparr>s_priorUpgrade := t_type (theap w tr), s_transport := Some tr,
                              s_upgrading := False\<rparr>) w;
             w = transport_OnClose (Some OfSocket) tr (transport_OnError (Some OfSocket) tr
                   (transport_OnPacket (Some OfSocket) tr w));
             w = emit s_onUpgrade (EvUpgrade (t_type (theap w tr))) w;
             w = reported ''flushing after an upgrade: %w'' (client_flush N w)
         in signal tr None w))"

definition probe_onPacket :: "clientNet \<Rightarrow> tref \<Rightarrow> Packet \<Rightarrow> client \<Rightarrow> client" where
  "probe_onPacket N tr p w =
     (if Type p \<noteq> PacketPong \<or> Data p \<noteq> bytes_of ''probe'' then w
      else if s_state (sock w) \<noteq> SocketStateOpen
      then discardProbe N tr (NewError ''socket is no longer open'') w
      else
        (let w = upd_s (\<lambda>s. s\<lparr>s_upgrading := True\<rparr>) w;
             old = s_transport (sock w);
             w = detachLifecycle old w
         in case Transport_Send N tr [text_packet PacketUpgrade []] w of
              (Inl (Panic f), w) \<Rightarrow> w\<lparr>halted := True\<rparr>
            | (Inl (Error err), w) \<Rightarrow>
                (let w = upd_s (\<lambda>s. s\<lparr>s_upgrading := False\<rparr>) w;
                     w = restoreLifecycle old w;
                     w = reported ''flushing after a failed upgrade: %w'' (client_flush N w)
                 in discardProbe N tr (Errorf ''sending upgrade packet: %w'' [] [err]) w)
            | (Inr _, w) \<Rightarrow>
                adopt N tr (case old of None \<Rightarrow> w | Some tr' \<Rightarrow> Transport_Pause tr' w)))"

definition probe_onClose :: "clientNet \<Rightarrow> tref \<Rightarrow> client \<Rightarrow> client" where
  "probe_onClose N tr w = discardProbe N tr (NewError ''transport closed'') w"

definition probe_onError :: "clientNet \<Rightarrow> tref \<Rightarrow> error \<Rightarrow> client \<Rightarrow> client" where
  "probe_onError N tr err w = discardProbe N tr (Errorf ''transport error: %w'' [] [err]) w"

section \<open>Opening\<close>

text \<open>
  What a handler does. The socket never registers an open handler of its own. \<open>reopen\<close> is what the
  error handler calls to try the next transport.
\<close>

definition dispatch ::
  "clientNet \<Rightarrow> (ctx \<Rightarrow> client \<Rightarrow> client) \<Rightarrow> transportCallback \<Rightarrow> tref \<Rightarrow> client \<Rightarrow> client" where
  "dispatch N reopen cb tr w =
     (case cb of
        CbOpen OfSocket \<Rightarrow> w
      | CbOpen OfProbe \<Rightarrow> probe_onOpen N tr w
      | CbPacket OfSocket p \<Rightarrow> Socket_onPacket N p w
      | CbPacket OfProbe p \<Rightarrow> probe_onPacket N tr p w
      | CbClose OfSocket \<Rightarrow> Socket_onClose N ''transport closed'' None w
      | CbClose OfProbe \<Rightarrow> probe_onClose N tr w
      | CbError OfSocket err \<Rightarrow> Socket_onError N reopen err w
      | CbError OfProbe err \<Rightarrow> probe_onError N tr err w)"

definition Socket_beginOpen :: "ctx \<Rightarrow> client \<Rightarrow> client option" where
  "Socket_beginOpen context w =
     (if s_state (sock w) \<noteq> SocketStateClosed then None
      else
        (let w = upd_s (\<lambda>s. s\<lparr>s_state := SocketStateOpening, s_baseCtx := context, s_upgrading := False,
                             s_writeBuffer := []\<rparr>) w;
             w = cancel (s_runCancel (sock w)) w
         in Some ((upd_s (\<lambda>s. s\<lparr>s_runCancel := Some (nextCtx w)\<rparr>) w)\<lparr>nextCtx := Suc (nextCtx w)\<rparr>)))"

text \<open>A new transport takes the next reference.\<close>

definition bind :: "Transport \<Rightarrow> client \<Rightarrow> client" where
  "bind t w =
     (let tr = nextT w;
          w = (upd_t tr (\<lambda>_. t) w)\<lparr>nextT := Suc tr\<rparr>;
          w = upd_s (\<lambda>s. s\<lparr>s_transport := Some tr\<rparr>) w
      in transport_OnClose (Some OfSocket) tr (transport_OnError (Some OfSocket) tr
           (transport_OnPacket (Some OfSocket) tr w)))"

fun Socket_Open :: "clientNet \<Rightarrow> nat \<Rightarrow> ctx \<Rightarrow> client \<Rightarrow> client" where
  "Socket_Open N 0 context w = w\<lparr>halted := True\<rparr>"
| "Socket_Open N (Suc n) context w =
     (case Socket_beginOpen context w of
        None \<Rightarrow> w
      | Some w \<Rightarrow>
          (case createTransport N (sock w) of
             Inl err \<Rightarrow> errorHandler err (upd_s (\<lambda>s. s\<lparr>s_state := SocketStateClosed\<rparr>) w)
           | Inr t \<Rightarrow>
               Transport_Open N (dispatch N (Socket_Open N n)) (nextT w) (bind t w)))"

text \<open>Every retry drops a transport from the list, so its length is fuel enough.\<close>

definition Open :: "clientNet \<Rightarrow> ctx \<Rightarrow> client \<Rightarrow> client" where
  "Open N context w = Socket_Open N (Suc (length (s_transports (sock w)))) context w"

definition handlers :: "clientNet \<Rightarrow> client \<Rightarrow> transportCallback \<Rightarrow> tref \<Rightarrow> client \<Rightarrow> client" where
  "handlers N w = dispatch N (Socket_Open N (Suc (length (s_transports (sock w)))))"

section \<open>Closing by the application\<close>

definition Socket_beginClose :: "Socket \<Rightarrow> bool \<times> bool" where
  "Socket_beginClose s =
     (if s_state s \<noteq> SocketStateOpen \<and> s_state s \<noteq> SocketStateOpening then (False, False)
      else (True, s_state s = SocketStateOpen \<and> \<not> s_upgrading s \<and> s_writeBuffer s \<noteq> []))"

definition beginCloseTransport :: "Socket \<Rightarrow> (tref option \<times> Socket) option" where
  "beginCloseTransport s =
     (if s_state s \<noteq> SocketStateOpen \<and> s_state s \<noteq> SocketStateOpening then None
      else Some (s_transport s, s\<lparr>s_state := SocketStateClosing\<rparr>))"

definition Socket_Close :: "clientNet \<Rightarrow> client \<Rightarrow> client" where
  "Socket_Close N w =
     (case Socket_beginClose (sock w) of
        (False, _) \<Rightarrow> w
      | (True, canFlush) \<Rightarrow>
          (let w = (if canFlush then reported ''flushing on close: %w'' (client_flush N w) else w)
           in case beginCloseTransport (sock w) of
                None \<Rightarrow> w
              | Some (tr, s) \<Rightarrow>
                  (let w = w\<lparr>sock := s\<rparr>
                   in case tr of
                        None \<Rightarrow> w
                      | Some tr \<Rightarrow> Transport_Close N (handlers N w) tr w)))"

section \<open>Probing\<close>

definition beginProbe :: "client \<Rightarrow> client" where
  "beginProbe w = upd_s (\<lambda>s. s\<lparr>s_priorUpgrade := ''''\<rparr>) w"

text \<open>Up to the point where \<^verbatim>\<open>probe\<close> waits for its outcome.\<close>

definition startProbing ::
  "clientNet \<Rightarrow> TransportType \<Rightarrow> TransportType list \<Rightarrow> TransportType list \<Rightarrow> client \<Rightarrow> error option \<times> client" where
  "startProbing N ty rest transports' w =
     (let w = beginProbe w
      in case resolveURL N (sock w) ty of
           Inl err \<Rightarrow> (Some (Errorf ''resolving URL: %w'' [] [err]), w)
         | Inr target \<Rightarrow>
             (case constructorFor (sock w) ty of
                Inl err \<Rightarrow> (Some err, w)
              | Inr c \<Rightarrow>
                  (case c (Some target) (s_header (sock w)) of
                     Inl err \<Rightarrow> (Some (Errorf ''creating transport: %w'' [] [err]), w)
                   | Inr t \<Rightarrow>
                       (let tr = nextT w;
                            w = (upd_t tr (\<lambda>_. t) w)\<lparr>nextT := Suc tr, probes := (probes w)(tr \<mapsto>
                                  \<lparr>p_rest = rest, p_transports = transports', p_outcome = None\<rparr>)\<rparr>;
                            w = transport_OnError (Some OfProbe) tr (transport_OnClose (Some OfProbe) tr
                                  (transport_OnPacket (Some OfProbe) tr (transport_OnOpen (Some OfProbe) tr w)))
                        in (None, Transport_Open N (handlers N w) tr w)))))"

definition probeFailed :: "error \<Rightarrow> client \<Rightarrow> client" where
  "probeFailed err w =
     (let err = Errorf ''probing for upgrade: %w'' [] [err]
      in if s_onUpgradeError (sock w) then emit s_onUpgradeError (EvUpgradeError err) w
         else errorHandler err w)"

fun probeUpgrades ::
  "clientNet \<Rightarrow> TransportType list \<Rightarrow> TransportType list \<Rightarrow> client \<Rightarrow> client" where
  "probeUpgrades N [] transports' w = w"
| "probeUpgrades N (candidate # rest) transports' w =
     (if candidate \<notin> set transports' then probeUpgrades N rest transports' w
      else
        (case startProbing N candidate rest transports' w of
           (Some err, w) \<Rightarrow> probeUpgrades N rest transports' (probeFailed err w)
         | (None, w) \<Rightarrow> w))"

text \<open>The loop goes on once the outcome of its probe is there.\<close>

definition resumeProbe :: "clientNet \<Rightarrow> tref \<Rightarrow> client \<Rightarrow> client" where
  "resumeProbe N tr w =
     (case probes w tr of
        Some p \<Rightarrow>
          (case p_outcome p of
             Some outcome \<Rightarrow>
               (let w = w\<lparr>probes := (probes w)(tr := None)\<rparr>
                in case outcome of
                     None \<Rightarrow> w
                   | Some err \<Rightarrow>
                       probeUpgrades N (p_rest p) (p_transports p)
                         (probeFailed (Errorf ''probing transport: %w'' [] [err]) w))
           | None \<Rightarrow> w)
      | None \<Rightarrow> w)"

section \<open>Goroutines\<close>

text \<open>The heartbeat timer fires, and its callback runs some time later.\<close>

definition pingTimeoutFires :: "client \<Rightarrow> client" where
  "pingTimeoutFires w =
     (if s_pingTimeoutTimer (sock w) = Some Ticking
      then (upd_s (\<lambda>s. s\<lparr>s_pingTimeoutTimer := Some Expired\<rparr>) w)\<lparr>pingDue := Suc (pingDue w)\<rparr> else w)"

definition pingTimeoutRuns :: "clientNet \<Rightarrow> client \<Rightarrow> client" where
  "pingTimeoutRuns N w =
     (if pingDue w = 0 then w
      else Socket_onClose N ''ping timeout'' None (w\<lparr>pingDue := pingDue w - 1\<rparr>))"

definition runPoll :: "clientNet \<Rightarrow> tref \<Rightarrow> client \<Rightarrow> client" where
  "runPoll N tr w =
     (if tr \<in> set (polls w)
      then polling_poll N (handlers N w) tr (w\<lparr>polls := remove1 tr (polls w)\<rparr>) else w)"

definition runRead :: "clientNet \<Rightarrow> tref \<Rightarrow> error + frame \<Rightarrow> client \<Rightarrow> client" where
  "runRead N tr input w =
     (if tr \<notin> set (readers w) then w
      else
        (case (if t_type (theap w tr) = TransportTypeWebSocket
               then client_websocket_readStep N (handlers N w) tr input w
               else client_webtransport_readStep N (handlers N w) tr w) of
           (True, w) \<Rightarrow> w
         | (False, w) \<Rightarrow> w\<lparr>readers := remove1 tr (readers w)\<rparr>))"

definition runSpawned :: "clientNet \<Rightarrow> client \<Rightarrow> client" where
  "runSpawned N w =
     (case spawned w of
        [] \<Rightarrow> w
      | (upgrades, transports') # rest \<Rightarrow> probeUpgrades N upgrades transports' (w\<lparr>spawned := rest\<rparr>))"

text \<open>
  The steps of a client, in any order: the methods the application calls, and the goroutines of the
  transports, the timer and the probes.
\<close>

inductive client_step :: "clientNet \<Rightarrow> client \<Rightarrow> client \<Rightarrow> bool" for N where
  opens: "client_step N w (Open N context w)"
| closes: "client_step N w (Socket_Close N w)"
| send: "client_step N w (snd (Socket_Send N packets w))"
| poll: "client_step N w (runPoll N tr w)"
| read: "client_step N w (runRead N tr input w)"
| fire: "client_step N w (pingTimeoutFires w)"
| timeout: "client_step N w (pingTimeoutRuns N w)"
| spawn: "client_step N w (runSpawned N w)"
| resume: "client_step N w (resumeProbe N tr w)"
| onOpen: "client_step N w (Socket_OnOpen h w)"
| onClose: "client_step N w (Socket_OnClose h w)"
| onPacket: "client_step N w (Socket_OnPacket h w)"
| onMessage: "client_step N w (Socket_OnMessage h w)"
| onError: "client_step N w (Socket_OnError h w)"
| onUpgrade: "client_step N w (Socket_OnUpgrade h w)"
| onUpgradeError: "client_step N w (Socket_OnUpgradeError h w)"

definition newClient :: "Socket \<Rightarrow> client" where
  "newClient s =
     \<lparr>theap = (\<lambda>_. newTransport TransportTypePolling (s_url s) None), requests = [], yeast = defaultYeast,
      readings = 0, polls = [], readers = [], halted = False, sock = s, nextT = 0, nextCtx = 0,
      cancelled = [], pingDue = 0, spawned = [], probes = (\<lambda>_. None), events = []\<rparr>"

inductive client_reachable :: "clientNet \<Rightarrow> Socket \<Rightarrow> client \<Rightarrow> bool" for N s where
  init: "client_reachable N s (newClient s)"
| step: "client_reachable N s w \<Longrightarrow> client_step N w w' \<Longrightarrow> client_reachable N s w'"

end
