(* ===== verification/ClientInvariant.thy ===== *)
theory ClientInvariant
  imports ClientSocket
begin

text \<open>
  Invariants of the client. What an invariant looks at is the socket and its bookkeeping; the links
  below it are sound on their own: the client has not halted, that is, nothing panicked and opening
  never ran out of transports to try before it was out of fuel. The one way to halt a client is to
  exhaust the sequence numbers of the cache-busting values.
\<close>

section \<open>Sound links\<close>

definition exhausted :: "'a links_scheme \<Rightarrow> bool" where
  "exhausted w \<longleftrightarrow> 2 ^ 63 - 1 \<le> int (readings w)"

definition sound :: "'a links_scheme \<Rightarrow> bool" where
  "sound w \<longleftrightarrow> exhausted w \<or> (\<not> halted w \<and> yeast_ok (yeast w) \<and> seed (yeast w) \<le> int (readings w))"

text \<open>A failed operation that panicked did so on exhausted links.\<close>

definition blames :: "'b result \<times> 'a links_scheme \<Rightarrow> bool" where
  "blames = (\<lambda>(r, w). sound w \<and> (\<forall>p. r = Inl (Panic p) \<longrightarrow> exhausted w))"

lemma sound_upd_t [simp]: "sound (upd_t tr f w) = sound w"
  by (simp add: sound_def exhausted_def upd_t_def)

lemma more_upd_t [simp]: "links.more (upd_t tr f w) = links.more w"
  by (simp add: upd_t_def)

lemma sound_polls [simp]: "sound (w\<lparr>polls := ps\<rparr>) = sound w" "sound (w\<lparr>readers := ps\<rparr>) = sound w"
  "sound (w\<lparr>requests := rs\<rparr>) = sound w"
  by (simp_all add: sound_def exhausted_def)

lemma sound_halt: "exhausted w \<Longrightarrow> sound (w\<lparr>halted := True\<rparr>)"
  by (simp add: sound_def exhausted_def)

lemma polling_request_blames: "sound w \<Longrightarrow> blames (polling_request N tr data w)"
proof (cases "data = []")
  case True
  assume w: "sound w"
  obtain v g where v: "yeast_next (yeast w) (time_Now N (readings w)) = (v, g)" by fastforce
  let ?w = "w\<lparr>yeast := g, readings := Suc (readings w)\<rparr>"
  have s: "sound ?w \<and> (\<forall>p. v = Inl (Panic p) \<longrightarrow> exhausted ?w)"
  proof (cases "exhausted w \<or> exhausted ?w")
    case False
    with w have i: "yeast_ok (yeast w)" "seed (yeast w) + 1 < 2 ^ 63" "\<not> halted w" "seed (yeast w) \<le> int (readings w)"
      by (auto simp: sound_def exhausted_def)
    from yeast_next_key [OF i(1,2), of "time_Now N (readings w)"] v i show ?thesis
      by (auto simp: sound_def)
  qed (auto simp: sound_def exhausted_def)
  then show ?thesis
    using True v
    by (cases v; auto simp: polling_request_def Let_def blames_def lift_error_def exhausted_def split: sum.splits)
next
  case False
  assume "sound w"
  then show ?thesis
    using False by (auto simp: polling_request_def Let_def blames_def lift_error_def split: sum.splits)
qed

lemma polling_write_blames: "sound w \<Longrightarrow> blames (polling_write N tr data w)"
  using polling_request_blames [of w N tr data]
  by (auto simp: polling_write_def blames_def split: prod.splits sum.splits failure.splits)

lemma websocket_writeAll_no_panic: "fst (websocket_writeAll wr ps t) \<noteq> Inl (Panic p)"
  by (induction wr ps t rule: websocket_writeAll.induct) (auto split: option.splits)

lemma Transport_Send_blames: "sound w \<Longrightarrow> blames (Transport_Send N tr packets w)"
proof -
  assume w: "sound w"
  have "blames (client_polling_Send N tr packets w)"
    using w polling_write_blames [of w] by (simp add: client_polling_Send_def blames_def)
  moreover have "blames (client_websocket_Send N tr packets w)"
    using w websocket_writeAll_no_panic [of "wsc_Write N tr" packets "theap w tr"]
    by (cases "websocket_writeAll (wsc_Write N tr) packets (theap w tr)")
      (auto simp: client_websocket_Send_def blames_def)
  moreover have "blames (client_webtransport_Send N tr packets w)"
    using w by (auto simp: client_webtransport_Send_def client_webtransport_writeFrames_def blames_def Let_def
        split: option.splits)
  ultimately show ?thesis by (simp add: Transport_Send_def)
qed

lemma sound_client [simp]:
  "sound (w\<lparr>sock := s\<rparr>) = sound w" "sound (w\<lparr>nextT := n\<rparr>) = sound w" "sound (w\<lparr>pingDue := n\<rparr>) = sound w"
  "sound (w\<lparr>spawned := l\<rparr>) = sound w" "sound (w\<lparr>probes := m\<rparr>) = sound w" "sound (w\<lparr>events := es\<rparr>) = sound w"
  "sound (w\<lparr>cancelled := cs\<rparr>) = sound w" "sound (w\<lparr>nextCtx := c\<rparr>) = sound w"
  by (simp_all add: sound_def exhausted_def)

lemma sound_sock_upd [simp]: "sound (upd_s f w) = sound w" "sound (cancel c w) = sound w"
  by (simp_all add: upd_s_def cancel_def split: option.split)

text \<open>Closing a transport nobody listens to changes the links only.\<close>

lemma silent_close_more: "links.more (Transport_Close N nobody tr w) = links.more w"
proof -
  have e: "links.more (transport_onError nobody tr' err w') = links.more w'" for tr' err w'
    by (simp add: transport_onError_def notify_def nobody_def split: option.split)
  have c: "links.more (case Transport_Send N tr close_packets w of (Inl (Panic p), w) \<Rightarrow> w\<lparr>halted := True\<rparr>
      | (Inl (Error err), w) \<Rightarrow> transport_onError nobody tr (E err) w | (Inr _, w) \<Rightarrow> w) = links.more w" for E
    using Transport_Send_more [of N tr close_packets w] by (auto simp: e split: prod.split sum.split failure.split)
  have o: "links.more (polling_onClose nobody tr w') = links.more w'"
    "links.more (websocket_onClose N nobody tr w') = links.more w'"
    "links.more (webtransport_onClose N nobody tr w') = links.more w'" for w'
    by (simp_all add: polling_onClose_def websocket_onClose_def webtransport_onClose_def Let_def notify_def
        nobody_def e split: option.split)
  have f: "links.more (case polling_beginClose (theap w' tr) of None \<Rightarrow> w'
      | Some t \<Rightarrow> polling_onClose nobody tr (upd_t tr (\<lambda>_. t) w')) = links.more w'" for w'
    by (simp add: o split: option.split)
  consider "t_type (theap w tr) = TransportTypePolling" | "t_type (theap w tr) = TransportTypeWebSocket"
    | "t_type (theap w tr) \<noteq> TransportTypePolling" "t_type (theap w tr) \<noteq> TransportTypeWebSocket" by blast
  then show ?thesis
    using c [of "\<lambda>err. Errorf ''sending close packet: %w'' [] [err]"]
    by cases (simp_all add: Transport_Close_def Transport_Send_def client_polling_Close_def
        client_websocket_Close_def client_webtransport_Close_def Let_def o f)
qed

section \<open>Laws\<close>

text \<open>A change of the socket that neither opens nor closes it.\<close>

definition calm :: "Socket \<Rightarrow> Socket \<Rightarrow> bool" where
  "calm s s' \<longleftrightarrow>
     s_transports s' = s_transports s \<and> s_runCancel s' = s_runCancel s \<and>
     (s_state s' = SocketStateClosed \<longleftrightarrow> s_state s = SocketStateClosed)"

definition is_EvClose :: "clientEvent \<Rightarrow> bool" where
  "is_EvClose e = (case e of EvClose _ _ \<Rightarrow> True | _ \<Rightarrow> False)"

text \<open>The invariant together with sound links and at most \<open>k\<close> transports left to try.\<close>

definition good :: "(client \<Rightarrow> bool) \<Rightarrow> nat \<Rightarrow> client \<Rightarrow> bool" where
  "good B k w \<longleftrightarrow> sound w \<and> B w \<and> length (s_transports (sock w)) \<le> k"

text \<open>Running a handler keeps a predicate.\<close>

definition preserves :: "(client \<Rightarrow> bool) \<Rightarrow> (transportCallback \<Rightarrow> tref \<Rightarrow> client \<Rightarrow> client) \<Rightarrow> bool" where
  "preserves J invoke \<longleftrightarrow> (\<forall>cb tr w. J w \<longrightarrow> J (invoke cb tr w))"

locale client_links =
  fixes B :: "client \<Rightarrow> bool"
  assumes more: "B w \<Longrightarrow> links.more w' = links.more w \<Longrightarrow> B w'"
begin

text \<open>Changes of the links only.\<close>

lemma sock_more: "links.more w' = links.more w \<Longrightarrow> sock w' = sock w"
  by (cases w; cases w') simp

lemma links: "good B k w \<Longrightarrow> links.more w' = links.more w \<Longrightarrow> sound w' \<Longrightarrow> good B k w'"
  using more [of w w'] sock_more [of w' w] by (simp add: good_def)

lemma upd_t: "good B k w \<Longrightarrow> good B k (upd_t tr f w)"
  by (rule links) (simp_all add: good_def)

lemma goroutines: "good B k w \<Longrightarrow> good B k (w\<lparr>polls := ps\<rparr>)" "good B k w \<Longrightarrow> good B k (w\<lparr>readers := ps\<rparr>)"
  by (rule links; simp add: good_def)+

lemma send:
  assumes "good B k w" "Transport_Send N tr packets w = (r, w')"
  shows "good B k w'" "r = Inl (Panic p) \<Longrightarrow> good B k (w'\<lparr>halted := True\<rparr>)"
proof -
  have b: "blames (r, w')" using Transport_Send_blames [of w N tr packets] assms by (simp add: good_def)
  have m: "links.more w' = links.more w" using Transport_Send_more [of N tr packets w] assms(2) by simp
  show "good B k w'" by (rule links [OF assms(1) m]) (use b in \<open>simp add: blames_def\<close>)
  show "good B k (w'\<lparr>halted := True\<rparr>)" if "r = Inl (Panic p)"
    by (rule links [OF assms(1)]) (use b m that in \<open>simp_all add: blames_def sound_halt\<close>)
qed

text \<open>The calls a transport makes, where running its handlers keeps the invariant.\<close>

lemma notify: "preserves (good B k) invoke \<Longrightarrow> good B k w \<Longrightarrow> good B k (notify invoke cb h tr w)"
  by (simp add: notify_def preserves_def split: option.split)

lemma onOpen: "preserves (good B k) invoke \<Longrightarrow> good B k w \<Longrightarrow> good B k (transport_onOpen invoke tr w)"
  by (simp add: transport_onOpen_def Let_def notify upd_t)

lemma onPacket: "preserves (good B k) invoke \<Longrightarrow> good B k w \<Longrightarrow> good B k (transport_onPacket invoke tr p w)"
  by (simp add: transport_onPacket_def notify)

lemma onError: "preserves (good B k) invoke \<Longrightarrow> good B k w \<Longrightarrow> good B k (transport_onError invoke tr err w)"
  by (simp add: transport_onError_def notify)

lemma transport_onClose:
  assumes "preserves (good B k) invoke" "good B k w"
  shows "good B k (polling_onClose invoke tr w)" "good B k (websocket_onClose N invoke tr w)"
    "good B k (webtransport_onClose N invoke tr w)"
  using assms
  by (simp_all add: polling_onClose_def websocket_onClose_def webtransport_onClose_def Let_def notify onError upd_t
      split: option.split)

lemma Close:
  assumes H: "preserves (good B k) invoke" and w: "good B k w"
  shows "good B k (Transport_Close N invoke tr w)"
proof -
  have c: "good B k (case Transport_Send N tr close_packets w of (Inl (Panic p), w) \<Rightarrow> w\<lparr>halted := True\<rparr>
      | (Inl (Error err), w) \<Rightarrow> transport_onError invoke tr (E err) w | (Inr _, w) \<Rightarrow> w)" for E
    using send [OF w] by (auto simp: onError [OF H] split: prod.split sum.split failure.split)
  have f: "good B k (case polling_beginClose (theap w tr) of None \<Rightarrow> w
      | Some t \<Rightarrow> polling_onClose invoke tr (upd_t tr (\<lambda>_. t) w))" if "good B k w" for w
    using that by (simp add: transport_onClose [OF H] upd_t split: option.split)
  consider "t_type (theap w tr) = TransportTypePolling" | "t_type (theap w tr) = TransportTypeWebSocket"
    | "t_type (theap w tr) \<noteq> TransportTypePolling" "t_type (theap w tr) \<noteq> TransportTypeWebSocket" by blast
  then show ?thesis
  proof cases
    case 1
    then have s: "Transport_Send N tr close_packets w = client_polling_Send N tr close_packets w"
      by (simp add: Transport_Send_def)
    show ?thesis
      using 1 f [OF c, unfolded s] w by (simp add: Transport_Close_def client_polling_Close_def Let_def)
  next
    case 2
    then show ?thesis
      using transport_onClose(2) [OF H c] w
      by (simp add: Transport_Close_def Transport_Send_def client_websocket_Close_def Let_def)
  next
    case 3
    then show ?thesis
      using transport_onClose(3) [OF H c] w
      by (simp add: Transport_Close_def Transport_Send_def client_webtransport_Close_def Let_def)
  qed
qed

lemma dispatch_packets:
  assumes H: "preserves (good B k) invoke"
  shows "good B k w \<Longrightarrow> good B k (polling_dispatch invoke tr ps w)"
proof (induction ps arbitrary: w)
  case (Cons p ps)
  then show ?case
    by (simp add: Let_def onOpen [OF H] onPacket [OF H] transport_onClose [OF H])
qed simp

lemma poll:
  assumes H: "preserves (good B k) invoke" and w: "good B k w"
  shows "good B k (polling_poll N invoke tr w)"
proof -
  obtain r w' where r: "polling_request N tr [] w = (r, w')" by fastforce
  have b: "blames (r, w')" "links.more w' = links.more w"
    using polling_request_blames [of w N tr "[]"] polling_request_more [of N tr "[]" w] w r by (simp_all add: good_def)
  then have w': "good B k w'" by (intro links [OF w]) (simp_all add: blames_def)
  have "good B k (w'\<lparr>halted := True\<rparr>)" if "r = Inl (Panic p)" for p
    by (rule links [OF w]) (use b that in \<open>simp_all add: blames_def sound_halt\<close>)
  moreover have "good B k (polling_onData invoke tr data w')" for data
  proof -
    have "DecodePayload ProtocolVersion4 data \<noteq> Inl (Panic p)" for p
      by (simp add: DecodePayload_def lift_error_def split: sum.splits)
    then show ?thesis
      using dispatch_packets [OF H w'] onError [OF H w']
      by (auto simp: polling_onData_def Let_def goroutines split: sum.split failure.split)
  qed
  ultimately show ?thesis
    using r w w' onError [OF H w']
    by (auto simp: polling_poll_def split: sum.split failure.split)
qed

lemma Open:
  assumes H: "preserves (good B k) invoke" and w: "good B k w"
  shows "good B k (Transport_Open N invoke tr w)"
proof -
  have "good B k (client_polling_Open N invoke tr w)"
    by (simp add: client_polling_Open_def poll [OF H] upd_t w)
  moreover have "good B k (client_websocket_Open N invoke tr w)"
    by (auto simp: client_websocket_Open_def Let_def onError [OF H] onOpen [OF H] goroutines upd_t w split: sum.split)
  moreover have "good B k (client_webtransport_Open N invoke tr w)"
  proof -
    have "good B k w' \<and> (\<forall>p. r \<noteq> Inl (Panic p))"
      if "good B k w" "webtransport_writeOpen N tr sid w = (r, w')" for w w' sid r
      using that by (auto simp: webtransport_writeOpen_def client_webtransport_writeFrames_def Let_def upd_t
          split: sum.splits option.splits if_splits)
    note this [OF upd_t [OF upd_t [OF w]]]
    then show ?thesis
      by (fastforce simp: client_webtransport_Open_def Let_def onError [OF H] onOpen [OF H] goroutines upd_t w
          transport_onClose [OF H] split: sum.split option.split failure.split prod.split)
  qed
  ultimately show ?thesis by (simp add: Transport_Open_def)
qed

lemma read_step:
  assumes H: "preserves (good B k) invoke" and w: "good B k w"
  shows "good B k (snd (client_websocket_readStep N invoke tr input w))"
    "good B k (snd (client_webtransport_readStep N invoke tr w))"
proof -
  show "good B k (snd (client_websocket_readStep N invoke tr input w))"
    by (auto simp: client_websocket_readStep_def onError [OF H] onPacket [OF H] transport_onClose [OF H] w
        split: sum.split prod.split)
  have "never_panics (fst (readWebTransportPacket r webTransportReadLimit))" for r
    by (rule readWebTransportPacket_no_panic) (simp_all add: webTransportReadLimit_def maxAlloc_def)
  then have "readWebTransportPacket r webTransportReadLimit \<noteq> (Inl (Panic p), r')" for r p r'
    by (metis fst_conv never_panics_simps(3))
  then show "good B k (snd (client_webtransport_readStep N invoke tr w))"
    by (auto simp: client_webtransport_readStep_def Let_def onError [OF H] onPacket [OF H] transport_onClose [OF H]
        upd_t w split: sum.split prod.split option.split connection.split failure.split)
qed

lemma pause: "good B k w \<Longrightarrow> good B k (Transport_Pause tr w)"
  by (simp add: Transport_Pause_def client_polling_Pause_def upd_t split: option.split)

lemma silent_close: "good B k w \<Longrightarrow> good B k (Transport_Close N nobody tr (detach tr w))"
  by (rule Close) (simp_all add: preserves_def nobody_def detach_def transport_OnOpen_def transport_OnClose_def
      transport_OnPacket_def transport_OnError_def upd_t)

end

text \<open>The links alone.\<close>

interpretation links_only: client_links "\<lambda>_. True"
  by unfold_locales

lemma silent_close_sound: "sound w \<Longrightarrow> sound (Transport_Close N nobody tr (detach tr w))"
  using links_only.silent_close [of "length (s_transports (sock w))" w N tr] by (simp add: good_def)

lemma detach_more: "links.more (detach tr w) = links.more w"
  by (simp add: detach_def transport_OnOpen_def transport_OnClose_def transport_OnPacket_def transport_OnError_def)

lemma good_mono: "good B j w \<Longrightarrow> j \<le> k \<Longrightarrow> good B k w"
  by (simp add: good_def)

text \<open>The laws of an invariant of the socket.\<close>

locale client_invariant = client_links B for B +
  assumes counters: "B w \<Longrightarrow> B (w\<lparr>nextT := n\<rparr>)" "B w \<Longrightarrow> B (w\<lparr>pingDue := n\<rparr>)" "B w \<Longrightarrow> B (w\<lparr>spawned := l\<rparr>)"
      "B w \<Longrightarrow> B (w\<lparr>probes := m\<rparr>)"
    and event: "B w \<Longrightarrow> \<not> is_EvClose e \<Longrightarrow> B (w\<lparr>events := events w @ [e]\<rparr>)"
    and calm: "B w \<Longrightarrow> calm (sock w) s \<Longrightarrow> B (w\<lparr>sock := s\<rparr>)"
    and teardown: "B w \<Longrightarrow> Socket_beginTeardown (sock w) = Some (tr, runCancel, handler, s) \<Longrightarrow>
      B ((cancel runCancel (w\<lparr>sock := s\<rparr>))\<lparr>events := events w @ (if handler then [EvClose reason cause] else [])\<rparr>)"
    and retry: "B w \<Longrightarrow> Socket_beginRetry (sock w) = (True, tr, context, s) \<Longrightarrow> B (w\<lparr>sock := s\<rparr>)"
    and begin_open: "B w \<Longrightarrow> Socket_beginOpen context w = Some w' \<Longrightarrow> B w'"
    and give_up: "B w \<Longrightarrow> B (w\<lparr>sock := (sock w)\<lparr>s_state := SocketStateClosed\<rparr>\<rparr>)"
    and fresh: "s_state s = SocketStateClosed \<Longrightarrow> s_runCancel s = None \<Longrightarrow> B (newClient s)"
begin

text \<open>The changes of the socket.\<close>

lemma calm_sock: "good B k w \<Longrightarrow> calm (sock w) s \<Longrightarrow> good B k (w\<lparr>sock := s\<rparr>)"
  using calm [of w s] by (simp add: good_def calm_def)

lemma calm_upd_s: "good B k w \<Longrightarrow> calm (sock w) (f (sock w)) \<Longrightarrow> good B k (upd_s f w)"
  by (simp add: upd_s_def calm_sock)

lemma registers:
  "good B k w \<Longrightarrow> good B k (w\<lparr>nextT := n\<rparr>)" "good B k w \<Longrightarrow> good B k (w\<lparr>pingDue := n\<rparr>)"
  "good B k w \<Longrightarrow> good B k (w\<lparr>spawned := l\<rparr>)" "good B k w \<Longrightarrow> good B k (w\<lparr>probes := m\<rparr>)"
  by (simp_all add: good_def counters)

lemma emits: "good B k w \<Longrightarrow> \<not> is_EvClose e \<Longrightarrow> good B k (emit h e w)"
  by (simp add: emit_def good_def event)

lemma errors: "good B k w \<Longrightarrow> good B k (errorHandler err w)"
  by (simp add: errorHandler_def emits is_EvClose_def)

lemma reports: "good B k (snd r) \<Longrightarrow> good B k (reported c r)"
  by (cases r) (simp add: reported_def errors split: option.split)

lemma sendChunks_keeps:
  assumes "good B k w" "sendChunks_loop N tr sent chunks w = ((sent', err), w')"
  shows "good B k w' \<and> (\<forall>p. err = Some (Panic p) \<longrightarrow> good B k (w'\<lparr>halted := True\<rparr>)) \<and>
    sent' \<le> sent + length (concat chunks)"
  using assms
proof (induction chunks arbitrary: sent w)
  case (Cons chunk chunks)
  obtain r w1 where r: "Transport_Send N tr chunk w = (r, w1)" by fastforce
  with Cons.prems send [OF Cons.prems(1) r] Cons.IH [of w1 "sent + length chunk"] show ?case
    by (auto split: sum.splits failure.splits)
qed simp

lemma flushes: "good B k w \<Longrightarrow> good B k (snd (client_flush N w))"
proof -
  assume w: "good B k w"
  have i: "good B k (snd (client_flush_iteration N w))"
  proof (cases "flush_begin (sock w)")
    case (Some x)
    then obtain packets tr limit s where b: "flush_begin (sock w) = Some (packets, tr, limit, s)"
      by (cases x) auto
    then have s: "s_writeBuffer s = packets" "calm (sock w) s"
      by (auto simp: flush_begin_def calm_def split: if_splits)
    obtain sent err w' where c: "sendChunks N tr packets limit (w\<lparr>sock := s\<rparr>) = ((sent, err), w')"
      by (metis prod.collapse)
    then have e: "sock w' = s" using sendChunks_sock [of N tr packets limit "w\<lparr>sock := s\<rparr>"] by simp
    have k: "good B k w'" "\<And>p. err = Some (Panic p) \<Longrightarrow> good B k (w'\<lparr>halted := True\<rparr>)" "sent \<le> length packets"
      using sendChunks_keeps [OF calm_sock [OF w s(2)] c [unfolded sendChunks_def]]
      by (simp_all add: chunkPackets_concat)
    obtain again s' where f: "flush_end sent err s = Inr (again, s')" and s': "calm s s'"
      using k(3) s(1) by (auto simp: flush_end_def calm_def Let_def)
    have "good B k (w'\<lparr>sock := s', halted := True\<rparr>)" if "err = Some (Panic p)" for p
      using calm_sock [OF k(2) [OF that], of s'] s' e by (cases w') simp
    then show ?thesis
      using b c f e calm_sock [OF k(1)] s' by (auto simp: client_flush_iteration_def split: option.split failure.split)
  qed (simp add: client_flush_iteration_def w)
  show ?thesis
    using client_flush_iteration_once [of N w] i
    by (cases "client_flush_iteration N w") (auto simp: client_flush.simps)
qed

lemma Send: "good B k w \<Longrightarrow> good B k (snd (Socket_Send N packets w))"
  by (simp add: Socket_Send_def flushes calm_upd_s calm_def)

lemma onClose: "good B k w \<Longrightarrow> good B k (Socket_onClose N reason cause w)"
proof (cases "Socket_beginTeardown (sock w)")
  case (Some x)
  assume w: "good B k w"
  obtain tr runCancel handler s where x: "Socket_beginTeardown (sock w) = Some (tr, runCancel, handler, s)"
    using Some by (cases x) auto
  define w2 where "w2 = (case tr of None \<Rightarrow> w\<lparr>sock := s\<rparr> | Some tr \<Rightarrow> Transport_Close N nobody tr (detach tr (w\<lparr>sock := s\<rparr>)))"
  let ?w = "(cancel runCancel w2)\<lparr>events := events w @ (if handler then [EvClose reason cause] else [])\<rparr>"
  have m: "links.more w2 = links.more (w\<lparr>sock := s\<rparr>)" and s2: "sound w2"
    using w by (auto simp: w2_def silent_close_more silent_close_sound detach_more good_def split: option.split)
  have "sock w2 = s" "events w2 = events w" "cancelled w2 = cancelled w"
    using m by (cases w2; cases w; simp)+
  then have "Socket_onClose N reason cause w = ?w"
    by (cases w2) (simp add: Socket_onClose_def x Let_def w2_def [symmetric] cancel_def split: option.split)
  moreover have "B ?w"
    by (rule more [OF teardown [OF _ x, of reason cause]])
      (use w m in \<open>cases w2; cases w; simp add: good_def cancel_def split: option.split\<close>)+
  moreover have "s_transports s = s_transports (sock w)"
    using x by (auto simp: Socket_beginTeardown_def split: if_splits)
  ultimately show ?thesis
    using w s2 \<open>sock w2 = s\<close> by (auto simp: good_def cancel_def split: option.split)
qed (simp add: Socket_onClose_def)

lemma onError_retries:
  assumes w: "good B k w" and R: "\<And>context w. 1 < k \<Longrightarrow> good B (k - 1) w \<Longrightarrow> good B (k - 1) (reopen context w)"
  shows "good B k (Socket_onError N reopen err w)"
proof -
  let ?w = "errorHandler (Errorf ''transport error: %w'' [] [err]) w"
  have w': "good B k ?w" by (rule errors [OF w])
  obtain retry tr c s where r: "Socket_beginRetry (sock ?w) = (retry, tr, c, s)"
    by (metis prod.collapse)
  show ?thesis
  proof (cases retry)
    case True
    have k: "1 < k" "good B (k - 1) (?w\<lparr>sock := s\<rparr>)"
      using w' r retry [of ?w] True by (auto simp: good_def Socket_beginRetry_def Let_def split: if_splits)
    have "good B (k - 1) (reopen c (case tr of None \<Rightarrow> ?w\<lparr>sock := s\<rparr>
        | Some tr \<Rightarrow> Transport_Close N nobody tr (detach tr (?w\<lparr>sock := s\<rparr>))))"
      by (rule R [OF k(1)]) (use k(2) in \<open>simp add: silent_close split: option.split\<close>)
    with r True show ?thesis by (auto simp: Socket_onError_def Let_def intro: good_mono split: option.split)
  next
    case False
    have "calm (sock ?w) s" using r False by (auto simp: Socket_beginRetry_def calm_def Let_def)
    with r False w' show ?thesis by (simp add: Socket_onError_def Let_def onClose calm_sock)
  qed
qed

lemma reschedules: "good B k w \<Longrightarrow> good B k (reschedulePingTimeout w)"
  by (simp add: reschedulePingTimeout_def Let_def calm_upd_s calm_def)

lemma registrations:
  assumes "good B k w"
  shows "good B k (transport_OnOpen h tr w)" "good B k (transport_OnClose h tr w)"
    "good B k (transport_OnPacket h tr w)" "good B k (transport_OnError h tr w)" "good B k (SetURL u tr w)"
  using assms by (simp_all add: transport_OnOpen_def transport_OnClose_def transport_OnPacket_def
      transport_OnError_def SetURL_def upd_t)

lemma opened: "good B k w \<Longrightarrow> s_state (sock w) \<noteq> SocketStateClosed \<Longrightarrow> good B k (Socket_opened N p w)"
  by (auto simp: Socket_opened_def Let_def reschedules registrations reports flushes emits is_EvClose_def
      errors registers calm_upd_s calm_def recordOpen_def split: option.split sum.split)

lemma receives: "good B k w \<Longrightarrow> good B k (Socket_onPacket N p w)"
proof -
  assume w: "good B k w"
  let ?w = "reschedulePingTimeout w"
  have "s_state (sock ?w) = s_state (sock w)" by (simp add: reschedulePingTimeout_def Let_def upd_s_def)
  then show ?thesis
    using w opened [OF reschedules [OF w]] reschedules [OF w]
    by (auto simp: Socket_onPacket_def Let_def reports Send emits errors is_EvClose_def split: sum.split)
qed

lemma discards: "good B k w \<Longrightarrow> good B k (discardProbe N tr reason w)"
  by (simp add: discardProbe_def signal_def silent_close registers split: option.split)

lemma adopts: "good B k w \<Longrightarrow> good B k (adopt N tr w)"
  by (auto simp: adopt_def Let_def discards signal_def registrations calm_upd_s calm_def emits is_EvClose_def
      reports flushes registers split: option.split)

lemma probe_opens: "good B k w \<Longrightarrow> good B k (probe_onOpen N tr w)"
  using send [of k w N tr "[probe_packet]"]
  by (auto simp: probe_onOpen_def Let_def registrations errors split: prod.split sum.split failure.split)

lemma probe_receives: "good B k w \<Longrightarrow> good B k (probe_onPacket N tr p w)"
proof -
  assume w: "good B k w"
  let ?w = "upd_s (\<lambda>s. s\<lparr>s_upgrading := True\<rparr>) w"
  have u: "good B k ?w" by (simp add: calm_upd_s calm_def w)
  then have d: "good B k (detachLifecycle old ?w)" for old
    by (simp add: detachLifecycle_def registrations split: option.split)
  obtain r w' where r: "Transport_Send N tr [text_packet PacketUpgrade []] (detachLifecycle (s_transport (sock ?w)) ?w) = (r, w')"
    by fastforce
  note w' = send [OF d r]
  have "good B k (restoreLifecycle old w)" if "good B k w" for old w
    using that by (simp add: restoreLifecycle_def registrations split: option.split)
  with w w' r show ?thesis
    by (auto simp: probe_onPacket_def Let_def discards adopts pause reports flushes calm_upd_s calm_def
        split: sum.split failure.split option.split)
qed

lemma dispatches:
  assumes "\<And>context w. 1 < k \<Longrightarrow> good B (k - 1) w \<Longrightarrow> good B (k - 1) (reopen context w)"
  shows "preserves (good B k) (dispatch N reopen)"
  using onError_retries [OF _ assms]
  by (simp add: preserves_def dispatch_def probe_opens receives probe_receives onClose probe_onClose_def
      probe_onError_def discards split: transportCallback.split handler.split)

lemma opens: "good B k w \<Longrightarrow> k < n \<Longrightarrow> good B k (Socket_Open N n c w)"
proof (induction n arbitrary: k c w)
  case (Suc n)
  have H: "preserves (good B k) (dispatch N (Socket_Open N n))"
    by (rule dispatches) (use Suc in simp)
  show ?case
  proof (cases "Socket_beginOpen c w")
    case (Some w1)
    then have "s_transports (sock w1) = s_transports (sock w)" "sound w1 = sound w"
      by (auto simp: Socket_beginOpen_def Let_def upd_s_def cancel_def split: if_splits option.splits)
    then have w1: "good B k w1" using Suc.prems begin_open [OF _ Some] by (simp add: good_def)
    then have "good B k (bind t w1)" for t
      by (simp add: bind_def Let_def registrations upd_t registers calm_upd_s calm_def)
    moreover have "good B k (upd_s (\<lambda>s. s\<lparr>s_state := SocketStateClosed\<rparr>) w1)"
      using w1 give_up [of w1] by (simp add: good_def upd_s_def)
    ultimately show ?thesis
      using Some by (simp add: errors Open [OF H] split: sum.split)
  qed (use Suc in simp)
qed simp

lemma handles: "k \<le> length (s_transports (sock w)) \<Longrightarrow> preserves (good B k) (handlers N w)"
  unfolding handlers_def by (rule dispatches) (rule opens; simp)

text \<open>The steps.\<close>

abbreviation holds :: "client \<Rightarrow> bool" where
  "holds w \<equiv> sound w \<and> B w"

lemma holds_good: "holds w \<Longrightarrow> good B (length (s_transports (sock w))) w" "good B k w \<Longrightarrow> holds w"
  by (simp_all add: good_def)

lemma application_opens: "holds w \<Longrightarrow> holds (Open N c w)"
  unfolding Open_def by (rule holds_good(2) [OF opens [OF holds_good(1)]]) simp_all

lemma application_closes: "holds w \<Longrightarrow> holds (Socket_Close N w)"
proof (rule holds_good(2))
  assume w: "holds w"
  let ?k = "length (s_transports (sock w))"
  define w1 where "w1 = (if snd (Socket_beginClose (sock w))
    then reported ''flushing on close: %w'' (client_flush N w) else w)"
  have w1: "good B ?k w1" using holds_good(1) [OF w] by (simp add: w1_def reports flushes)
  have "good B ?k (case beginCloseTransport (sock w1) of None \<Rightarrow> w1 | Some (tr, s) \<Rightarrow>
      (case tr of None \<Rightarrow> w1\<lparr>sock := s\<rparr> | Some tr \<Rightarrow> Transport_Close N (handlers N (w1\<lparr>sock := s\<rparr>)) tr (w1\<lparr>sock := s\<rparr>)))"
  proof (cases "beginCloseTransport (sock w1)")
    case (Some x)
    obtain tr s where x: "x = (tr, s)" by (cases x)
    then have "calm (sock w1) s" using Some by (auto simp: beginCloseTransport_def calm_def split: if_splits)
    then have s: "good B ?k (w1\<lparr>sock := s\<rparr>)" by (rule calm_sock [OF w1])
    then have j: "good B (length (s_transports s)) (w1\<lparr>sock := s\<rparr>)" "length (s_transports s) \<le> ?k"
      by (simp_all add: good_def)
    have "good B ?k (Transport_Close N (handlers N (w1\<lparr>sock := s\<rparr>)) tr' (w1\<lparr>sock := s\<rparr>))" for tr'
      by (rule good_mono [OF Close [OF handles j(1)] j(2)]) simp
    with s Some x show ?thesis by (simp split: option.split)
  qed (simp add: w1)
  then show "good B ?k (Socket_Close N w)"
    using holds_good(1) [OF w] unfolding Socket_Close_def w1_def
    by (cases "Socket_beginClose (sock w)"; cases "fst (Socket_beginClose (sock w))")
      (auto simp: Let_def split: option.splits)
qed

lemma probe_starts:
  assumes w: "holds w"
  shows "holds (snd (startProbing N ty rest transports' w))"
proof -
  let ?k = "length (s_transports (sock w))"
  let ?w = "beginProbe w"
  have p: "good B ?k ?w" using holds_good(1) [OF w] by (simp add: beginProbe_def calm_upd_s calm_def)
  define w1 where "w1 t = (let tr = nextT ?w;
     w = (upd_t tr (\<lambda>_. t) ?w)\<lparr>nextT := Suc tr, probes := (probes ?w)(tr \<mapsto>
       \<lparr>p_rest = rest, p_transports = transports', p_outcome = None\<rparr>)\<rparr>
    in transport_OnError (Some OfProbe) tr (transport_OnClose (Some OfProbe) tr
      (transport_OnPacket (Some OfProbe) tr (transport_OnOpen (Some OfProbe) tr w))))" for t
  have w1: "good B ?k (w1 t)" for t by (simp add: w1_def Let_def registrations registers upd_t p)
  have "holds (Transport_Open N (handlers N (w1 t)) (nextT ?w) (w1 t))" for t
    by (rule holds_good(2) [OF Open [OF handles holds_good(1)]]) (use holds_good(2) [OF w1] in simp_all)
  moreover have "startProbing N ty rest transports' w =
      (case resolveURL N (sock ?w) ty of
         Inl err \<Rightarrow> (Some (Errorf ''resolving URL: %w'' [] [err]), ?w)
       | Inr target \<Rightarrow>
           (case constructorFor (sock ?w) ty of
              Inl err \<Rightarrow> (Some err, ?w)
            | Inr c \<Rightarrow>
                (case c (Some target) (s_header (sock ?w)) of
                   Inl err \<Rightarrow> (Some (Errorf ''creating transport: %w'' [] [err]), ?w)
                 | Inr t \<Rightarrow> (None, Transport_Open N (handlers N (w1 t)) (nextT ?w) (w1 t)))))"
    by (simp add: startProbing_def w1_def Let_def cong: sum.case_cong)
  ultimately show ?thesis using holds_good(2) [OF p] by (simp split: sum.split)
qed

lemma probe_fails: "holds w \<Longrightarrow> holds (probeFailed err w)"
  using holds_good(2) [OF emits [OF holds_good(1)], of w] holds_good(2) [OF errors [OF holds_good(1)], of w]
  by (simp add: probeFailed_def Let_def is_EvClose_def)

lemma probes_upgrades: "holds w \<Longrightarrow> holds (probeUpgrades N upgrades transports' w)"
proof (induction upgrades arbitrary: w)
  case (Cons candidate rest)
  then show ?case
    using probe_starts [of w N candidate rest transports'] Cons.IH [OF probe_fails]
    by (cases "startProbing N candidate rest transports' w") (auto split: option.split)
qed simp

lemma probe_resumes: "holds w \<Longrightarrow> holds (resumeProbe N tr w)"
  using counters(4) probes_upgrades [OF probe_fails]
  by (auto simp: resumeProbe_def Let_def split: option.split)

lemma timer_fires: "holds w \<Longrightarrow> holds (pingTimeoutFires w)"
  using holds_good(2) [OF registers(2) [OF calm_upd_s [OF holds_good(1)]], of w]
  by (simp add: pingTimeoutFires_def calm_def)

lemma timer_runs: "holds w \<Longrightarrow> holds (pingTimeoutRuns N w)"
  using holds_good(2) [OF onClose [OF registers(2) [OF holds_good(1)]], of w]
  by (simp add: pingTimeoutRuns_def)

lemma poll_runs: "holds w \<Longrightarrow> holds (runPoll N tr w)"
  using holds_good(2) [OF poll [OF handles goroutines(1) [OF holds_good(1)]], of w]
  by (simp add: runPoll_def)

lemma read_runs:
  assumes w: "holds w"
  shows "holds (runRead N tr input w)"
proof -
  have "holds (snd (client_websocket_readStep N (handlers N w) tr input w))"
    by (rule holds_good(2) [OF read_step(1) [OF handles holds_good(1) [OF w]]]) simp
  moreover have "holds (snd (client_webtransport_readStep N (handlers N w) tr w))"
    by (rule holds_good(2) [OF read_step(2) [OF handles holds_good(1) [OF w]]]) simp
  ultimately show ?thesis
    using w holds_good(2) [OF goroutines(2) [OF holds_good(1)]]
    by (auto simp: runRead_def split: prod.split bool.split)
qed

lemma spawned_runs: "holds w \<Longrightarrow> holds (runSpawned N w)"
  using counters(3) probes_upgrades by (auto simp: runSpawned_def split: list.split)

lemma steps: "client_step N w w' \<Longrightarrow> holds w \<Longrightarrow> holds w'"
proof (induction rule: client_step.induct)
  case (send w packets)
  then show ?case by (rule holds_good(2) [OF Send [OF holds_good(1)]])
qed (simp_all add: application_opens application_closes probe_resumes timer_fires timer_runs poll_runs read_runs
  spawned_runs Socket_OnOpen_def Socket_OnClose_def Socket_OnPacket_def Socket_OnMessage_def Socket_OnError_def
  Socket_OnUpgrade_def Socket_OnUpgradeError_def upd_s_def calm calm_def)

lemma reachable:
  assumes "client_reachable N s w" "s_state s = SocketStateClosed" "s_runCancel s = None"
  shows "holds w"
  using assms
proof (induction rule: client_reachable.induct)
  case init
  moreover have "sound (newClient s)" by (simp add: sound_def newClient_def defaultYeast_def yeast_ok_def)
  ultimately show ?case using fresh by blast
next
  case (step w w')
  then show ?case using steps by blast
qed

end

section \<open>The invariants\<close>

text \<open>Every close that was announced belongs to an earlier opening, and so does the open socket.\<close>

definition closings_match :: "client \<Rightarrow> bool" where
  "closings_match w \<longleftrightarrow>
     length (filter is_EvClose (events w)) + (if s_state (sock w) = SocketStateClosed then 0 else 1) \<le> nextCtx w"

text \<open>
  Every opening makes a context that bounds its goroutines: all but the last are cancelled, each once.
\<close>

definition contexts_ok :: "ctx list \<Rightarrow> nat \<Rightarrow> ctx option \<Rightarrow> bool" where
  "contexts_ok cs n r \<longleftrightarrow> distinct cs \<and> set cs = {..<n} - set_option r \<and> set_option r \<subseteq> {..<n}"

lemma contexts_ok_cancel: "contexts_ok cs n (Some c) \<Longrightarrow> contexts_ok (c # cs) n None"
  by (simp add: contexts_ok_def insert_absorb)

lemma contexts_ok_fresh: "contexts_ok cs n None \<Longrightarrow> contexts_ok cs (Suc n) (Some n)"
  by (simp add: contexts_ok_def lessThan_Suc)

definition contexts_match :: "client \<Rightarrow> bool" where
  "contexts_match w \<longleftrightarrow>
     contexts_ok (cancelled w) (nextCtx w) (s_runCancel (sock w)) \<and>
     (s_runCancel (sock w) = None \<longrightarrow> s_state (sock w) = SocketStateClosed)"

interpretation closings: client_invariant closings_match
proof unfold_locales
  show "closings_match w'" if "closings_match w" "links.more w' = links.more w" for w w'
    using that by (cases w; cases w') (simp add: closings_match_def)
  show "closings_match ((cancel runCancel (w\<lparr>sock := s\<rparr>))
      \<lparr>events := events w @ (if handler then [EvClose reason cause] else [])\<rparr>)"
    if "closings_match w" "Socket_beginTeardown (sock w) = Some (tr, runCancel, handler, s)"
    for w tr runCancel handler s reason cause
    using that by (auto simp: closings_match_def Socket_beginTeardown_def cancel_def is_EvClose_def
        split: if_splits option.splits)
  show "closings_match w'" if "closings_match w" "Socket_beginOpen c w = Some w'" for w w' c
    using that by (auto simp: closings_match_def Socket_beginOpen_def Let_def upd_s_def cancel_def
        split: if_splits option.splits)
qed (simp_all add: closings_match_def calm_def Socket_beginRetry_def newClient_def Let_def split: if_splits)

interpretation run_contexts: client_invariant contexts_match
proof unfold_locales
  show "contexts_match w'" if "contexts_match w" "links.more w' = links.more w" for w w'
    using that by (cases w; cases w') (simp add: contexts_match_def)
  show "contexts_match ((cancel runCancel (w\<lparr>sock := s\<rparr>))
      \<lparr>events := events w @ (if handler then [EvClose reason cause] else [])\<rparr>)"
    if "contexts_match w" "Socket_beginTeardown (sock w) = Some (tr, runCancel, handler, s)"
    for w tr runCancel handler s reason cause
    using that by (auto simp: contexts_match_def Socket_beginTeardown_def cancel_def contexts_ok_cancel
        split: if_splits option.splits)
  show "contexts_match w'" if "contexts_match w" "Socket_beginOpen c w = Some w'" for w w' c
    using that
    by (auto simp: contexts_match_def Socket_beginOpen_def Let_def upd_s_def cancel_def contexts_ok_fresh
        contexts_ok_cancel split: if_splits option.splits)
qed (auto simp: contexts_match_def calm_def Socket_beginRetry_def newClient_def contexts_ok_def [of "[]"] Let_def
    split: if_splits)

lemma NewSocket_closed:
  "NewSocket parse registry serverURL opts = Inr s \<Longrightarrow> s_state s = SocketStateClosed \<and> s_runCancel s = None"
  by (auto simp: NewSocket_def Let_def split: sum.splits)

section \<open>A run\<close>

text \<open>A network where everything fails, and a socket on it that only knows WebSocket.\<close>

definition local_url :: URL where
  "local_url = \<lparr>Scheme = ''http'', Rest = ''://localhost/engine.io/'', Query = ''''\<rparr>"

definition unplugged :: clientNet where
  "unplugged =
     (let e = NewError ''no route to host''
      in \<lparr>url_Parse = (\<lambda>_. Inr local_url), time_Now = (\<lambda>_. 0), http_Do = (\<lambda>_ _. Inl e),
          ws_Dial = (\<lambda>_ _ _. Inl (e, None)), wsc_Write = (\<lambda>_ _ _. Some e), ws_CloseNow = (\<lambda>_. None),
          wt_Dial = (\<lambda>_ _ _. Some e), wt_OpenStreamSync = (\<lambda>_. Inl e), wtc_SetWriteDeadline = (\<lambda>_ _. None),
          wtc_Write = (\<lambda>_ _ _. Some e), wt_CloseWithError = (\<lambda>_. None)\<rparr>)"

definition lone_socket :: "error + Socket" where
  "lone_socket = NewSocket (url_Parse unplugged) Transports ''http://localhost/engine.io/''
     [WithTransports [TransportTypeWebSocket]]"

definition failed_run :: client where
  "failed_run = Open unplugged 0 (Socket_OnClose True (newClient (projr lone_socket)))"

lemma lone_socket_eq: "lone_socket = Inr (projr lone_socket)"
  by (simp add: lone_socket_def NewSocket_def unplugged_def Let_def)

lemma failed_run_reachable: "client_reachable unplugged (projr lone_socket) failed_run"
  unfolding failed_run_def
  by (rule client_reachable.step [OF client_reachable.step [OF client_reachable.init client_step.onClose]
      client_step.opens])

lemma failed_run_values:
  "readings failed_run = 0 \<and> nextCtx failed_run = 1 \<and> cancelled failed_run = [0] \<and>
   events failed_run = [EvClose ''transport error'' (Some (dialError (NewError ''no route to host'') None))] \<and>
   s_state (sock failed_run) = SocketStateClosed \<and> s_runCancel (sock failed_run) = None"
  by (simp add: failed_run_def Open_def lone_socket_def NewSocket_def unplugged_def Let_def WithTransports_def
      Socket_OnClose_def upd_s_def newClient_def Socket_beginOpen_def cancel_def createTransport_def
      Socket_selectTransport_def resolveURL_def local_url_def constructorFor_def Transports_def
      NewWebSocketTransport_def newTransport_def defaultSocketConfig_def bind_def Transport_Open_def
      client_websocket_Open_def upd_t_def transport_OnError_def transport_OnClose_def transport_OnPacket_def
      transport_onError_def notify_def dispatch_def Socket_onError_def Socket_beginRetry_def errorHandler_def
      emit_def Socket_onClose_def Socket_beginTeardown_def detach_def transport_OnOpen_def Transport_Close_def
      client_websocket_Close_def)

section \<open>What the client guarantees\<close>





text \<open>
  C23: the contexts that bound the requests and the goroutines of a connection do not leak: every opening
  makes one, each is cancelled at most once, and all but the one of the current connection have been
  cancelled. A connection that is up or closing has its context.
\<close>

theorem client_contexts_cancelled:
  assumes "NewSocket parse registry serverURL opts = Inr s" and "client_reachable N s w"
  shows "distinct (cancelled w) \<and> set (cancelled w) = {..<nextCtx w} - set_option (s_runCancel (sock w)) \<and>
    (s_state (sock w) \<noteq> SocketStateClosed \<longrightarrow> s_runCancel (sock w) \<noteq> None)"
proof -
  have "contexts_match w" using run_contexts.reachable [OF assms(2)] NewSocket_closed [OF assms(1)] by simp
  then show ?thesis unfolding contexts_match_def contexts_ok_def by satx
qed

theorem client_contexts_cancelled_witness:
  "cancelled failed_run = [0] \<and> set (cancelled failed_run) = {..<nextCtx failed_run} - set_option (s_runCancel (sock failed_run))"
  using client_contexts_cancelled
    [OF lone_socket_eq [unfolded lone_socket_def] failed_run_reachable [unfolded lone_socket_def]]
  by (simp add: failed_run_values)

end
