(* ===== verification/FlushInterleaving.thy ===== *)
theory FlushInterleaving
  imports ServerSocket ClientSocket
begin

text \<open>
  The write buffers of the two ends under concurrency. A flush copies the buffer under the lock, hands
  the copy to the transport with the lock released, and takes the lock again to drop what was handed
  over; in between, other goroutines append to the buffer, switch the transport or tear the connection
  down. A run here is any interleaving of these sections. At most one flush is in flight at a time: the
  server holds \<^verbatim>\<open>flushMu\<close>, the client sets \<^verbatim>\<open>flushing\<close>. The specification is a queue: what was handed
  over is a prefix of what was accepted.
\<close>

section \<open>The specification: a queue\<close>

text \<open>The packets accepted so far, and those handed over.\<close>

inductive queue :: "Packet list \<Rightarrow> Packet list \<Rightarrow> bool" where
  empty: "queue [] []"
| enqueue: "queue accepted handed \<Longrightarrow> queue (accepted @ ps) handed"
| deliver: "queue (handed @ ps @ rest) handed \<Longrightarrow> queue (handed @ ps @ rest) (handed @ ps)"

lemma queue_prefix: "queue accepted handed \<Longrightarrow> \<exists>waiting. accepted = handed @ waiting"
  by (induction rule: queue.induct) auto

section \<open>Sections of a flush and of its environment\<close>

text \<open>
  A flush in flight has handed over \<open>n\<close> packets and has the listed chunks left. \<open>crashed\<close> records a
  panic.
\<close>

datatype phase = Idle | Flying nat "Packet list list"

record 's flight =
  endpoint :: 's
  phase :: phase
  accepted :: "Packet list"
  handed :: "Packet list"
  crashed :: bool

text \<open>
  The parameters are the sections of an endpoint: appending to the buffer, the first and the last
  section of a flush, where the last one is told whether the transport refused a chunk and may panic, and
  the sections of everything else.
\<close>

inductive section_step ::
  "(Packet list \<Rightarrow> 's \<Rightarrow> 's \<Rightarrow> bool) \<Rightarrow> ('s \<Rightarrow> (Packet list list \<times> 's) option) \<Rightarrow>
   (nat \<Rightarrow> bool \<Rightarrow> 's \<Rightarrow> 's option) \<Rightarrow> ('s \<Rightarrow> 's \<Rightarrow> bool) \<Rightarrow> 's flight \<Rightarrow> 's flight \<Rightarrow> bool"
  for appends begins finishes others where
  append: "appends ps (endpoint x) s \<Longrightarrow>
    section_step appends begins finishes others x (x\<lparr>endpoint := s, accepted := accepted x @ ps\<rparr>)"
| snapshot: "phase x = Idle \<Longrightarrow> begins (endpoint x) = Some (chunks, s) \<Longrightarrow>
    section_step appends begins finishes others x (x\<lparr>endpoint := s, phase := Flying 0 chunks\<rparr>)"
| hand: "phase x = Flying n (chunk # chunks) \<Longrightarrow>
    section_step appends begins finishes others x
      (x\<lparr>phase := Flying (n + length chunk) chunks, handed := handed x @ chunk\<rparr>)"
| finish: "phase x = Flying n chunks \<Longrightarrow> finishes n (chunks \<noteq> []) (endpoint x) = Some s \<Longrightarrow>
    section_step appends begins finishes others x (x\<lparr>endpoint := s, phase := Idle\<rparr>)"
| panic: "phase x = Flying n chunks \<Longrightarrow> finishes n (chunks \<noteq> []) (endpoint x) = None \<Longrightarrow>
    section_step appends begins finishes others x (x\<lparr>crashed := True\<rparr>)"
| other: "others (endpoint x) s \<Longrightarrow>
    section_step appends begins finishes others x (x\<lparr>endpoint := s\<rparr>)"

text \<open>A run starts with packets waiting in the buffer.\<close>

inductive section_run ::
  "(Packet list \<Rightarrow> 's \<Rightarrow> 's \<Rightarrow> bool) \<Rightarrow> ('s \<Rightarrow> (Packet list list \<times> 's) option) \<Rightarrow>
   (nat \<Rightarrow> bool \<Rightarrow> 's \<Rightarrow> 's option) \<Rightarrow> ('s \<Rightarrow> 's \<Rightarrow> bool) \<Rightarrow> 's \<Rightarrow> Packet list \<Rightarrow> 's flight \<Rightarrow> bool"
  for appends begins finishes others s waiting where
  start: "section_run appends begins finishes others s waiting
    \<lparr>endpoint = s, phase = Idle, accepted = waiting, handed = [], crashed = False\<rparr>"
| step: "section_run appends begins finishes others s waiting x \<Longrightarrow> section_step appends begins finishes others x x' \<Longrightarrow>
    section_run appends begins finishes others s waiting x'"

text \<open>What was handed over is in order, where \<open>buf\<close> is the buffer and \<open>up\<close> says that the connection is up.\<close>

definition in_order :: "('s \<Rightarrow> Packet list) \<Rightarrow> ('s \<Rightarrow> bool) \<Rightarrow> 's flight \<Rightarrow> bool" where
  "in_order buf up x \<longleftrightarrow>
     queue (accepted x) (handed x) \<and> \<not> crashed x \<and>
     (case phase x of
        Idle \<Rightarrow> up (endpoint x) \<longrightarrow> accepted x = handed x @ buf (endpoint x)
      | Flying n chunks \<Rightarrow>
          (\<exists>rest. accepted x = handed x @ concat chunks @ rest) \<and>
          (up (endpoint x) \<longrightarrow> n \<le> length (buf (endpoint x)) \<and> accepted x = handed x @ drop n (buf (endpoint x))))"

text \<open>
  What the sections promise. Once the connection is down it stays down.
\<close>

locale write_queue =
  fixes appends :: "Packet list \<Rightarrow> 's \<Rightarrow> 's \<Rightarrow> bool"
    and begins :: "'s \<Rightarrow> (Packet list list \<times> 's) option"
    and finishes :: "nat \<Rightarrow> bool \<Rightarrow> 's \<Rightarrow> 's option"
    and others :: "'s \<Rightarrow> 's \<Rightarrow> bool"
    and buf :: "'s \<Rightarrow> Packet list"
    and up :: "'s \<Rightarrow> bool"
  assumes appends: "appends ps s s' \<Longrightarrow> up s \<and> up s' \<and> buf s' = buf s @ ps"
    and begins: "begins s = Some (chunks, s') \<Longrightarrow> up s \<and> up s' \<and> buf s' = buf s \<and> concat chunks = buf s"
    and finishes: "finishes n failed s = Some s' \<Longrightarrow>
      up s' = up s \<and> (up s \<longrightarrow> n \<le> length (buf s) \<longrightarrow> buf s' = drop n (buf s))"
    and no_panic: "(up s \<Longrightarrow> n \<le> length (buf s)) \<Longrightarrow> finishes n failed s \<noteq> None"
    and others: "others s s' \<Longrightarrow> up s' \<Longrightarrow> up s \<and> buf s' = buf s"
begin

lemma steps: "section_step appends begins finishes others x x' \<Longrightarrow> in_order buf up x \<Longrightarrow> in_order buf up x'"
proof (induction rule: section_step.induct)
  case (append ps x s)
  then show ?case
    using appends [OF append(1)] by (auto simp: in_order_def queue.enqueue split: phase.splits)
next
  case (snapshot x chunks s)
  then show ?case using begins [OF snapshot(2)] by (auto simp: in_order_def)
next
  case (hand x n chunk chunks)
  then obtain rest where r: "accepted x = handed x @ chunk @ concat chunks @ rest" and q: "queue (accepted x) (handed x)"
    by (auto simp: in_order_def)
  have "queue (accepted x) (handed x @ chunk)"
    using queue.deliver [of "handed x" chunk "concat chunks @ rest"] q r by simp
  moreover have "n + length chunk \<le> length (buf (endpoint x)) \<and>
      accepted x = (handed x @ chunk) @ drop (n + length chunk) (buf (endpoint x))" if "up (endpoint x)"
  proof -
    have d: "drop n (buf (endpoint x)) = chunk @ concat chunks @ rest" "n \<le> length (buf (endpoint x))"
      using hand that r by (auto simp: in_order_def)
    have "drop (n + length chunk) (buf (endpoint x)) = drop (length chunk) (drop n (buf (endpoint x)))"
      by (simp add: add.commute)
    moreover have "length chunk \<le> length (buf (endpoint x)) - n" using arg_cong [OF d(1), of length] by simp
    ultimately show ?thesis using d r by simp
  qed
  ultimately show ?case using hand r by (auto simp: in_order_def)
next
  case (finish x n chunks s)
  then show ?case using finishes [OF finish(2)] by (auto simp: in_order_def)
next
  case (panic x n chunks)
  then show ?case using no_panic [of "endpoint x" n "chunks \<noteq> []"] by (auto simp: in_order_def)
next
  case (other x s)
  then show ?case using others [OF other(1)] by (auto simp: in_order_def split: phase.splits)
qed

lemma run: "section_run appends begins finishes others s waiting x \<Longrightarrow> buf s = waiting \<Longrightarrow> in_order buf up x"
proof (induction rule: section_run.induct)
  case start
  then show ?case using queue.enqueue [OF queue.empty, of waiting] by (simp add: in_order_def)
next
  case (step x x')
  then show ?case using steps by blast
qed

lemma run_queue:
  assumes "section_run appends begins finishes others s waiting x" "buf s = waiting"
  shows "queue (accepted x) (handed x) \<and> \<not> crashed x \<and>
    (phase x = Idle \<and> up (endpoint x) \<longrightarrow> accepted x = handed x @ buf (endpoint x))"
  using run [OF assms] by (auto simp: in_order_def)

end

section \<open>The session of a server\<close>

text \<open>The sections that append: \<^verbatim>\<open>Send\<close>, \<^verbatim>\<open>sendPing\<close> and \<^verbatim>\<open>Close\<close>.\<close>

inductive session_append :: "Packet list \<Rightarrow> ServerSocket \<Rightarrow> ServerSocket \<Rightarrow> bool" where
  send: "state sk \<noteq> sessionClosed \<Longrightarrow> state sk \<noteq> sessionClosing \<Longrightarrow>
    p = \<lparr>Type = PacketMessage, Data = data, IsBinary = isBinary\<rparr> \<Longrightarrow>
    session_append [p] sk (sk\<lparr>writeBuffer := writeBuffer sk @ [p]\<rparr>)"
| ping: "state sk = sessionOpen \<Longrightarrow> p = text_packet PacketPing [] \<Longrightarrow>
    session_append [p] sk (sk\<lparr>writeBuffer := writeBuffer sk @ [p], pongTimer := Some Armed\<rparr>)"
| close: "beginClose sk = Some sk' \<Longrightarrow> session_append [text_packet PacketClose []] sk sk'"

text \<open>The server hands over the whole buffer at once.\<close>

definition session_begin :: "ServerSocket \<Rightarrow> (Packet list list \<times> ServerSocket) option" where
  "session_begin sk = (case flush_snapshot sk of None \<Rightarrow> None | Some (packets, tr) \<Rightarrow> Some ([packets], sk))"

text \<open>When the transport refused the packets none was handed over, and dropping none keeps the buffer.\<close>

definition session_finish :: "nat \<Rightarrow> bool \<Rightarrow> ServerSocket \<Rightarrow> ServerSocket option" where
  "session_finish n refused sk = Some (flush_drop n sk)"

text \<open>
  Tearing the session down, and every section that leaves the buffer alone and does not reopen the
  session: opening it, the timers, and all sections of an upgrade, which switch the transport.
\<close>

inductive session_other :: "ServerSocket \<Rightarrow> ServerSocket \<Rightarrow> bool" where
  teardown: "beginTeardown sk = Some (tr, upgrade, stop, handler, sk') \<Longrightarrow> session_other sk sk'"
| complete: "beginCompleteUpgrade sk tr = Some (old, stop, sk') \<Longrightarrow> session_other sk sk'"
| abort: "beginAbortUpgrade sk tr = Some (stop, sk') \<Longrightarrow> session_other sk sk'"
| quiet: "writeBuffer sk' = writeBuffer sk \<Longrightarrow> state sk \<noteq> sessionClosed \<or> state sk' = sessionClosed \<Longrightarrow>
    session_other sk sk'"

definition session_up :: "ServerSocket \<Rightarrow> bool" where
  "session_up sk \<longleftrightarrow> state sk \<noteq> sessionClosed"

interpretation session_queue: write_queue session_append session_begin session_finish session_other writeBuffer session_up
proof unfold_locales
  show "session_up s \<and> session_up s' \<and> writeBuffer s' = writeBuffer s @ ps" if "session_append ps s s'" for ps s s'
    using that by cases (auto simp: session_up_def beginClose_def stopTimersLocked_def Let_def split: if_splits)
  show "session_up s \<and> writeBuffer s' = writeBuffer s" if "session_other s s'" "session_up s'" for s s'
    using that by cases (auto simp: session_up_def beginTeardown_def beginCompleteUpgrade_def beginAbortUpgrade_def
        stopTimersLocked_def split: if_splits)
qed (auto simp: session_up_def session_begin_def session_finish_def flush_snapshot_def flush_drop_def
    split: option.splits if_splits)

section \<open>The socket of a client\<close>

inductive client_append :: "Packet list \<Rightarrow> Socket \<Rightarrow> Socket \<Rightarrow> bool" where
  send: "s_state s = SocketStateOpen \<Longrightarrow> client_append ps s (s\<lparr>s_writeBuffer := s_writeBuffer s @ ps\<rparr>)"

text \<open>The client hands over one chunk after the other.\<close>

definition client_begin :: "Socket \<Rightarrow> (Packet list list \<times> Socket) option" where
  "client_begin s =
     (case flush_begin s of
        None \<Rightarrow> None
      | Some (packets, tr, limit, s') \<Rightarrow> Some (chunkPackets packets limit, s'))"

definition client_finish :: "nat \<Rightarrow> bool \<Rightarrow> Socket \<Rightarrow> Socket option" where
  "client_finish n refused s =
     (case flush_end n (if refused then Some (Error (NewError ''write'')) else None) s of
        Inl _ \<Rightarrow> None
      | Inr (again, s') \<Rightarrow> Some s')"

text \<open>
  Closing, tearing down, and every section that leaves the buffer alone and does not reopen the socket,
  such as switching the transport.
\<close>

inductive client_other :: "Socket \<Rightarrow> Socket \<Rightarrow> bool" where
  close: "beginCloseTransport s = Some (tr, s') \<Longrightarrow> client_other s s'"
| teardown: "Socket_beginTeardown s = Some (tr, runCancel, handler, s') \<Longrightarrow> client_other s s'"
| quiet: "s_writeBuffer s' = s_writeBuffer s \<Longrightarrow> s_state s = SocketStateOpen \<or> s_state s' \<noteq> SocketStateOpen \<Longrightarrow>
    client_other s s'"

definition client_up :: "Socket \<Rightarrow> bool" where
  "client_up s \<longleftrightarrow> s_state s = SocketStateOpen"

interpretation client_queue: write_queue client_append client_begin client_finish client_other s_writeBuffer client_up
proof unfold_locales
  show "client_up s \<and> client_up s' \<and> s_writeBuffer s' = s_writeBuffer s @ ps" if "client_append ps s s'" for ps s s'
    using that by cases (simp add: client_up_def)
  show "client_up s \<and> s_writeBuffer s' = s_writeBuffer s" if "client_other s s'" "client_up s'" for s s'
    using that by cases (auto simp: client_up_def beginCloseTransport_def Socket_beginTeardown_def split: if_splits)
qed (auto simp: client_up_def client_begin_def client_finish_def flush_begin_def flush_end_def chunkPackets_concat
    Let_def split: option.splits if_splits)

section \<open>Runs\<close>

definition hello :: Packet where
  "hello = \<lparr>Type = PacketMessage, Data = bytes_of ''hello'', IsBinary = False\<rparr>"

definition again :: Packet where
  "again = \<lparr>Type = PacketMessage, Data = bytes_of ''again'', IsBinary = False\<rparr>"

text \<open>A flush hands over \<open>hello\<close> while \<open>again\<close> is sent.\<close>

definition overlapped :: "'s \<Rightarrow> 's flight" where
  "overlapped s = \<lparr>endpoint = s, phase = Idle, accepted = [hello, again], handed = [hello], crashed = False\<rparr>"

lemma overlapped_run:
  assumes b: "begins s = Some ([[hello]], s1)" and a: "appends [again] s1 s2" and f: "finishes 1 False s2 = Some s3"
  shows "section_run appends begins finishes others s [hello] (overlapped s3)"
proof -
  let ?x = "\<lambda>s ph. \<lparr>endpoint = s, phase = ph, accepted = [hello], handed = [], crashed = False\<rparr>"
  have "section_run appends begins finishes others s [hello] (?x s Idle)"
    by (rule section_run.start)
  then have "section_run appends begins finishes others s [hello] (?x s1 (Flying 0 [[hello]]))"
    using section_step.snapshot [of "?x s Idle" begins "[[hello]]" s1] b by (fastforce intro: section_run.step)
  then have "section_run appends begins finishes others s [hello]
      ((?x s2 (Flying 0 [[hello]]))\<lparr>accepted := [hello, again]\<rparr>)"
    using section_step.append [of appends "[again]" "?x s1 (Flying 0 [[hello]])" s2] a by (fastforce intro: section_run.step)
  then have "section_run appends begins finishes others s [hello]
      ((?x s2 (Flying 1 []))\<lparr>accepted := [hello, again], handed := [hello]\<rparr>)"
    using section_step.hand [of "(?x s2 (Flying 0 [[hello]]))\<lparr>accepted := [hello, again]\<rparr>" 0 "[hello]" "[]"]
    by (fastforce intro: section_run.step)
  then show ?thesis
    using section_step.finish [of "(?x s2 (Flying 1 []))\<lparr>accepted := [hello, again], handed := [hello]\<rparr>" 1 "[]" finishes s3] f
    by (fastforce simp: overlapped_def intro: section_run.step)
qed

section \<open>What the write buffers guarantee\<close>

text \<open>
  C3: a session's write buffer refines a queue. In every interleaving of a flush with sends, heartbeats,
  a graceful close, an upgrade that switches the transport and a teardown, what was handed to the
  transports is what the queue delivers: a prefix of what was accepted, in order and without loss or
  duplication; and between flushes of a live session the buffer holds exactly the rest.
\<close>

theorem server_flush_refines_queue:
  assumes "section_run session_append session_begin session_finish session_other sk (writeBuffer sk) x"
  shows "queue (accepted x) (handed x) \<and>
    (phase x = Idle \<and> state (endpoint x) \<noteq> sessionClosed \<longrightarrow> accepted x = handed x @ writeBuffer (endpoint x))"
  using session_queue.run_queue [OF assms] by (auto simp: session_up_def)

definition busy_session :: ServerSocket where
  "busy_session = (newServerSocket ''s1'' (defaultServerConfig) 0)\<lparr>state := sessionOpen, writeBuffer := [hello]\<rparr>"

theorem server_flush_refines_queue_witness:
  "section_run session_append session_begin session_finish session_other busy_session [hello]
     (overlapped (busy_session\<lparr>writeBuffer := [again]\<rparr>)) \<and> queue [hello, again] [hello]"
proof -
  have r: "section_run session_append session_begin session_finish session_other busy_session [hello]
     (overlapped (busy_session\<lparr>writeBuffer := [again]\<rparr>))"
  proof (rule overlapped_run)
    show "session_begin busy_session = Some ([[hello]], busy_session)"
      by (simp add: session_begin_def flush_snapshot_def busy_session_def newServerSocket_def)
    show "session_append [again] busy_session (busy_session\<lparr>writeBuffer := [hello, again]\<rparr>)"
      using session_append.send [of busy_session again "bytes_of ''again''" False]
      by (simp add: again_def busy_session_def)
    show "session_finish 1 False (busy_session\<lparr>writeBuffer := [hello, again]\<rparr>) = Some (busy_session\<lparr>writeBuffer := [again]\<rparr>)"
      by (simp add: session_finish_def flush_drop_def)
  qed
  moreover have "writeBuffer busy_session = [hello]" by (simp add: busy_session_def)
  ultimately show ?thesis using server_flush_refines_queue [of busy_session] by (fastforce simp: overlapped_def)
qed

text \<open>
  C7: a client's write buffer refines a queue as long as the socket is not reopened. In every
  interleaving of a flush, which hands over one chunk after the other and may fail between two, with
  sends, a switch of the transport, a close and a teardown, the chunks the transport took are a prefix
  of what was accepted, the buffer of an open socket holds exactly the rest between flushes, and
  removing what was written never goes past the end of the buffer.
\<close>

theorem client_flush_refines_queue:
  assumes "section_run client_append client_begin client_finish client_other s (s_writeBuffer s) x"
  shows "queue (accepted x) (handed x) \<and> \<not> crashed x \<and>
    (phase x = Idle \<and> s_state (endpoint x) = SocketStateOpen \<longrightarrow> accepted x = handed x @ s_writeBuffer (endpoint x))"
  using client_queue.run_queue [OF assms] by (auto simp: client_up_def)

definition fresh_socket :: Socket where
  "fresh_socket = projr (NewSocket (\<lambda>u. Inr \<lparr>Scheme = ''http'', Rest = u, Query = ''''\<rparr>) Transports ''://localhost/'' [])"

definition busy_socket :: Socket where
  "busy_socket = fresh_socket\<lparr>s_state := SocketStateOpen, s_transport := Some 0, s_writeBuffer := [hello]\<rparr>"

lemma busy_socket_flush:
  "flush_begin busy_socket = Some ([hello], 0, 0, busy_socket\<lparr>s_flushing := True\<rparr>)"
  by (simp add: flush_begin_def busy_socket_def fresh_socket_def NewSocket_def Let_def)

lemma busy_socket_flushing: "s_flushing busy_socket = False"
  by (simp add: busy_socket_def fresh_socket_def NewSocket_def Let_def)

theorem client_flush_refines_queue_witness:
  "section_run client_append client_begin client_finish client_other busy_socket [hello]
     (overlapped (busy_socket\<lparr>s_writeBuffer := [again]\<rparr>)) \<and> queue [hello, again] [hello]"
proof -
  have r: "section_run client_append client_begin client_finish client_other busy_socket [hello]
     (overlapped (busy_socket\<lparr>s_writeBuffer := [again]\<rparr>))"
  proof (rule overlapped_run)
    show "client_begin busy_socket = Some ([[hello]], busy_socket\<lparr>s_flushing := True\<rparr>)"
      by (simp add: client_begin_def busy_socket_flush chunkPackets_def)
    show "client_append [again] (busy_socket\<lparr>s_flushing := True\<rparr>)
        (busy_socket\<lparr>s_flushing := True, s_writeBuffer := [hello, again]\<rparr>)"
      using client_append.send [of "busy_socket\<lparr>s_flushing := True\<rparr>" "[again]"] by (simp add: busy_socket_def)
    show "client_finish 1 False (busy_socket\<lparr>s_flushing := True, s_writeBuffer := [hello, again]\<rparr>) =
        Some (busy_socket\<lparr>s_writeBuffer := [again]\<rparr>)"
      using busy_socket_flushing by (simp add: client_finish_def flush_end_def busy_socket_def)
  qed
  moreover have "s_writeBuffer busy_socket = [hello]" by (simp add: busy_socket_def)
  ultimately show ?thesis using client_flush_refines_queue [of busy_socket] by (fastforce simp: overlapped_def)
qed

text \<open>
  C25: reopening breaks this. When a flush is in flight while the socket is torn down, opened again and
  acknowledged by the server, the flush finds the socket open and the buffer empty, and removing the
  packets it wrote over the old transport is a slice out of range: the client panics.
\<close>

theorem flush_across_reopen_panics:
  assumes "flush_begin s = Some (packets, tr, limit, s1)" and "0 < sent"
    and "Socket_beginTeardown s1 = Some (tr', runCancel, handler, s2)"
    and "Socket_beginOpen c (w\<lparr>sock := s2\<rparr>) = Some w'"
  shows "flush_end sent err (recordOpen typ p (sock w')) = Inl (Panic SliceBoundsOutOfRange)"
  using assms by (auto simp: flush_end_def recordOpen_def Socket_beginOpen_def upd_s_def cancel_def Let_def
      split: if_splits option.splits)

theorem flush_across_reopen_panics_witness:
  "\<exists>tr runCancel handler s w. Socket_beginTeardown (busy_socket\<lparr>s_flushing := True\<rparr>) = Some (tr, runCancel, handler, s) \<and>
     Socket_beginOpen 1 (newClient s) = Some w \<and>
     flush_end 1 None (recordOpen (\<lambda>_. TransportTypePolling)
       \<lparr>SessionID = ''s2'', Upgrades = [], PingInterval = 25000, PingTimeout = 20000, MaxPayload = 0\<rparr> (sock w)) =
       Inl (Panic SliceBoundsOutOfRange)"
proof -
  obtain tr runCancel handler s where t: "Socket_beginTeardown (busy_socket\<lparr>s_flushing := True\<rparr>) = Some (tr, runCancel, handler, s)"
    by (simp add: Socket_beginTeardown_def busy_socket_def)
  then have "s_state s = SocketStateClosed" by (auto simp: Socket_beginTeardown_def split: if_splits)
  then obtain w where w: "Socket_beginOpen 1 ((newClient s)\<lparr>sock := s\<rparr>) = Some w"
    by (simp add: Socket_beginOpen_def Let_def)
  then have "Socket_beginOpen 1 (newClient s) = Some w" by (simp add: newClient_def)
  with t flush_across_reopen_panics [OF busy_socket_flush _ t w] show ?thesis by auto
qed

end
