(* ===== verification/Chunking.thy ===== *)
theory Chunking
  imports ClientSocket
begin

text \<open>
  Splitting a write buffer into payloads for long polling (\<^verbatim>\<open>chunkPackets\<close> of \<^verbatim>\<open>socket.go\<close>): the
  payloads respect the maximum the server announced, and there are as few of them as possible.
\<close>

section \<open>Every chunk fits\<close>

definition fits :: "int \<Rightarrow> Packet list \<Rightarrow> bool" where
  "fits limit ps \<longleftrightarrow> ps \<noteq> [] \<and> (int (length (EncodePayload ps)) \<le> limit \<or> length ps = 1)"

lemma length_EncodePayload_snoc:
  "int (length (EncodePayload (ps @ [p]))) =
     int (length (EncodePayload ps)) + (if ps = [] then 0 else 1) + int (length (EncodePacket p))"
  by (cases ps) (simp_all add: EncodePayload_eq join_on_concat)

lemma chunk_loop_fits:
  assumes "\<And>c. c \<in> set chunks \<Longrightarrow> fits limit c" "current = [] \<Longrightarrow> sz = 0 \<and> packets \<noteq> []"
    "current \<noteq> [] \<Longrightarrow> sz = int (length (EncodePayload current)) \<and> fits limit current"
    "c \<in> set (chunk_loop limit chunks current sz packets)"
  shows "fits limit c"
  using assms
proof (induction packets arbitrary: chunks current sz)
  case (Cons p packets)
  let ?n = "int (length (EncodePacket p))"
  have one: "int (length (EncodePayload [p])) = ?n" "fits limit [p]" by (simp_all add: EncodePayload_eq fits_def)
  consider "current = []" | "current \<noteq> []" "limit < sz + (?n + 1)" | "current \<noteq> []" "\<not> limit < sz + (?n + 1)"
    by blast
  then show ?case
  proof cases
    case 1
    show ?thesis
      by (rule Cons.IH [of chunks "[p]" ?n]) (use 1 Cons.prems one in \<open>simp_all add: Let_def\<close>)
  next
    case 2
    show ?thesis
      by (rule Cons.IH [of "chunks @ [current]" "[p]" ?n]) (use 2 Cons.prems one in \<open>auto simp: Let_def\<close>)
  next
    case 3
    have "sz + (?n + 1) = int (length (EncodePayload (current @ [p])))"
      using 3 Cons.prems(3) by (simp add: length_EncodePayload_snoc)
    then show ?thesis
      by (intro Cons.IH [of chunks "current @ [p]" "sz + (?n + 1)"]) (use 3 Cons.prems in \<open>simp_all add: fits_def Let_def\<close>)
  qed
qed (auto split: if_splits)

lemma chunkPackets_fits:
  "0 < limit \<Longrightarrow> packets \<noteq> [] \<Longrightarrow> c \<in> set (chunkPackets packets limit) \<Longrightarrow> fits limit c"
  using chunk_loop_fits [of "[]" limit "[]" 0 packets c]
  by (auto simp: chunkPackets_def fits_def le_Suc_eq split: if_splits)

section \<open>No split has fewer chunks\<close>

lemma EncodePayload_shorter: "ps \<noteq> [] \<Longrightarrow> length (EncodePayload ps) \<le> length (EncodePayload (xs @ ps @ ys))"
  using length_EncodePayload [of ps] length_EncodePayload [of "xs @ ps @ ys"] by (cases ps) auto

lemma concat_at:
  "concat css = us @ a # vs \<Longrightarrow>
     \<exists>as c1 c2 bs. css = as @ (c1 @ a # c2) # bs \<and> us = concat as @ c1 \<and> vs = c2 @ concat bs"
proof (induction css arbitrary: us)
  case (Cons c css)
  then consider zs where "c = us @ zs" "zs @ concat css = a # vs" | zs where "us = c @ zs" "concat css = zs @ a # vs"
    by (auto simp: append_eq_append_conv2)
  then show ?case
  proof cases
    case (1 zs)
    show ?thesis
    proof (cases zs)
      case Nil
      with 1 Cons.IH [of "[]"] obtain as c1 c2 bs
        where "css = as @ (c1 @ a # c2) # bs" "[] = concat as @ c1" "vs = c2 @ concat bs" by auto
      with 1 Nil show ?thesis by (intro exI [of _ "c # as"] exI [of _ c1] exI [of _ c2] exI [of _ bs]) auto
    next
      case (Cons b c2)
      with 1 show ?thesis by (intro exI [of _ "[]"] exI [of _ us] exI [of _ c2] exI [of _ css]) auto
    qed
  next
    case (2 zs)
    with Cons.IH [of zs] obtain as c1 c2 bs
      where "css = as @ (c1 @ a # c2) # bs" "zs = concat as @ c1" "vs = c2 @ concat bs" by auto
    with 2 show ?thesis by (intro exI [of _ "c # as"] exI [of _ c1] exI [of _ c2] exI [of _ bs]) auto
  qed
qed simp

text \<open>
  The loop is ahead of every split: when its current chunk begins no earlier than what the split still
  has to cover, it finishes with no more chunks. If the next packet overflows the current chunk, a
  chunk of the split that covers the first packet of the current one ends before that packet too.
\<close>

lemma split_behind:
  assumes "concat css = xs @ current @ p # packets" "current \<noteq> []" "list_all (fits limit) css"
    and over: "limit < int (length (EncodePayload (current @ [p])))"
  obtains bs zs where "concat bs = zs @ p # packets" "length bs < length css" "list_all (fits limit) bs"
proof -
  obtain a current' where cur: "current = a # current'" using assms(2) by (cases current) auto
  obtain as c1 c2 bs where css: "css = as @ (c1 @ a # c2) # bs" and vs: "current' @ p # packets = c2 @ concat bs"
    using concat_at [of css xs a "current' @ p # packets"] assms(1) cur by auto
  from vs consider zs where "current' = c2 @ zs" "concat bs = zs @ p # packets"
    | zs where "c2 = current' @ p # zs"
    by (auto simp: append_eq_append_conv2 Cons_eq_append_conv)
  then show thesis
  proof cases
    case (1 zs)
    then show thesis using that [of bs zs] css assms(3) by simp
  next
    case (2 zs)
    then have "c1 @ a # c2 = c1 @ (current @ [p]) @ zs" using cur by simp
    then have "length (EncodePayload (current @ [p])) \<le> length (EncodePayload (c1 @ a # c2))"
      using EncodePayload_shorter [of "current @ [p]" c1 zs] by simp
    with over css assms(3) 2 have False by (auto simp: fits_def)
    then show thesis ..
  qed
qed

lemma chunk_loop_chunks:
  "chunk_loop limit chunks current sz packets = chunks @ chunk_loop limit [] current sz packets"
proof (induction packets arbitrary: chunks current sz)
  case (Cons p packets)
  show ?case
    using Cons.IH [of "chunks @ [current]" "[p]"] Cons.IH [of "[current]" "[p]"] Cons.IH [of chunks]
    by (simp add: Let_def)
qed simp

lemma chunk_loop_least:
  assumes "concat css = xs @ current @ packets" "current \<noteq> []" "list_all (fits limit) css"
    and "sz = int (length (EncodePayload current))"
  shows "length (chunk_loop limit [] current sz packets) \<le> length css"
  using assms
proof (induction packets arbitrary: css xs current sz)
  case Nil
  then show ?case by (cases css) auto
next
  case (Cons p packets)
  let ?n = "int (length (EncodePacket p))"
  have next_size: "sz + (?n + 1) = int (length (EncodePayload (current @ [p])))"
    using Cons.prems by (simp add: length_EncodePayload_snoc)
  show ?case
  proof (cases "limit < sz + (?n + 1)")
    case True
    obtain bs zs where bs: "concat bs = zs @ p # packets" "length bs < length css" "list_all (fits limit) bs"
      using split_behind [OF Cons.prems(1-3)] True next_size by auto
    have "length (chunk_loop limit [] [p] ?n packets) \<le> length bs"
      by (rule Cons.IH [of bs zs]) (use bs in \<open>simp_all add: EncodePayload_eq\<close>)
    with bs(2) True Cons.prems(2) show ?thesis
      using chunk_loop_chunks [of limit "[current]" "[p]" ?n packets] by simp
  next
    case False
    then show ?thesis
      using Cons.IH [of css xs "current @ [p]" "sz + (?n + 1)"] Cons.prems next_size by simp
  qed
qed

lemma chunkPackets_least:
  assumes "packets \<noteq> []" "0 < limit" "concat css = packets" "list_all (fits limit) css"
  shows "length (chunkPackets packets limit) \<le> length css"
proof -
  obtain p ps where packets: "packets = p # ps" using assms(1) by (cases packets) auto
  have "css \<noteq> []" using assms(1,3) by auto
  moreover have "length (chunk_loop limit [] [p] (int (length (EncodePacket p))) ps) \<le> length css"
    by (rule chunk_loop_least [of css "[]"]) (use assms packets in \<open>simp_all add: EncodePayload_eq\<close>)
  ultimately show ?thesis by (auto simp: chunkPackets_def packets Let_def Suc_le_eq)
qed

section \<open>The split\<close>

text \<open>
  C37: Splitting a non-empty write buffer for a negotiated maximum neither drops, repeats nor reorders a
  packet; every payload is within the maximum, except for one that holds a single packet which is itself
  too large; and no other way to split the buffer in order into such payloads needs fewer of them. An
  unlimited maximum makes one payload.
\<close>

theorem chunkPackets_optimal:
  assumes "packets \<noteq> []"
  shows "concat (chunkPackets packets limit) = packets \<and>
    (limit \<le> 0 \<longrightarrow> chunkPackets packets limit = [packets]) \<and>
    (0 < limit \<longrightarrow> list_all (fits limit) (chunkPackets packets limit) \<and>
       (\<forall>css. concat css = packets \<and> list_all (fits limit) css \<longrightarrow>
          length (chunkPackets packets limit) \<le> length css))"
  using chunkPackets_fits [of limit packets] chunkPackets_least [OF assms, of limit] assms
  by (auto simp: chunkPackets_concat list_all_iff) (simp add: chunkPackets_def)

definition letters :: "Packet list" where
  "letters = map (\<lambda>d. text_packet PacketMessage (bytes_of d)) [''ab'', ''cd'', ''efghij'', ''k'']"

lemma letters_chunks:
  "chunkPackets letters 7 = [take 2 letters, [letters ! 2], drop 3 letters]"
  by code_simp

theorem chunkPackets_optimal_witness:
  "chunkPackets letters 7 = [take 2 letters, [letters ! 2], drop 3 letters] \<and> fits 7 (take 2 letters) \<and>
   length (chunkPackets letters 7) \<le> length [[letters ! 0], [letters ! 1], [letters ! 2], [letters ! 3]]"
proof -
  have "letters \<noteq> []" by (simp add: letters_def)
  note split = chunkPackets_optimal [OF this, of 7]
  have "concat [[letters ! 0], [letters ! 1], [letters ! 2], [letters ! 3]] = letters"
    by (simp add: letters_def)
  moreover have "list_all (fits 7) [[letters ! 0], [letters ! 1], [letters ! 2], [letters ! 3]]"
    by (simp add: fits_def)
  ultimately show ?thesis using split by (simp add: letters_chunks)
qed

end
