(* ===== verification/EndToEnd.thy ===== *)
theory EndToEnd
  imports ServerRequests ClientInvariant Chunking
begin

text \<open>
  The client and the server together. What a client writes, over each of the transports, is given to
  the server's handlers, and what arrives at the application is compared with what was sent. Between
  the two are only the parts of HTTP, WebSocket and WebTransport that carry requests, frames and bytes
  unchanged.
\<close>

section \<open>Queries\<close>

lemma map_of_filter: "map_of xs k = (case filter (\<lambda>x. fst x = k) xs of [] \<Rightarrow> None | x # _ \<Rightarrow> Some (snd x))"
  by (induction xs) auto

lemma map_of_sort_key: "map_of (sort_key fst xs) k = map_of xs k"
  by (simp add: map_of_filter sort_key_stable)

lemma map_of_values_Set: "map_of (values_Set k v q) k' = (if k' = k then Some v else map_of q k')"
proof -
  have "map_of (filter (\<lambda>(k', _). k' \<noteq> k) q) k' = (if k' = k then None else map_of q k')"
    by (induction q) auto
  then show ?thesis by (simp add: values_Set_def map_add_def split: option.split)
qed

lemma encodeQuery_snoc:
  "vs \<noteq> [] \<Longrightarrow> encodeQuery (vs @ [kv]) = encodeQuery vs @ CHR ''&'' # encodePair kv"
  by (cases vs) (simp_all add: encodeQuery_def join_on_concat)

lemma parseQuery_stamp:
  assumes "vs \<noteq> []"
  shows "parseQuery (encodeQuery vs @ ''&t='' @ QueryEscape v) = vs @ [(''t'', v)]"
proof -
  have "QueryEscape ''t'' = ''t''" by code_simp
  then have "encodeQuery vs @ ''&t='' @ QueryEscape v = encodeQuery (vs @ [(''t'', v)])"
    using assms by (simp add: encodeQuery_snoc encodePair_def)
  then show ?thesis by (simp add: parseQuery_encodeQuery)
qed

text \<open>The query of a request as the server's HTTP library sees it: what follows the first question mark.\<close>

definition raw_query :: "string \<Rightarrow> string" where
  "raw_query url = tl (dropWhile (\<lambda>c. c \<noteq> CHR ''?'') url)"

definition plain_url :: "URL \<Rightarrow> bool" where
  "plain_url u \<longleftrightarrow> CHR ''?'' \<notin> set (Scheme u) \<and> CHR ''?'' \<notin> set (Rest u)"

lemma dropWhile_until: "c \<notin> set xs \<Longrightarrow> dropWhile (\<lambda>x. x \<noteq> c) (xs @ c # ys) = c # ys"
  by (induction xs) auto

lemma raw_query_url: "plain_url u \<Longrightarrow> Query u \<noteq> '''' \<Longrightarrow> raw_query (url_String u @ s) = Query u @ s"
  using dropWhile_until [of "CHR ''?''" "Scheme u @ Rest u" "Query u @ s"]
  by (simp add: raw_query_def url_String_def plain_url_def)

text \<open>The suffix of a POST is empty, that of a poll carries the cache-busting value.\<close>

definition stamped :: "string option \<Rightarrow> string" where
  "stamped t = (case t of None \<Rightarrow> '''' | Some v \<Rightarrow> ''&t='' @ QueryEscape v)"

lemma parse_resolved:
  fixes t :: "string option"
  assumes "resolveURL N s ty = Inr target" "plain_url target"
  defines "q \<equiv> parseQuery (raw_query (url_String target @ stamped t))"
  shows "values_Get q ''EIO'' = ''4'' \<and> values_Get q ''transport'' = ty \<and>
    (s_sessionID s \<noteq> '''' \<longrightarrow> values_Get q ''sid'' = s_sessionID s)"
proof -
  obtain vs where v: "Query target = values_Encode vs"
    and g: "map_of vs ''EIO'' = Some ''4''" "map_of vs ''transport'' = Some ty"
      "s_sessionID s \<noteq> '''' \<Longrightarrow> map_of vs ''sid'' = Some (s_sessionID s)"
    using assms(1) by (auto simp: resolveURL_def Let_def map_of_values_Set split: sum.splits if_splits)
  let ?vs = "sort_key fst vs"
  have get: "values_Get (?vs @ kvs) k = x" if "map_of vs k = Some x" for k kvs x
    using that by (simp add: values_Get_def map_of_sort_key map_add_def split: option.splits)
  have "vs \<noteq> []" using g(1) by auto
  then have ne: "?vs \<noteq> []" by (metis length_0_conv length_sort)
  then have "Query target \<noteq> ''''"
    by (cases ?vs) (auto simp: v values_Encode_def encodeQuery_def join_on_concat encodePair_def)
  then have "q = ?vs @ (case t of None \<Rightarrow> [] | Some v \<Rightarrow> [(''t'', v)])"
    using ne raw_query_url [OF assms(2)]
    by (simp add: q_def v values_Encode_def stamped_def parseQuery_stamp [simplified] parseQuery_encodeQuery split: option.split)
  then show ?thesis using g get by simp
qed

section \<open>Long polling\<close>

text \<open>A client's request as the server sees it, and the server's answer as the client sees it.\<close>

definition to_server :: "httpRequest \<Rightarrow> Request" where
  "to_server req =
     \<lparr>Method = req_method req, Proto = ''HTTP/1.1'', RawQuery = raw_query (req_url req),
      ReqHeader = req_header req, Body = \<lparr>pending = req_body req, final = EOF\<rparr>\<rparr>"

definition to_client :: "ResponseWriter \<Rightarrow> httpResponse" where
  "to_client resp =
     \<lparr>StatusCode = (case resp_status resp of None \<Rightarrow> 200 | Some code \<Rightarrow> code),
      res_Body = \<lparr>pending = resp_body resp, final = EOF\<rparr>\<rparr>"

definition serve :: "platform \<Rightarrow> network \<Rightarrow> Server \<Rightarrow> bytes \<Rightarrow> httpRequest \<Rightarrow> world \<Rightarrow> outcome \<times> world" where
  "serve P NS S rnd req w = ServeHTTP P NS S rnd (newResponse None) (to_server req) w"

definition serve_all ::
  "platform \<Rightarrow> network \<Rightarrow> Server \<Rightarrow> bytes \<Rightarrow> httpRequest list \<Rightarrow> world \<Rightarrow> world" where
  "serve_all P NS S rnd reqs w = fold (\<lambda>req w. snd (serve P NS S rnd req w)) reqs w"

text \<open>
  A client is connected to a server: when the server, which is in the world \<open>w\<close> when the client has
  made the requests \<open>past\<close>, answers a request at once, that is the answer the client gets.
\<close>

definition connected_to ::
  "clientNet \<Rightarrow> httpRequest list \<Rightarrow> platform \<Rightarrow> network \<Rightarrow> Server \<Rightarrow> bytes \<Rightarrow> world \<Rightarrow> bool" where
  "connected_to N past P NS S rnd w \<longleftrightarrow>
     (\<forall>reqs req resp. fst (serve P NS S rnd req (serve_all P NS S rnd reqs w)) = Responded resp \<longrightarrow>
        http_Do N (past @ reqs) req = Inr (to_client resp))"

text \<open>The post of a payload.\<close>

definition post_of :: "Transport \<Rightarrow> bytes \<Rightarrow> httpRequest" where
  "post_of t body =
     \<lparr>req_method = ''POST'', req_url = url_String (t_url t),
      req_header = header_Set (t_header t) ''Content-Type'' ''text/plain; charset=UTF-8'', req_body = body\<rparr>"

text \<open>A message that survives the payload format and is within the limit of one payload.\<close>

definition sendable :: "int \<Rightarrow> Packet \<Rightarrow> bool" where
  "sendable limit p \<longleftrightarrow> payload_safe p \<and> Type p = PacketMessage \<and> int (length (EncodePacket p)) \<le> limit"

text \<open>A session of the server that a client's polling transport is attached to.\<close>

definition attached :: "clientNet \<Rightarrow> client \<Rightarrow> tref \<Rightarrow> Server \<Rightarrow> sref \<Rightarrow> world \<Rightarrow> bool" where
  "attached N c tr S s w \<longleftrightarrow>
     s_transport (sock c) = Some tr \<and> t_type (theap c tr) = TransportTypePolling \<and>
     t_state (theap c tr) = TransportStateOpen \<and>
     resolveURL N (sock c) TransportTypePolling = Inr (t_url (theap c tr)) \<and> plain_url (t_url (theap c tr)) \<and>
     (\<exists>u. url_Parse N (url_String (t_url (theap c tr))) = Inr u) \<and>
     s_sessionID (sock c) \<noteq> '''' \<and> Socket_by_id (s_sessionID (sock c)) w = Some s \<and>
     s_maxPayload (sock c) = maxPayload (srv_options S) \<and>
     0 < maxPayload (srv_options S) \<and> maxPayload (srv_options S) < 2 ^ 63 - 1 \<and>
     allowsTransport (srv_options S) TransportTypePolling"

lemma EncodePayload_nonempty: "ps \<noteq> [] \<Longrightarrow> EncodePayload ps \<noteq> []"
  by (cases ps) (simp_all add: EncodePayload_eq join_on_concat)

lemma post_served:
  assumes a: "attached N c tr S s w" and h: "onMessageHandler (sockets w s)"
    and ps: "ps \<noteq> []" "\<And>p. p \<in> set ps \<Longrightarrow> payload_safe p \<and> Type p = PacketMessage"
    and len: "int (length (EncodePayload ps)) \<le> maxPayload (srv_options S)"
  obtains resp where "serve P NS S rnd (post_of (theap c tr) (EncodePayload ps)) w =
      (Responded resp, w\<lparr>trace := trace w @ map (posted s) ps\<rparr>)" "resp_status resp = Some 200"
proof -
  let ?r = "to_server (post_of (theap c tr) (EncodePayload ps))"
  have q: "values_Get (parseQuery (RawQuery ?r)) ''EIO'' = ''4''"
    "values_Get (parseQuery (RawQuery ?r)) ''transport'' = TransportTypePolling"
    "values_Get (parseQuery (RawQuery ?r)) ''sid'' = s_sessionID (sock c)"
    using a parse_resolved [of N "sock c" TransportTypePolling "t_url (theap c tr)" None]
    by (simp_all add: attached_def to_server_def post_of_def stamped_def)
  have "\<exists>resp. ServeHTTP P NS S rnd (newResponse None) ?r w =
      (Responded resp, w\<lparr>trace := trace w @ map (posted s) ps\<rparr>) \<and>
    resp_status resp = Some 200 \<and> resp_body resp = bytes_of ''ok''"
    by (rule post_delivers [where sid = "s_sessionID (sock c)", OF ps len])
      (use a h q in \<open>simp_all add: attached_def to_server_def post_of_def header_Get_def header_Set_def HasPrefix_def\<close>)
  then show ?thesis using that by (auto simp: serve_def)
qed

lemma attached_keeps:
  "attached N (c\<lparr>requests := rs\<rparr>) tr S s (w\<lparr>trace := l\<rparr>) = attached N c tr S s w"
  by (simp add: attached_def Socket_by_id_def)

lemma serve_all_append: "serve_all P NS S rnd (a @ b) w = serve_all P NS S rnd b (serve_all P NS S rnd a w)"
  by (simp add: serve_all_def)

text \<open>Handing over the chunks: one acknowledged post each.\<close>

lemma chunks_arrive:
  assumes a: "attached N c tr S s w" and h: "onMessageHandler (sockets w s)"
    and n: "connected_to N (requests c) P NS S rnd w"
    and "\<And>ps. ps \<in> set chunks \<Longrightarrow> ps \<noteq> [] \<and> (\<forall>p \<in> set ps. payload_safe p \<and> Type p = PacketMessage) \<and>
      int (length (EncodePayload ps)) \<le> maxPayload (srv_options S)"
  shows "\<exists>posts. sendChunks_loop N tr sent chunks c =
      ((sent + length (concat chunks), None), c\<lparr>requests := requests c @ posts\<rparr>) \<and>
    serve_all P NS S rnd posts w = w\<lparr>trace := trace w @ map (posted s) (concat chunks)\<rparr>"
  using assms
proof (induction chunks arbitrary: sent c w)
  case Nil
  then show ?case by (intro exI [of _ "[]"]) (simp add: serve_all_def)
next
  case (Cons ps chunks)
  let ?req = "post_of (theap c tr) (EncodePayload ps)"
  let ?c = "c\<lparr>requests := requests c @ [?req]\<rparr>" and ?w = "w\<lparr>trace := trace w @ map (posted s) ps\<rparr>"
  obtain resp where r: "serve P NS S rnd ?req w = (Responded resp, ?w)" "resp_status resp = Some 200"
    using post_served [OF Cons.prems(1,2), of ps P NS rnd] Cons.prems(4) [of ps] by auto
  have "fst (serve P NS S rnd ?req (serve_all P NS S rnd [] w)) = Responded resp" using r by (simp add: serve_all_def)
  then have "http_Do N (requests c @ []) ?req = Inr (to_client resp)" using Cons.prems(3) unfolding connected_to_def by blast
  then have d: "http_Do N (requests c) ?req = Inr (to_client resp)" "StatusCode (to_client resp) = 200"
    using r by (simp_all add: to_client_def)
  have s: "Transport_Send N tr ps c = (Inr (), ?c)"
    using Cons.prems(1) Cons.prems(4) [of ps] d EncodePayload_nonempty [of ps]
    by (auto simp: attached_def Transport_Send_def client_polling_Send_def polling_write_def polling_request_def
        post_of_def Let_def lift_error_def)
  have one: "serve_all P NS S rnd [?req] w = ?w" using r by (simp add: serve_all_def)
  have "connected_to N (requests ?c) P NS S rnd ?w"
    using Cons.prems(3) unfolding connected_to_def
    by (simp add: one [symmetric] serve_all_append [symmetric])
  then obtain posts where "sendChunks_loop N tr (sent + length ps) chunks ?c =
      ((sent + length ps + length (concat chunks), None), ?c\<lparr>requests := requests ?c @ posts\<rparr>)"
    "serve_all P NS S rnd posts ?w = ?w\<lparr>trace := trace ?w @ map (posted s) (concat chunks)\<rparr>"
    using Cons.IH [of ?c ?w "sent + length ps"] Cons.prems(1,2,4) by (auto simp: attached_keeps)
  then show ?case
    using s one serve_all_append [of P NS S rnd "[?req]" posts w]
    by (intro exI [of _ "?req # posts"]) (simp add: add.assoc)
qed

definition idle :: "Socket \<Rightarrow> bool" where
  "idle s \<longleftrightarrow> s_state s = SocketStateOpen \<and> \<not> s_upgrading s \<and> \<not> s_flushing s \<and> s_writeBuffer s = []"

lemma idle_send:
  assumes "idle (sock c)" "s_transport (sock c) = Some tr" "ps \<noteq> []"
    and "sendChunks N tr ps (s_maxPayload (sock c))
      (c\<lparr>sock := (sock c)\<lparr>s_writeBuffer := ps, s_flushing := True\<rparr>\<rparr>) =
        ((length ps, None), c'\<lparr>sock := (sock c)\<lparr>s_writeBuffer := ps, s_flushing := True\<rparr>\<rparr>)"
  shows "Socket_Send N ps c = (None, c'\<lparr>sock := sock c\<rparr>)"
proof -
  have "(sock c)\<lparr>s_writeBuffer := [], s_flushing := False\<rparr> = sock c"
    using assms(1) by (cases "sock c") (simp add: idle_def)
  with assms show ?thesis
    by (simp add: Socket_Send_def client_flush.simps client_flush_iteration_def flush_begin_def flush_end_def idle_def
        upd_s_def Let_def)
qed

lemma requests_sock: "(c::client)\<lparr>requests := rs, sock := s\<rparr> = c\<lparr>sock := s, requests := rs\<rparr>"
  by (cases c) simp

lemma resolveURL_buffer: "resolveURL N (s\<lparr>s_writeBuffer := b, s_flushing := f\<rparr>) ty = resolveURL N s ty"
  by (simp add: resolveURL_def Let_def split: sum.split)


text \<open>A client attached to the session of the server's example run, and the network between them.\<close>

definition wire_world :: world where
  "wire_world = OnMessage 1 True run_open"

definition wire_net :: clientNet where
  "wire_net = unplugged\<lparr>http_Do := (\<lambda>past req.
     (case fst (serve accepting quiet run_server [] req (serve_all accepting quiet run_server [] past wire_world)) of
        Responded resp \<Rightarrow> Inr (to_client resp) | _ \<Rightarrow> Inl EOF))\<rparr>"

definition wire_url :: URL where
  "wire_url = local_url\<lparr>Query := values_Encode [(''EIO'', ''4''), (''transport'', ''polling''), (''sid'', ''s1'')]\<rparr>"

definition wire_client :: client where
  "wire_client = (newClient ((projr (NewSocket (url_Parse unplugged) Transports '''' []))
     \<lparr>s_state := SocketStateOpen, s_transport := Some 0, s_sessionID := ''s1'', s_maxPayload := 1000000\<rparr>))
     \<lparr>theap := (\<lambda>_. (newTransport TransportTypePolling wire_url None)\<lparr>t_state := TransportStateOpen\<rparr>)\<rparr>"

lemma wire_attached: "attached wire_net wire_client 0 run_server 1 wire_world"
proof -
  have "parseQuery [] = []" by code_simp
  then show ?thesis
    by (simp add: Socket_by_id_def attached_def wire_net_def wire_client_def wire_world_def newClient_def NewSocket_def Let_def unplugged_def
      newTransport_def wire_url_def local_url_def resolveURL_def plain_url_def values_Set_def OnMessage_def)
qed


section \<open>WebSocket\<close>

lemma websocket_writeAll_all:
  "(\<And>fs f. wr fs f = None) \<Longrightarrow>
     websocket_writeAll wr ps t = (Inr (), t\<lparr>t_frames := t_frames t @ map websocket_frame ps\<rparr>)"
  by (induction ps arbitrary: t) simp_all

lemma upd_t_upd_t: "upd_t tr f (upd_t tr g c) = upd_t tr (\<lambda>t. f (g t)) c"
  by (simp add: upd_t_def)

text \<open>What a transport that streams writes for packets, when the writes succeed.\<close>

lemma stream_chunks:
  assumes "\<And>ps c. J c \<Longrightarrow> Transport_Send N tr ps c = (Inr (), upd_t tr (\<lambda>t. F t ps) c) \<and> J (upd_t tr (\<lambda>t. F t ps) c)"
    and "\<And>t ps qs. F (F t ps) qs = F t (ps @ qs)" and "J c"
  shows "sendChunks_loop N tr sent (ps # chunks) c =
    ((sent + length (concat (ps # chunks)), None), upd_t tr (\<lambda>t. F t (concat (ps # chunks))) c)"
  using assms(3)
proof (induction chunks arbitrary: sent c ps)
  case Nil
  then show ?case using assms(1) [OF Nil, of ps] by simp
next
  case (Cons qs chunks)
  then show ?case
    using assms(1) [OF Cons.prems, of ps] Cons.IH [of "upd_t tr (\<lambda>t. F t ps) c" "sent + length ps" qs]
    by (simp add: upd_t_upd_t assms(2) add.assoc)
qed

lemma chunkPackets_nonempty: "chunkPackets ps limit \<noteq> []"
proof -
  have "chunk_loop limit chunks current sz ps \<noteq> []" for chunks current sz
    by (induction ps arbitrary: chunks current sz) (simp_all add: Let_def)
  then show ?thesis by (simp add: chunkPackets_def)
qed

lemma stream_send:
  assumes "idle (sock c)" "s_transport (sock c) = Some tr" "ps \<noteq> []"
    and "\<And>ps c. J (theap c tr) \<Longrightarrow> Transport_Send N tr ps (c :: client) = (Inr (), upd_t tr (\<lambda>t. F t ps) c)"
    and "\<And>t ps. J t \<Longrightarrow> J (F t ps)" and "\<And>t ps qs. F (F t ps) qs = F t (ps @ qs)" and "J (theap c tr)"
  shows "Socket_Send N ps c = (None, upd_t tr (\<lambda>t. F t ps) c)"
proof -
  let ?c = "c\<lparr>sock := (sock c)\<lparr>s_writeBuffer := ps, s_flushing := True\<rparr>\<rparr>"
  obtain q qs where q: "chunkPackets ps (s_maxPayload (sock c)) = q # qs"
    using chunkPackets_nonempty [of ps "s_maxPayload (sock c)"] by (cases "chunkPackets ps (s_maxPayload (sock c))") auto
  then have e: "q @ concat qs = ps" using chunkPackets_concat [of ps "s_maxPayload (sock c)"] by simp
  have "sendChunks N tr ps (s_maxPayload (sock c)) ?c = ((length ps, None), upd_t tr (\<lambda>t. F t ps) ?c)"
    using stream_chunks [of "\<lambda>c. J (theap c tr)" N tr F ?c 0 q qs] e arg_cong [OF e, of length] assms(4-7)
    by (simp add: sendChunks_def q upd_t_def)
  moreover have "upd_t tr (\<lambda>t. F t ps) ?c = (upd_t tr (\<lambda>t. F t ps) c)\<lparr>sock := sock ?c\<rparr>"
    by (cases c) (simp add: upd_t_def)
  ultimately have "Socket_Send N ps c = (None, (upd_t tr (\<lambda>t. F t ps) c)\<lparr>sock := sock c\<rparr>)"
    using assms(1-3) by (intro idle_send) simp_all
  then show ?thesis by (cases c) (simp add: upd_t_def)
qed

lemma websocket_reads:
  assumes "heap w tr = WebSocketT t" "\<not> ws_probing t" "onMessageHandler (sockets w (ws_socket t))"
    and "\<And>p. p \<in> set ps \<Longrightarrow> wf_packet p \<and> Type p = PacketMessage"
  shows "websocket_readLoop NS tr (map (\<lambda>p. Inr (websocket_frame p)) ps @ rest) w =
    websocket_readLoop NS tr rest (w\<lparr>trace := trace w @ map (posted (ws_socket t)) ps\<rparr>)"
  using assms
proof (induction ps arbitrary: w)
  case (Cons p ps)
  obtain m f where f: "websocket_frame p = (m, f)" by fastforce
  then have d: "decodeWebSocketFrame m f = Inr p" using Cons.prems(4) [of p] decodeWebSocketFrame_frame [of p] by simp
  have "websocket_readStep NS tr t (Inr (websocket_frame p)) w = (True, w\<lparr>trace := trace w @ [posted (ws_socket t) p]\<rparr>)"
    using Cons.prems d f by (simp add: websocket_readStep_def handlePacket_def deliverMessage_def posted_def)
  then show ?case
    using Cons.prems Cons.IH [of "w\<lparr>trace := trace w @ [posted (ws_socket t) p]\<rparr>"] by simp
qed simp


text \<open>The client of the example on a transport that streams, where every write succeeds.\<close>

definition hi :: Packet where
  "hi = text_packet PacketMessage (bytes_of ''hi'')"

definition streaming_client :: "TransportType \<Rightarrow> connection \<Rightarrow> client" where
  "streaming_client ty conn = wire_client\<lparr>theap :=
     (\<lambda>_. (newTransport ty wire_url None)\<lparr>t_state := TransportStateOpen, t_conn := Some conn\<rparr>)\<rparr>"

definition streaming_net :: clientNet where
  "streaming_net = unplugged\<lparr>wsc_Write := (\<lambda>_ _ _. None), wtc_Write := (\<lambda>_ _ _. None)\<rparr>"

lemma streaming_client_ready:
  "idle (sock (streaming_client ty conn))" "s_transport (sock (streaming_client ty conn)) = Some 0"
  "theap (streaming_client ty conn) 0 =
    (newTransport ty wire_url None)\<lparr>t_state := TransportStateOpen, t_conn := Some conn\<rparr>"
  by (simp_all add: streaming_client_def idle_def wire_client_def newClient_def NewSocket_def unplugged_def Let_def)


section \<open>WebTransport\<close>

lemma webtransport_reads:
  assumes "heap w tr = WebTransportT (t\<lparr>wt_reader := r\<lparr>pending := concat (map (appendWebTransportFrame []) ps) @ rest\<rparr>\<rparr>)"
    and "\<not> wt_probing t" "onMessageHandler (sockets w (wt_socket t))"
    and "\<And>p. p \<in> set ps \<Longrightarrow>
      frame_fits (webTransportServerReadLimit (maxPayload (options (sockets w (wt_socket t))))) p \<and> Type p = PacketMessage"
  shows "webtransport_readLoop NS tr w =
    webtransport_readLoop NS tr ((upd_heap tr (WebTransportT (t\<lparr>wt_reader := r\<lparr>pending := rest\<rparr>\<rparr>)) w)
      \<lparr>trace := trace w @ map (posted (wt_socket t)) ps\<rparr>)"
  using assms
proof (induction ps arbitrary: w)
  case Nil
  then have "upd_heap tr (WebTransportT (t\<lparr>wt_reader := r\<lparr>pending := rest\<rparr>\<rparr>)) w = w"
    by (simp add: upd_heap_def fun_upd_idem)
  then show ?case by simp
next
  case (Cons p ps)
  let ?rest = "concat (map (appendWebTransportFrame []) ps) @ rest"
  let ?w = "(upd_heap tr (WebTransportT (t\<lparr>wt_reader := r\<lparr>pending := ?rest\<rparr>\<rparr>)) w)
    \<lparr>trace := trace w @ [posted (wt_socket t) p]\<rparr>"
  have "webtransport_readStep NS tr (t\<lparr>wt_reader := r\<lparr>pending := appendWebTransportFrame [] p @ ?rest\<rparr>\<rparr>) w = (True, ?w)"
    using Cons.prems(2,3) Cons.prems(4) [of p] readWebTransportPacket_frame [of _ p ?rest r]
    by (simp add: webtransport_readStep_def Let_def handlePacket_def deliverMessage_def posted_def)
  then have "webtransport_readLoop NS tr w = webtransport_readLoop NS tr ?w"
    using Cons.prems(1) by (subst webtransport_readLoop.simps) simp
  also have "\<dots> = webtransport_readLoop NS tr ((upd_heap tr (WebTransportT (t\<lparr>wt_reader := r\<lparr>pending := rest\<rparr>\<rparr>)) ?w)
      \<lparr>trace := trace ?w @ map (posted (wt_socket t)) ps\<rparr>)"
    by (rule Cons.IH) (use Cons.prems in simp_all)
  finally show ?case by (simp add: upd_heap_def)
qed


definition stream_world :: world where
  "stream_world = upd_heap 7 (WebTransportT (newServerWebTransportTransport 1
     \<lparr>pending = framesBuffer [] [hi], final = EOF\<rparr> False)) (OnMessage 1 True run_open)"


section \<open>From the server to the client\<close>

text \<open>What the client's handlers are called with for a message.\<close>

definition received :: "Socket \<Rightarrow> Packet \<Rightarrow> clientEvent list" where
  "received s p =
     (if s_onMessage s then [EvMessage (Data p) (IsBinary p)] else []) @ (if s_onPacket s then [EvPacket p] else [])"

lemma onPacket_message:
  assumes "s_state (sock c) \<noteq> SocketStateClosed" "Type p = PacketMessage"
  shows "\<exists>t. Socket_onPacket N p c =
    c\<lparr>sock := (sock c)\<lparr>s_pingTimeoutTimer := t\<rparr>, events := events c @ received (sock c) p\<rparr>"
  using assms by (cases c) (auto simp: Socket_onPacket_def reschedulePingTimeout_def upd_s_def emit_def received_def Let_def)

lemma dispatch_packet: "dispatch N reopen (CbPacket OfSocket p) tr c = Socket_onPacket N p c"
  by (simp add: dispatch_def)

lemma dispatch_messages:
  assumes "s_state (sock c) \<noteq> SocketStateClosed" "t_onPacket (theap c tr) = Some OfSocket"
    and "\<And>p. p \<in> set ps \<Longrightarrow> Type p = PacketMessage"
  shows "\<exists>t. polling_dispatch (dispatch N reopen) tr ps c =
    c\<lparr>sock := (sock c)\<lparr>s_pingTimeoutTimer := t\<rparr>, events := events c @ concat (map (received (sock c)) ps)\<rparr>"
  using assms
proof (induction ps arbitrary: c)
  case Nil
  show ?case by (rule exI [of _ "s_pingTimeoutTimer (sock c)"]) simp
next
  case (Cons p ps)
  obtain t where t: "Socket_onPacket N p c =
      c\<lparr>sock := (sock c)\<lparr>s_pingTimeoutTimer := t\<rparr>, events := events c @ received (sock c) p\<rparr>" (is "_ = ?c")
    using onPacket_message [of c p N] Cons.prems(1) Cons.prems(3) [of p] by auto
  have r: "received (sock ?c) = received (sock c)" by (simp add: received_def fun_eq_iff)
  obtain t' where "polling_dispatch (dispatch N reopen) tr ps ?c =
      ?c\<lparr>sock := (sock ?c)\<lparr>s_pingTimeoutTimer := t'\<rparr>, events := events ?c @ concat (map (received (sock c)) ps)\<rparr>"
    using Cons.IH [of ?c] Cons.prems(1,2) Cons.prems(3) [OF list.set_intros(2)] unfolding r by auto
  then show ?case
    using Cons.prems(1,2) Cons.prems(3) [of p] t by (intro exI [of _ t']) (simp add: transport_onPacket_def notify_def dispatch_packet)
qed

lemma polling_request_theap: "theap (snd (polling_request N tr data c)) = theap c"
  by (auto simp: polling_request_def Let_def split: prod.splits sum.splits)

lemma poll_receives:
  assumes "tr \<in> set (polls c)" "t_state (theap c tr) = TransportStateOpen" "t_onPacket (theap c tr) = Some OfSocket"
    and "s_state (sock c) \<noteq> SocketStateClosed"
    and "fst (polling_request N tr [] (c\<lparr>polls := remove1 tr (polls c)\<rparr>)) =
      Inr \<lparr>StatusCode = 200, res_Body = \<lparr>pending = EncodePayload ps, final = EOF\<rparr>\<rparr>"
    and "ps \<noteq> []" "\<And>p. p \<in> set ps \<Longrightarrow> payload_safe p \<and> Type p = PacketMessage"
  shows "events (runPoll N tr c) = events c @ concat (map (received (sock c)) ps) \<and> tr \<in> set (polls (runPoll N tr c))"
proof -
  let ?c = "c\<lparr>polls := remove1 tr (polls c)\<rparr>"
  obtain c1 where r: "polling_request N tr [] ?c =
      (Inr \<lparr>StatusCode = 200, res_Body = \<lparr>pending = EncodePayload ps, final = EOF\<rparr>\<rparr>, c1)"
    using assms(5) by (cases "polling_request N tr [] ?c") auto
  have "links.more c1 = links.more c" "theap c1 = theap c"
    using polling_request_more [of N tr "[]" ?c] polling_request_theap [of N tr "[]" ?c] r by simp_all
  then have c1: "theap c1 = theap c" "sock c1 = sock c" "events c1 = events c"
    by (cases c; cases c1; simp)+
  have dec: "DecodePayload 4 (EncodePayload ps) = Inr ps"
    using assms(6,7) decodeRecordSeparatorPayload_EncodePayload [of ps] by (simp add: DecodePayload_def)
  obtain t where "polling_dispatch (handlers N c) tr ps c1 =
    c1\<lparr>sock := (sock c)\<lparr>s_pingTimeoutTimer := t\<rparr>, events := events c @ concat (map (received (sock c)) ps)\<rparr>"
    using dispatch_messages [of c1 tr ps N] assms c1 unfolding handlers_def by auto
  then have "runPoll N tr c = c1\<lparr>sock := (sock c)\<lparr>s_pingTimeoutTimer := t\<rparr>,
      events := events c @ concat (map (received (sock c)) ps), polls := polls c1 @ [tr]\<rparr>"
    using assms r dec c1 EncodePayload_nonempty [of ps]
    by (simp add: runPoll_def polling_poll_def polling_onData_def readAll_def Let_def handlers_def)
  then show ?thesis by simp
qed


definition polling_client :: client where
  "polling_client = wire_client\<lparr>polls := [0], sock := (sock wire_client)\<lparr>s_onMessage := True\<rparr>,
     theap := (\<lambda>_. (newTransport TransportTypePolling wire_url None)
       \<lparr>t_state := TransportStateOpen, t_onPacket := Some OfSocket\<rparr>)\<rparr>"

definition answering_net :: clientNet where
  "answering_net = unplugged\<lparr>http_Do := (\<lambda>_ _.
     Inr \<lparr>StatusCode = 200, res_Body = \<lparr>pending = EncodePayload [hi], final = EOF\<rparr>\<rparr>)\<rparr>"

lemma polling_client_ready:
  "polls polling_client = [0]" "t_state (theap polling_client 0) = TransportStateOpen"
  "t_onPacket (theap polling_client 0) = Some OfSocket" "s_state (sock polling_client) = SocketStateOpen"
  "s_onMessage (sock polling_client)" "\<not> s_onPacket (sock polling_client)" "events polling_client = []"
  by (simp_all add: polling_client_def wire_client_def newClient_def NewSocket_def unplugged_def Let_def)

lemma answering_net_polls:
  "fst (polling_request answering_net 0 [] (polling_client\<lparr>polls := []\<rparr>)) =
     Inr \<lparr>StatusCode = 200, res_Body = \<lparr>pending = EncodePayload [hi], final = EOF\<rparr>\<rparr>"
proof -
  have "fst (yeast_next defaultYeast 0) = Inr ''0.0''" by code_simp
  then show ?thesis
    by (cases "yeast_next defaultYeast 0") (auto simp: polling_request_def answering_net_def unplugged_def
      polling_client_def wire_client_def newClient_def Let_def lift_error_def)
qed


section \<open>The handshake\<close>

lemma flush_empty: "s_writeBuffer (sock c) = [] \<Longrightarrow> client_flush N c = (None, c)"
  by (simp add: client_flush.simps client_flush_iteration_def flush_begin_def)

text \<open>What a client knows after the open packet.\<close>

definition knows :: "Socket \<Rightarrow> OpenPacket \<Rightarrow> bool" where
  "knows s d \<longleftrightarrow>
     s_state s = SocketStateOpen \<and> s_sessionID s = SessionID d \<and> s_maxPayload s = MaxPayload d \<and>
     s_pingInterval s = wrap64 (PingInterval d * Millisecond) \<and> s_pingTimeout s = wrap64 (PingTimeout d * Millisecond)"

lemma opening_packet:
  assumes "s_state (sock c) = SocketStateOpening" "s_transport (sock c) = Some tr" "s_writeBuffer (sock c) = []"
    and "Type p = PacketOpen" "json_Unmarshal_OpenPacket (Data p) = Inr d"
    and "url_Parse N (url_String (s_url (sock c))) = Inr u"
  shows "knows (sock (Socket_onPacket N p c)) d \<and> halted (Socket_onPacket N p c) = halted c \<and>
    s_transport (sock (Socket_onPacket N p c)) = Some tr \<and>
    t_state (theap (Socket_onPacket N p c) tr) = t_state (theap c tr) \<and> polls (Socket_onPacket N p c) = polls c \<and>
    requests (Socket_onPacket N p c) = requests c"
proof -
  let ?c1 = "reschedulePingTimeout c"
  define c2 where "c2 = reschedulePingTimeout (upd_s (recordOpen (\<lambda>tr. t_type (theap ?c1 tr)) d) ?c1)"
  have c2: "knows (sock c2) d" "s_transport (sock c2) = Some tr" "s_writeBuffer (sock c2) = []"
    "s_url (sock c2) = s_url (sock c)" "theap c2 = theap c" "polls c2 = polls c" "halted c2 = halted c"
    "requests c2 = requests c"
    using assms(1-3) by (simp_all add: c2_def reschedulePingTimeout_def upd_s_def recordOpen_def knows_def Let_def)
  obtain target where t: "resolveURL N (sock c2) (t_type (theap c2 tr)) = Inr target"
    using assms(6) c2(4) by (auto simp: resolveURL_def Let_def)
  let ?c3 = "emit s_onOpen EvOpen (SetURL target tr c2)"
  obtain l where o: "Socket_opened N d ?c1 = ?c3\<lparr>spawned := l\<rparr>"
  proof -
    have "s_transport (sock (upd_s (recordOpen (\<lambda>tr. t_type (theap ?c1 tr)) d) ?c1)) = Some tr"
      using assms(2) by (simp add: upd_s_def recordOpen_def reschedulePingTimeout_def Let_def)
    moreover have "s_writeBuffer (sock (SetURL target tr c2)) = []" using c2(3) by (simp add: SetURL_def upd_t_def)
    ultimately have "\<exists>l. Socket_opened N d ?c1 = ?c3\<lparr>spawned := l\<rparr>"
      using t by (auto simp: Socket_opened_def Let_def c2_def [symmetric] flush_empty reported_def
          intro: exI [of _ "spawned ?c3"])
    then show ?thesis using that by blast
  qed
  have "s_state (sock c) \<noteq> SocketStateClosed" using assms(1) by simp
  then have "Socket_onPacket N p c = emit s_onPacket (EvPacket p) (?c3\<lparr>spawned := l\<rparr>)"
    using assms(4,5) o by (simp add: Socket_onPacket_def Let_def)
  then show ?thesis using c2 by (simp add: emit_def SetURL_def upd_t_def)
qed

text \<open>A closed client that will open with long polling, and the value its first poll is stamped with.\<close>

definition startable :: "clientNet \<Rightarrow> client \<Rightarrow> URL \<Rightarrow> string \<Rightarrow> bool" where
  "startable N c target v \<longleftrightarrow>
     s_state (sock c) = SocketStateClosed \<and> s_sessionID (sock c) = '''' \<and>
     Socket_selectTransport (sock c) = Some TransportTypePolling \<and>
     s_constructors (sock c) TransportTypePolling = Some NewPollingTransport \<and>
     resolveURL N (sock c) TransportTypePolling = Inr target \<and> plain_url target \<and>
     map_of (parseQuery (Query (s_url (sock c)))) ''sid'' = None \<and>
     (\<exists>u. url_Parse N (url_String target @ ''&t='' @ QueryEscape v) = Inr u) \<and>
     fst (yeast_next (yeast c) (time_Now N (readings c))) = Inr v"

lemma startable_query:
  assumes "startable N c target v"
  shows "values_Get (parseQuery (raw_query (url_String target @ ''&t='' @ QueryEscape v))) ''sid'' = ''''"
proof -
  obtain vs where v: "Query target = values_Encode vs" and g: "map_of vs ''EIO'' = Some ''4''" "map_of vs ''sid'' = None"
    using assms by (auto simp: startable_def resolveURL_def Let_def map_of_values_Set split: sum.splits if_splits)
  let ?vs = "sort_key fst vs"
  have "vs \<noteq> []" using g(1) by auto
  then have ne: "?vs \<noteq> []" by (metis length_0_conv length_sort)
  then have "Query target \<noteq> ''''"
    by (cases ?vs) (auto simp: v values_Encode_def encodeQuery_def join_on_concat encodePair_def)
  then have "parseQuery (raw_query (url_String target @ ''&t='' @ QueryEscape v)) = ?vs @ [(''t'', v)]"
    using ne raw_query_url [of target] assms
    by (simp add: v values_Encode_def parseQuery_stamp [simplified] startable_def)
  then show ?thesis using g(2) by (simp add: values_Get_def map_of_sort_key map_add_def)
qed

text \<open>The state in which the first poll is made.\<close>

definition polling_start :: "ctx \<Rightarrow> URL \<Rightarrow> client \<Rightarrow> client" where
  "polling_start context target c =
     upd_t (nextT c) (\<lambda>t. t\<lparr>t_state := TransportStateOpening\<rparr>)
       (bind (newTransport TransportTypePolling target (s_header (sock c))) (the (Socket_beginOpen context c)))"

lemma Open_starts:
  assumes "startable N c target v"
  shows "Open N context c =
    polling_poll N (dispatch N (Socket_Open N (length (s_transports (sock c))))) (nextT c) (polling_start context target c)"
proof -
  obtain c1 where b: "Socket_beginOpen context c = Some c1" and n: "nextT c1 = nextT c"
    and e: "s_header (sock c1) = s_header (sock c)" "s_transports (sock c1) = s_transports (sock c)"
      "s_rememberUpgrade (sock c1) = s_rememberUpgrade (sock c)" "s_priorUpgrade (sock c1) = s_priorUpgrade (sock c)"
      "s_constructors (sock c1) = s_constructors (sock c)" "s_url (sock c1) = s_url (sock c)"
      "s_sessionID (sock c1) = s_sessionID (sock c)"
    using assms by (auto simp: startable_def Socket_beginOpen_def Let_def upd_s_def cancel_def split: option.splits)
  have "createTransport N (sock c1) = Inr (newTransport TransportTypePolling target (s_header (sock c)))"
  proof -
    have "Socket_selectTransport (sock c1) = Socket_selectTransport (sock c)" by (auto simp: Socket_selectTransport_def e split: list.split)
    moreover have "resolveURL N (sock c1) ty = resolveURL N (sock c) ty" for ty
      by (simp add: resolveURL_def e Let_def split: sum.split)
    ultimately show ?thesis
      using assms e by (simp add: startable_def createTransport_def constructorFor_def NewPollingTransport_def)
  qed
  moreover have "Transport_Open N inv (nextT c1) (bind (newTransport TransportTypePolling target h) c1) =
      polling_poll N inv (nextT c1) (upd_t (nextT c1) (\<lambda>t. t\<lparr>t_state := TransportStateOpening\<rparr>)
        (bind (newTransport TransportTypePolling target h) c1))" for inv h
    by (simp add: Transport_Open_def client_polling_Open_def bind_def newTransport_def upd_t_def upd_s_def Let_def
        transport_OnClose_def transport_OnError_def transport_OnPacket_def)
  ultimately show ?thesis using b n by (simp add: Open_def polling_start_def)
qed

lemma polling_start_simps:
  assumes "startable N c target v"
  shows "t_state (theap (polling_start x target c) (nextT c)) = TransportStateOpening"
    "t_url (theap (polling_start x target c) (nextT c)) = target"
    "t_onPacket (theap (polling_start x target c) (nextT c)) = Some OfSocket"
    "t_onOpen (theap (polling_start x target c) (nextT c)) = None"
    "s_state (sock (polling_start x target c)) = SocketStateOpening"
    "s_transport (sock (polling_start x target c)) = Some (nextT c)"
    "s_writeBuffer (sock (polling_start x target c)) = []" "s_url (sock (polling_start x target c)) = s_url (sock c)"
    "requests (polling_start x target c) = requests c" "polls (polling_start x target c) = polls c"
    "halted (polling_start x target c) = halted c"
    "yeast (polling_start x target c) = yeast c" "readings (polling_start x target c) = readings c"
  using assms
  by (simp_all add: polling_start_def startable_def Socket_beginOpen_def Let_def bind_def newTransport_def upd_t_def
      upd_s_def cancel_def transport_OnClose_def transport_OnError_def transport_OnPacket_def split: option.split)

text \<open>The poll that carries the handshake.\<close>

lemma opening_poll:
  assumes "t_state (theap c tr) = TransportStateOpening" "t_onPacket (theap c tr) = Some OfSocket" "t_onOpen (theap c tr) = None"
    and "s_state (sock c) = SocketStateOpening" "s_transport (sock c) = Some tr" "s_writeBuffer (sock c) = []"
    and "polling_request N tr [] c = (Inr res, c1)" "StatusCode res = 200" "res_Body res = \<lparr>pending = body, final = EOF\<rparr>"
    and "DecodePayload 4 body = Inr [p]" "Type p = PacketOpen" "json_Unmarshal_OpenPacket (Data p) = Inr d"
    and "url_Parse N (url_String (s_url (sock c))) = Inr u" "body \<noteq> []"
  shows "knows (sock (polling_poll N (dispatch N reopen) tr c)) d \<and>
    polls (polling_poll N (dispatch N reopen) tr c) = polls c1 @ [tr] \<and>
    halted (polling_poll N (dispatch N reopen) tr c) = halted c1 \<and>
    s_transport (sock (polling_poll N (dispatch N reopen) tr c)) = Some tr \<and>
    requests (polling_poll N (dispatch N reopen) tr c) = requests c1"
proof -
  have "links.more c1 = links.more c" "theap c1 = theap c"
    using polling_request_more [of N tr "[]" c] polling_request_theap [of N tr "[]" c] assms(7) by simp_all
  then have c1: "theap c1 = theap c" "sock c1 = sock c"
    by (cases c; cases c1; simp)+
  define c2 where "c2 = upd_t tr (\<lambda>t. t\<lparr>t_state := TransportStateOpen\<rparr>) c1"
  have o: "transport_onOpen (dispatch N reopen) tr c1 = c2"
    using assms(3) c1 by (simp add: transport_onOpen_def c2_def notify_def upd_t_def Let_def)
  have c2: "sock c2 = sock c" "t_onPacket (theap c2 tr) = Some OfSocket" "t_state (theap c2 tr) = TransportStateOpen"
    "polls c2 = polls c1" "halted c2 = halted c1" "requests c2 = requests c1"
    using assms(2) c1 by (simp_all add: c2_def upd_t_def)
  have k: "knows (sock (Socket_onPacket N p c2)) d \<and> halted (Socket_onPacket N p c2) = halted c1 \<and>
      s_transport (sock (Socket_onPacket N p c2)) = Some tr \<and>
      t_state (theap (Socket_onPacket N p c2) tr) = TransportStateOpen \<and> polls (Socket_onPacket N p c2) = polls c1 \<and>
      requests (Socket_onPacket N p c2) = requests c1"
    using opening_packet [of c2 tr p d N u] assms(4-6,11-13) c2 by simp
  have "polling_dispatch (dispatch N reopen) tr [p] c1 = Socket_onPacket N p c2"
    using assms(1,11) c1 o c2 by (simp add: transport_onPacket_def notify_def dispatch_packet Let_def)
  then have "polling_poll N (dispatch N reopen) tr c =
      (Socket_onPacket N p c2)\<lparr>polls := polls (Socket_onPacket N p c2) @ [tr]\<rparr>"
    using assms k by (simp add: polling_poll_def readAll_def polling_onData_def Let_def)
  with k show ?thesis by simp
qed

text \<open>
  C12: a client and a server complete the handshake. A closed client that opens with long polling,
  connected to a server that admits it, makes one request; the server answers it with a new, open
  session, whose identifier is the one the client then has; the client is open, knows the negotiated
  maximum payload and heartbeat, and has a poll waiting on the same transport.
\<close>

theorem client_connects:
  assumes "startable N c target v" and "connected_to N (requests c) P NS S rnd w"
    and "\<And>r. admitted (srv_options S) r" "allowsTransport (srv_options S) TransportTypePolling" "config_fits (srv_options S)"
    and "\<And>r. valid_utf8 (bytes_of (generateID (srv_options S) r rnd))"
  shows "\<exists>req s sid. requests (Open N context c) = requests c @ [req] \<and>
    knows (sock (Open N context c)) (handshake_data (srv_options S) sid True) \<and>
    s_transport (sock (Open N context c)) = Some (nextT c) \<and>
    polls (Open N context c) = polls c @ [nextT c] \<and> halted (Open N context c) = halted c \<and>
    Socket_by_id sid (serve_all P NS S rnd [req] w) = Some s \<and>
    state (sockets (serve_all P NS S rnd [req] w) s) = sessionOpen"
proof -
  let ?c = "polling_start context target c" and ?tr = "nextT c"
  note st = polling_start_simps [OF assms(1), of "context"]
  let ?req = "\<lparr>req_method = ''GET'', req_url = url_String target @ ''&t='' @ QueryEscape v,
    req_header = t_header (theap ?c ?tr), req_body = []\<rparr>"
  let ?sid = "generateID (srv_options S) (to_server ?req) rnd"
  have q: "values_Get (parseQuery (RawQuery (to_server ?req))) ''EIO'' = ''4''"
    "values_Get (parseQuery (RawQuery (to_server ?req))) ''transport'' = TransportTypePolling"
    "values_Get (parseQuery (RawQuery (to_server ?req))) ''sid'' = []"
    using parse_resolved [of N "sock c" TransportTypePolling target "Some v"] startable_query [OF assms(1)] assms(1)
    by (simp_all add: startable_def to_server_def stamped_def)
  obtain resp w' p s where h: "serve P NS S rnd ?req w = (Responded resp, w')" "resp_status resp = Some 200"
      "DecodePayload 4 (resp_body resp) = Inr [p]" "Type p = PacketOpen"
      "json_Unmarshal_OpenPacket (Data p) = Inr (handshake_data (srv_options S) ?sid True)"
      "Socket_by_id ?sid w' = Some s" "state (sockets w' s) = sessionOpen"
    using handshake_opens [OF _ assms(3) q assms(4,5) refl assms(6), of P NS w] by (auto simp: serve_def to_server_def)
  have "fst (serve P NS S rnd ?req (serve_all P NS S rnd [] w)) = Responded resp" using h(1) by (simp add: serve_all_def)
  then have "http_Do N (requests c @ []) ?req = Inr (to_client resp)" using assms(2) unfolding connected_to_def by blast
  then have d: "http_Do N (requests c) ?req = Inr (to_client resp)" "StatusCode (to_client resp) = 200"
    "res_Body (to_client resp) = \<lparr>pending = resp_body resp, final = EOF\<rparr>"
    using h(2) by (simp_all add: to_client_def)
  obtain g where y: "yeast_next (yeast c) (time_Now N (readings c)) = (Inr v, g)"
    using assms(1) by (cases "yeast_next (yeast c) (time_Now N (readings c))") (simp add: startable_def)
  have r: "polling_request N ?tr [] ?c =
      (Inr (to_client resp), ?c\<lparr>yeast := g, readings := Suc (readings c), requests := requests c @ [?req]\<rparr>)"
    using assms(1) st d(1) y by (auto simp: polling_request_def startable_def lift_error_def Let_def)
  have ne: "resp_body resp \<noteq> []"
    using h(3) by (auto simp: DecodePayload_def decodeRecordSeparatorPayload_def decodeSegment_def DecodePacket_def split: if_splits)
  obtain u where u: "url_Parse N (url_String (s_url (sock ?c))) = Inr u"
    using assms(1) st by (auto simp: startable_def resolveURL_def split: sum.splits)
  have "serve_all P NS S rnd [?req] w = w'" using h(1) by (simp add: serve_all_def)
  then show ?thesis
    using opening_poll [OF st(1,3,4,5,6,7) r d(2,3) h(3,4,5) u ne, of "Socket_Open N (length (s_transports (sock c)))"]
      Open_starts [OF assms(1), of "context"] st h(6,7)
    by (intro exI [of _ ?req] exI [of _ s] exI [of _ ?sid]) simp
qed

definition first_net :: clientNet where
  "first_net = unplugged\<lparr>http_Do := (\<lambda>past req.
     (case fst (serve accepting quiet run_server [] req (serve_all accepting quiet run_server [] past (emptyWorld run_config))) of
        Responded resp \<Rightarrow> Inr (to_client resp) | _ \<Rightarrow> Inl EOF))\<rparr>"

definition first_client :: client where
  "first_client = newClient (projr (NewSocket (url_Parse unplugged) Transports '''' []))"

definition first_url :: URL where
  "first_url = local_url\<lparr>Query := values_Encode [(''EIO'', ''4''), (''transport'', ''polling'')]\<rparr>"

lemma first_client_startable: "startable first_net first_client first_url ''0.0''"
proof -
  have "parseQuery [] = []" "fst (yeast_next defaultYeast 0) = Inr ''0.0''" by code_simp+
  then show ?thesis
    by (simp add: startable_def first_net_def first_client_def first_url_def newClient_def NewSocket_def unplugged_def
        local_url_def resolveURL_def plain_url_def values_Set_def Socket_selectTransport_def defaultSocketConfig_def
        Transports_def Let_def)
qed

theorem client_connects_witness:
  "s_state (sock (Open first_net 0 first_client)) = SocketStateOpen \<and>
   s_maxPayload (sock (Open first_net 0 first_client)) = 1000000 \<and> polls (Open first_net 0 first_client) = [0]"
proof -
  have c: "connected_to first_net (requests first_client) accepting quiet run_server [] (emptyWorld run_config)"
    by (simp add: connected_to_def first_net_def first_client_def newClient_def)
  have "valid_utf8 (bytes_of ''s1'')"
    by (rule conjunct1 [OF valid_utf8_ascii]) (auto simp: bytes_of_def)
  moreover have "nextT first_client = 0" "polls first_client = []" by (simp_all add: first_client_def newClient_def)
  ultimately show ?thesis
    using client_connects [OF first_client_startable c, of 0] run_config_fits
    by (auto simp: knows_def handshake_data_def admitted_def)
qed

end
