(* ===== verification/Applications.thy ===== *)
theory Applications
  imports ServerLifecycle ServerRequests ClientSocket
begin

text \<open>
  The programs under \<^verbatim>\<open>examples/\<close>, as far as they use the package: the options they give, the handlers
  they register, and what these do when they are called. Printing, the HTTP server the package is mounted
  on and the waiting for an interrupt are left out.
\<close>

section \<open>Configurations\<close>

text \<open>\<^verbatim>\<open>strings.CutPrefix\<close>: what follows the prefix, and whether it was there.\<close>

definition CutPrefix :: "string \<Rightarrow> string \<Rightarrow> string \<times> bool" where
  "CutPrefix s p = (if HasPrefix s p then (drop (length p) s, True) else (s, False))"

definition require_token :: "Request \<Rightarrow> error option" where
  "require_token r =
     (case CutPrefix (header_Get (ReqHeader r) ''Authorization'') ''Bearer '' of
        (token, ok) \<Rightarrow> if \<not> ok \<or> token = '''' then Some (NewError ''missing or invalid token'') else None)"

definition allow_request_server :: Server where
  "allow_request_server = OnConnection True (OnConnectionError True (NewServer [WithAllowRequest require_token]))"

definition users :: "string \<Rightarrow> string" where
  "users token =
     (if token = ''token-alice'' then ''alice'' else if token = ''token-bob'' then ''bob'' else '''')"

text \<open>\<open>random\<close> are the 18 bytes \<^verbatim>\<open>rand.Read\<close> fills in.\<close>

definition user_of :: "Request \<Rightarrow> string" where
  "user_of r =
     (let user = users (fst (CutPrefix (header_Get (ReqHeader r) ''Authorization'') ''Bearer ''))
      in if user = '''' then ''anon'' else user)"

definition user_session_id :: "Request \<Rightarrow> bytes \<Rightarrow> string" where
  "user_session_id r random = user_of r @ ''-'' @ string_of (rawURLEncodeToString random)"

definition auth_session_id_server :: Server where
  "auth_session_id_server = OnConnection True (NewServer [WithGenerateID user_session_id])"

definition sticky_sessions_server :: Server where
  "sticky_sessions_server = OnConnection True (NewServer [WithCookie
     \<lparr>co_Name = ''io'', co_Path = ''/'', co_HTTPOnly = True, co_Secure = False, co_SameSite = SameSiteLaxMode,
      co_MaxAge = 0\<rparr>])"

definition cors_server :: Server where
  "cors_server = OnConnection True (NewServer [WithCORS
     \<lparr>AllowCredentials = True, AllowedOrigins = [''http://localhost:5173''],
      AllowedHeaders = [''Content-Type'', ''Authorization'']\<rparr>])"

definition heartbeat_tuning_server :: Server where
  "heartbeat_tuning_server =
     OnConnection True (NewServer [WithPingInterval (10 * Second), WithPingTimeout (5 * Second)])"

text \<open>The WebTransport server is given with its HTTP/3 server set.\<close>

definition webtransport_server :: "Server result" where
  "webtransport_server =
     map_sum id (\<lambda>opt. OnConnection True (NewServer [WithServerTransports [TransportTypeWebTransport], opt]))
       (WithWebTransportServer (Some True))"

definition server_example :: Server where
  "server_example = OnConnection True (NewServer [])"

definition example_url :: string where
  "example_url = ''http://localhost:3000/engine.io/''"

type_synonym parser = "string \<Rightarrow> error + URL"

definition client_example :: "parser \<Rightarrow> error + Socket" where
  "client_example parse =
     NewSocket parse Transports example_url
       [WithHeader (Some ((\<lambda>_. [])(''Authorization'' := [''Bearer token'']))), WithUpgrade True,
        WithRememberUpgrade True, WithTransports [TransportTypePolling, TransportTypeWebSocket]]"

definition client_events :: "parser \<Rightarrow> error + Socket" where
  "client_events parse =
     NewSocket parse Transports example_url
       [WithUpgrade True, WithTransports [TransportTypePolling, TransportTypeWebSocket]]"

definition polling_only_client :: "parser \<Rightarrow> error + Socket" where
  "polling_only_client parse =
     NewSocket parse Transports example_url [WithTransports [TransportTypePolling], WithUpgrade False]"

definition websocket_only_client :: "parser \<Rightarrow> error + Socket" where
  "websocket_only_client parse =
     NewSocket parse Transports example_url [WithTransports [TransportTypeWebSocket], WithUpgrade False]"

definition webtransport_client :: "parser \<Rightarrow> string \<Rightarrow> error + Socket" where
  "webtransport_client parse url =
     NewSocket parse Transports url [WithTransports [TransportTypeWebTransport], WithWebTransportDialer True]"

section \<open>Handlers\<close>

text \<open>
  The connection handler of the echo servers, and their message handler. A message handler is called by
  the packet that carries the message, as the last thing handling it does, so \<open>receive_with\<close> runs it right
  after.
\<close>

definition echo_connected :: "sref \<Rightarrow> world \<Rightarrow> world" where
  "echo_connected s w = OnClose s True (OnMessage s True w)"

definition echo :: "network \<Rightarrow> sref \<Rightarrow> bytes \<Rightarrow> bool \<Rightarrow> world \<Rightarrow> world" where
  "echo N s data isBinary w = snd (Send N s data isBinary w)"

definition broadcast :: "network \<Rightarrow> bytes \<Rightarrow> bool \<Rightarrow> world \<Rightarrow> world" where
  "broadcast N data isBinary w = fold (\<lambda>s w. snd (Send N s data isBinary w)) (Sockets w) w"

definition relay :: "network \<Rightarrow> sref \<Rightarrow> bytes \<Rightarrow> bool \<Rightarrow> world \<Rightarrow> world" where
  "relay N s data isBinary w = broadcast N data isBinary w"

definition receive_with ::
  "(sref \<Rightarrow> bytes \<Rightarrow> bool \<Rightarrow> world \<Rightarrow> world) \<Rightarrow> sref \<Rightarrow> Packet \<Rightarrow> world \<Rightarrow> world" where
  "receive_with handler s p w =
     (let w' = handlePacket s p w
      in if Type p = PacketMessage \<and> onMessageHandler (sockets w s) then handler s (Data p) (IsBinary p) w' else w')"

text \<open>The handlers of the clients: which they register, and what the open and message handlers send.\<close>

definition client_handlers :: "client \<Rightarrow> client" where
  "client_handlers c = Socket_OnError True (Socket_OnClose True (Socket_OnOpen True (Socket_OnMessage True c)))"

definition client_events_handlers :: "client \<Rightarrow> client" where
  "client_events_handlers c =
     Socket_OnClose True (Socket_OnError True (Socket_OnUpgradeError True (Socket_OnUpgrade True
       (Socket_OnPacket True (Socket_OnMessage True (Socket_OnOpen True c))))))"

definition greet :: "string \<Rightarrow> clientNet \<Rightarrow> client \<Rightarrow> client" where
  "greet text N c = snd (Socket_Send N [text_packet PacketMessage (bytes_of text)] c)"

definition client_opens :: "clientNet \<Rightarrow> client \<Rightarrow> client" where
  "client_opens = greet ''Hello''"

definition client_events_opens :: "clientNet \<Rightarrow> client \<Rightarrow> client" where
  "client_events_opens = greet ''hello''"

definition polling_only_opens :: "clientNet \<Rightarrow> client \<Rightarrow> client" where
  "polling_only_opens = greet ''hello over polling''"

definition websocket_only_opens :: "clientNet \<Rightarrow> client \<Rightarrow> client" where
  "websocket_only_opens = greet ''hello over websocket''"

definition webtransport_client_opens :: "clientNet \<Rightarrow> client \<Rightarrow> client" where
  "webtransport_client_opens = greet ''hello over webtransport''"

definition client_echoes :: "clientNet \<Rightarrow> bytes \<Rightarrow> bool \<Rightarrow> client \<Rightarrow> client" where
  "client_echoes N data isBinary c =
     snd (Socket_Send N [\<lparr>Type = PacketMessage, Data = data, IsBinary = isBinary\<rparr>] c)"

definition binary_client_opens :: "clientNet \<Rightarrow> client \<Rightarrow> client" where
  "binary_client_opens N c = snd (Socket_Send N [binary_packet PacketMessage [0x00, 0x01, 0x02, 0xff, 0xfe]] c)"

section \<open>What the configurations admit\<close>

lemma require_token_admits:
  "require_token r = None \<longleftrightarrow>
     (\<exists>token. token \<noteq> [] \<and> header_Get (ReqHeader r) ''Authorization'' = ''Bearer '' @ token)"
proof -
  have "HasPrefix h p \<longleftrightarrow> (\<exists>t. h = p @ t)" for h p :: string
    unfolding HasPrefix_def by (metis append_eq_conv_conj append_take_drop_id)
  then show ?thesis by (auto simp: require_token_def CutPrefix_def split: if_splits)
qed

lemma cors_server_grants: "allowOrigin cors_server origin = (if origin = ''http://localhost:5173'' then origin else [])"
  by (simp add: allowOrigin_def cors_server_def OnConnection_def NewServer_def WithCORS_def allowsAllOrigins_def)

lemma webtransport_server_admits:
  "\<exists>S. webtransport_server = Inr S \<and> (\<forall>t. allowsTransport (srv_options S) t \<longleftrightarrow> t = TransportTypeWebTransport)"
  by (simp add: webtransport_server_def WithWebTransportServer_def WithServerTransports_def NewServer_def
      OnConnection_def allowsTransport_def)

lemma single_transport_clients:
  "websocket_only_client parse = Inr s \<Longrightarrow> createTransport N s = Inr t \<Longrightarrow> t_type t = TransportTypeWebSocket"
  "polling_only_client parse = Inr s \<Longrightarrow> createTransport N s = Inr t \<Longrightarrow> t_type t = TransportTypePolling"
  by (auto simp: websocket_only_client_def polling_only_client_def NewSocket_def createTransport_def
      Socket_selectTransport_def constructorFor_def Transports_def NewWebSocketTransport_def
      NewPollingTransport_def newTransport_def WithTransports_def WithUpgrade_def defaultSocketConfig_def Let_def
      split: sum.splits option.splits if_splits)

section \<open>Identifiers\<close>

lemma user_of_cases: "user_of r = ''alice'' \<or> user_of r = ''bob'' \<or> user_of r = ''anon''"
  by (simp add: user_of_def users_def Let_def)

text \<open>
  The identifier names the user and is otherwise as unpredictable as the random bytes: two sessions have
  the same identifier only if they belong to the same user and drew the same bytes.
\<close>

lemma user_session_id_unique:
  assumes "length b = 18" "length b' = 18"
  shows "user_session_id r b = user_session_id r' b' \<longleftrightarrow> user_of r = user_of r' \<and> b = b'"
proof -
  have len: "length (string_of (rawURLEncodeToString b)) = length (string_of (rawURLEncodeToString b'))"
    using assms by (simp add: rawURLEncodeToString_def string_of_def b64_encode_length_raw)
  show ?thesis
    using rawURLEncodeToString_inj [of b b'] string_of_inj assms append_eq_append_conv [OF disjI2 [OF len], of "user_of r @ ''-''" "user_of r' @ ''-''"]
    by (auto simp: user_session_id_def)
qed

section \<open>Shutting down\<close>

lemma Sockets_distinct: "store_ok w \<Longrightarrow> distinct (Sockets w)"
proof -
  assume ok: "store_ok w"
  have "inj_on snd (set (sessions w))"
  proof (rule inj_onI)
    fix x y
    assume xy: "x \<in> set (sessions w)" "y \<in> set (sessions w)" "snd x = snd y"
    have "fst z = socket_id (sockets w (snd z))" if "z \<in> set (sessions w)" for z
      using ok that by (cases z) (simp add: store_ok_def wf_store_def store_get_def map_of_eq_Some_iff)
    then have "fst x = socket_id (sockets w (snd x))" "fst y = socket_id (sockets w (snd y))"
      using xy by blast+
    with xy(3) show "x = y" by (simp add: prod_eq_iff)
  qed
  then show ?thesis
    using ok by (simp add: Sockets_def store_all_def distinct_map store_ok_def wf_store_def)
qed

lemma Sockets_stored: "store_ok w \<Longrightarrow> s \<in> set (Sockets w) \<longleftrightarrow> (\<exists>sid. store_get (sessions w) sid = Some s)"
  by (simp add: Sockets_def store.all_get store_ok_def)

lemma close_all:
  assumes "distinct ss" "\<And>s. s \<in> set ss \<Longrightarrow> state (sockets w s) \<noteq> sessionClosed"
  shows "let w' = fold (\<lambda>s. closeWithReason s reason None) ss w in
      sockets w' = (\<lambda>s. if s \<in> set ss then torn_down (sockets w s) else sockets w s) \<and>
      trace w' = trace w @ map (\<lambda>s. Closed s reason None) (filter (\<lambda>s. onCloseHandler (sockets w s)) ss) \<and>
      (\<forall>sid. store_get (sessions w') sid =
        (if sid \<in> (\<lambda>s. socket_id (sockets w s)) ` set ss then None else store_get (sessions w) sid))"
  using assms
proof (induction ss arbitrary: w)
  case (Cons s ss)
  have live: "state (sockets w s) \<noteq> sessionClosed" using Cons.prems by simp
  let ?w = "closeWithReason s reason None w"
  have w: "sockets ?w = (sockets w)(s := torn_down (sockets w s))"
    "trace ?w = trace w @ (if onCloseHandler (sockets w s) then [Closed s reason None] else [])"
    "sessions ?w = store_delete (socket_id (sockets w s)) (sessions w)"
    by (simp_all add: closeWithReason_live [OF live] Let_def)
  have ss: "distinct ss" "s \<notin> set ss" "\<And>s'. s' \<in> set ss \<Longrightarrow> state (sockets ?w s') \<noteq> sessionClosed"
    using Cons.prems w(1) by auto
  have "filter (\<lambda>s'. onCloseHandler (sockets ?w s')) ss = filter (\<lambda>s'. onCloseHandler (sockets w s')) ss"
    using ss(2) by (intro filter_cong) (auto simp: w)
  moreover have "(\<lambda>s'. socket_id (sockets ?w s')) ` set ss = (\<lambda>s'. socket_id (sockets w s')) ` set ss"
    using ss(2) by (intro image_cong) (auto simp: w)
  ultimately show ?case
    using Cons.IH [OF ss(1,3)] ss(2) by (auto simp: Let_def w store.get_del fun_eq_iff)
qed simp

text \<open>
  C18: Shutting a server down leaves nothing behind: in every state it can reach, closing the server
  closes every session it knows, calls the close handler of each that has one exactly once with the
  reason "forced close", and leaves no session a request could name; sessions it does not know are
  not touched.
\<close>

theorem shutdown_closes_sessions:
  assumes "server_reachable P N cfg w" "maxPayload cfg \<le> int maxAlloc"
  shows "(\<forall>s. s \<in> set (Sockets w) \<longrightarrow> state (sockets (Server_Close w) s) = sessionClosed) \<and>
    trace (Server_Close w) =
      trace w @ map (\<lambda>s. Closed s ''forced close'' None) (filter (\<lambda>s. onCloseHandler (sockets w s)) (Sockets w)) \<and>
    distinct (Sockets w) \<and> Sockets (Server_Close w) = [] \<and>
    (\<forall>s. s \<notin> set (Sockets w) \<longrightarrow> sockets (Server_Close w) s = sockets w s)"
proof -
  have ok: "store_ok w" "store_ok (Server_Close w)"
    using storing.whole.reachable [OF assms]
      storing.whole.reachable [OF server_reachable.step [OF assms(1) server_step.shutdown] assms(2)] by blast+
  have stored: "socket_id (sockets w s) = sid \<and> state (sockets w s) \<noteq> sessionClosed \<and> s \<in> set (Sockets w)"
    if "store_get (sessions w) sid = Some s" for sid s
    using ok(1) that Sockets_stored [OF ok(1)] by (auto simp: store_ok_def)
  then have live: "state (sockets w s) \<noteq> sessionClosed" if "s \<in> set (Sockets w)" for s
    using that Sockets_stored [OF ok(1)] by blast
  have closed: "sockets (Server_Close w) = (\<lambda>s. if s \<in> set (Sockets w) then torn_down (sockets w s) else sockets w s)"
    "trace (Server_Close w) =
      trace w @ map (\<lambda>s. Closed s ''forced close'' None) (filter (\<lambda>s. onCloseHandler (sockets w s)) (Sockets w))"
    "\<And>sid. store_get (sessions (Server_Close w)) sid =
      (if sid \<in> (\<lambda>s. socket_id (sockets w s)) ` set (Sockets w) then None else store_get (sessions w) sid)"
    using close_all [OF Sockets_distinct [OF ok(1)] live]
    by (simp_all add: Server_Close_def Sockets_def [symmetric] Let_def)
  have "store_get (sessions (Server_Close w)) sid = None" for sid
    using stored [of sid] by (cases "store_get (sessions w) sid") (auto simp: closed(3))
  then have "Sockets (Server_Close w) = []"
    using Sockets_stored [OF ok(2)] by (cases "Sockets (Server_Close w)") auto
  then show ?thesis
    using closed(1,2) Sockets_distinct [OF ok(1)] by (simp add: torn_down_def)
qed

theorem shutdown_closes_sessions_witness:
  "Sockets run_upgraded = [1] \<and> Sockets (Server_Close run_upgraded) = [] \<and>
   state (sockets (Server_Close run_upgraded) 1) = sessionClosed"
proof -
  have "Sockets run_upgraded = [1]" by (simp add: Sockets_def store_all_def run_upgraded_eq run_open_eq)
  then show ?thesis using shutdown_closes_sessions [OF reach_upgraded run_fits] by simp
qed

section \<open>Sending to many\<close>

text \<open>The channel of the poll a session is waiting with, if its transport is long polling.\<close>

definition held_poll :: "world \<Rightarrow> sref \<Rightarrow> chan option" where
  "held_poll w s =
     (case transport (sockets w s) of
        Some tr \<Rightarrow> (case heap w tr of PollingT pt \<Rightarrow> if pt_closed pt then None else dataCh pt | _ \<Rightarrow> None)
      | None \<Rightarrow> None)"

lemma held_poll_cong:
  "transport (sockets w' s) = transport (sockets w s) \<Longrightarrow> heap w' = heap w \<Longrightarrow> held_poll w' s = held_poll w s"
  by (simp add: held_poll_def split: option.split)

text \<open>A session that accepts messages and has long polling as its transport.\<close>

definition polls_messages :: "world \<Rightarrow> sref \<Rightarrow> bool" where
  "polls_messages w s \<longleftrightarrow> state (sockets w s) \<in> {sessionOpening, sessionOpen} \<and>
     (\<exists>tr pt. transport (sockets w s) = Some tr \<and> heap w tr = PollingT pt)"

text \<open>What a message does to the buffer of a session, and what its poll is answered with.\<close>

definition queued :: "Packet \<Rightarrow> world \<Rightarrow> sref \<Rightarrow> Packet list" where
  "queued m w s = (case held_poll w s of None \<Rightarrow> writeBuffer (sockets w s) @ [m] | Some _ \<Rightarrow> [])"

definition answered :: "Packet \<Rightarrow> world \<Rightarrow> sref \<Rightarrow> deliveries" where
  "answered m w s =
     (case held_poll w s of
        None \<Rightarrow> []
      | Some ch \<Rightarrow> [(ch, EncodePayload (writeBuffer (sockets w s) @ [m]))])"

lemma send_buffered:
  assumes "polls_messages w s" "held_poll w s = None"
  shows "snd (Send N s data isBinary w) = upd_socket s (\<lambda>sk. sk\<lparr>writeBuffer := writeBuffer sk @
    [\<lparr>Type = PacketMessage, Data = data, IsBinary = isBinary\<rparr>]\<rparr>) w"
proof -
  obtain tr pt where tr: "transport (sockets w s) = Some tr" "heap w tr = PollingT pt"
    and st: "state (sockets w s) \<in> {sessionOpening, sessionOpen}"
    using assms(1) by (auto simp: polls_messages_def)
  have "pt_closed pt \<or> dataCh pt = None" using tr assms(2) by (auto simp: held_poll_def split: if_splits)
  moreover have "(heap w)(tr := PollingT pt) = heap w" using tr(2) by auto
  ultimately show ?thesis
    using st tr
    by (auto simp: Send_def flush_once flush_snapshot_def transport_send_def polling_send_def Let_def
        upd_heap_def upd_socket_def)
qed

lemma send_polling:
  assumes "polls_messages w s" "m = \<lparr>Type = PacketMessage, Data = data, IsBinary = isBinary\<rparr>"
  obtains t where "snd (Send N s data isBinary w) =
    (upd_heap (the (transport (sockets w s))) (PollingT t)
      (upd_socket s (\<lambda>sk. sk\<lparr>writeBuffer := queued m w s\<rparr>) w))\<lparr>deliveries := deliveries w @ answered m w s\<rparr>"
proof -
  obtain tr pt where tr: "transport (sockets w s) = Some tr" "heap w tr = PollingT pt"
    and st: "state (sockets w s) \<in> {sessionOpening, sessionOpen}"
    using assms(1) by (auto simp: polls_messages_def)
  show thesis
  proof (cases "held_poll w s")
    case None
    have "(heap w)(tr := PollingT pt) = heap w" using tr(2) by auto
    then have "snd (Send N s data isBinary w) =
      (upd_heap tr (PollingT pt) (upd_socket s (\<lambda>sk. sk\<lparr>writeBuffer := queued m w s\<rparr>) w))
        \<lparr>deliveries := deliveries w @ answered m w s\<rparr>"
      using send_buffered [OF assms(1) None] None assms(2)
      by (simp add: queued_def answered_def upd_heap_def upd_socket_def)
    with that tr show thesis by simp
  next
    case (Some ch)
    then have "\<not> pt_closed pt" "dataCh pt = Some ch" using tr by (auto simp: held_poll_def split: if_splits)
    then have "snd (Send N s data isBinary w) =
      (upd_heap tr (PollingT (pt\<lparr>dataCh := None\<rparr>)) (upd_socket s (\<lambda>sk. sk\<lparr>writeBuffer := queued m w s\<rparr>) w))
        \<lparr>deliveries := deliveries w @ answered m w s\<rparr>"
      using st tr Some assms(2)
      by (auto simp: Send_def flush_once flush_snapshot_def transport_send_def polling_send_def Let_def queued_def
          answered_def upd_heap_def upd_socket_def getPollBuffer_def EncodePayload_def)
    with that tr show thesis by simp
  qed
qed

text \<open>Sending to one session leaves the others as they are, since no two share a transport.\<close>

lemma send_to_all:
  assumes "distinct ss" "\<And>s. s \<in> set ss \<Longrightarrow> polls_messages w s" "refs_inv cfg w"
    and m: "m = \<lparr>Type = PacketMessage, Data = data, IsBinary = isBinary\<rparr>"
  shows "let w' = fold (\<lambda>s w. snd (Send N s data isBinary w)) ss w in
    (\<forall>s. sockets w' s = (if s \<in> set ss then (sockets w s)\<lparr>writeBuffer := queued m w s\<rparr> else sockets w s)) \<and>
    deliveries w' = deliveries w @ concat (map (answered m w) ss)"
  using assms(1-3)
proof (induction ss arbitrary: w)
  case (Cons s ss)
  obtain t where w: "snd (Send N s data isBinary w) =
    (upd_heap (the (transport (sockets w s))) (PollingT t)
      (upd_socket s (\<lambda>sk. sk\<lparr>writeBuffer := queued m w s\<rparr>) w))\<lparr>deliveries := deliveries w @ answered m w s\<rparr>"
    using send_polling [OF Cons.prems(2) m, of s] by auto
  let ?w = "snd (Send N s data isBinary w)"
  have other: "held_poll ?w s' = held_poll w s'" "polls_messages ?w s'" "sockets ?w s' = sockets w s'"
    if s': "s' \<in> set ss" for s'
  proof -
    have ne: "s' \<noteq> s" using s' Cons.prems(1) by auto
    obtain tr tr' where tr: "transport (sockets w s) = Some tr" "transport (sockets w s') = Some tr'"
      and live: "state (sockets w s) \<noteq> sessionClosed" "state (sockets w s') \<noteq> sessionClosed"
      using Cons.prems(2) [of s] Cons.prems(2) [of s'] s' by (auto simp: polls_messages_def)
    have "tr \<noteq> tr'" using ne tr live Cons.prems(3) by (auto simp: refs_inv_def owns_def)
    with ne tr Cons.prems(2) [of s'] s' show "held_poll ?w s' = held_poll w s'" "polls_messages ?w s'"
      "sockets ?w s' = sockets w s'" by (auto simp: w held_poll_def polls_messages_def)
  qed
  have "refs_inv cfg ?w" using refs.Send [OF Cons.prems(3)] .
  then have IH: "let w' = fold (\<lambda>s w. snd (Send N s data isBinary w)) ss ?w in
    (\<forall>s. sockets w' s = (if s \<in> set ss then (sockets ?w s)\<lparr>writeBuffer := queued m ?w s\<rparr> else sockets ?w s)) \<and>
    deliveries w' = deliveries ?w @ concat (map (answered m ?w) ss)"
    using Cons.prems(1) other(2) by (intro Cons.IH) auto
  have "queued m ?w s' = queued m w s'" "answered m ?w s' = answered m w s'" if "s' \<in> set ss" for s'
    using other(1,3) [OF that] by (simp_all add: queued_def answered_def split: option.split)
  moreover have "deliveries ?w = deliveries w @ answered m w s"
    "sockets ?w s = (sockets w s)\<lparr>writeBuffer := queued m w s\<rparr>" "\<And>s'. s' \<noteq> s \<Longrightarrow> sockets ?w s' = sockets w s'"
    by (simp_all add: w)
  moreover have "s \<notin> set ss" using Cons.prems(1) by simp
  ultimately show ?case using IH other(3) by (auto simp: Let_def cong: map_cong)
qed simp

text \<open>
  C19: A broadcast reaches everyone once: in every state a server can reach in which the sessions it
  knows accept messages over long polling, the message is appended to the buffer of each session that
  has no poll waiting, and each waiting poll is answered once with what its session had buffered and
  the message; no other session is touched.
\<close>

theorem broadcast_reaches_all:
  assumes "server_reachable P N cfg w" "maxPayload cfg \<le> int maxAlloc"
    and "\<And>s. s \<in> set (Sockets w) \<Longrightarrow> polls_messages w s"
    and "m = \<lparr>Type = PacketMessage, Data = data, IsBinary = isBinary\<rparr>"
  shows "(\<forall>s. sockets (broadcast N data isBinary w) s =
      (if s \<in> set (Sockets w) then (sockets w s)\<lparr>writeBuffer := queued m w s\<rparr> else sockets w s)) \<and>
    deliveries (broadcast N data isBinary w) = deliveries w @ concat (map (answered m w) (Sockets w)) \<and>
    distinct (Sockets w)"
proof -
  have i: "refs_inv cfg w" "store_ok w" using storing.whole.reachable [OF assms(1,2)] by blast+
  show ?thesis
    using send_to_all [OF Sockets_distinct [OF i(2)] assms(3) i(1) assms(4)] Sockets_distinct [OF i(2)]
    by (simp add: broadcast_def Let_def)
qed

theorem broadcast_reaches_all_witness:
  "deliveries (broadcast quiet (bytes_of ''hi'') False run_held) = [(2, bytes_of ''4hi'')]"
proof -
  let ?m = "\<lparr>Type = PacketMessage, Data = bytes_of ''hi'', IsBinary = False\<rparr>"
  have s: "Sockets run_held = [1]" by (simp add: Sockets_def store_all_def run_held_eq run_open_eq)
  have p: "polls_messages run_held 1" "answered ?m run_held 1 = [(2, EncodePayload [?m])]"
    by (simp_all add: polls_messages_def answered_def held_poll_def run_held_eq)
  have "EncodePayload [?m] = bytes_of ''4hi''" by code_simp
  moreover have "deliveries run_held = []" by (simp add: run_held_eq)
  ultimately show ?thesis
    using broadcast_reaches_all [OF reach_held run_fits, of ?m "bytes_of ''hi''" False] s p by simp
qed

section \<open>Sending back\<close>

lemma echo_messages:
  assumes "polls_messages w s" "held_poll w s = None" "onMessageHandler (sockets w s)"
    and "\<And>p. p \<in> set ps \<Longrightarrow> Type p = PacketMessage"
  shows "fold (receive_with (echo N) s) ps w =
    (upd_socket s (\<lambda>sk. sk\<lparr>writeBuffer := writeBuffer sk @ ps\<rparr>) w)\<lparr>trace := trace w @ map (posted s) ps\<rparr>"
  using assms
proof (induction ps arbitrary: w)
  case Nil
  show ?case by (cases w) (simp add: upd_socket_def)
next
  case (Cons p ps)
  let ?w = "w\<lparr>trace := trace w @ [posted s p]\<rparr>"
  let ?v = "upd_socket s (\<lambda>sk. sk\<lparr>writeBuffer := writeBuffer sk @ [p]\<rparr>) ?w"
  have "polls_messages ?w s" "held_poll ?w s = None"
    using Cons.prems held_poll_cong [of ?w s w] by (simp_all add: polls_messages_def)
  moreover obtain d b where "p = \<lparr>Type = PacketMessage, Data = d, IsBinary = b\<rparr>"
    using Cons.prems(4) [of p] by (cases p) auto
  ultimately have "receive_with (echo N) s p w = ?v"
    using Cons.prems send_buffered [of ?w s N "Data p" "IsBinary p"]
    by (simp add: receive_with_def echo_def handlePacket_def deliverMessage_def posted_def)
  moreover have "fold (receive_with (echo N) s) ps ?v =
    (upd_socket s (\<lambda>sk. sk\<lparr>writeBuffer := writeBuffer sk @ ps\<rparr>) ?v)\<lparr>trace := trace ?v @ map (posted s) ps\<rparr>"
    by (rule Cons.IH) (use Cons.prems held_poll_cong [of ?v s w] in \<open>auto simp: polls_messages_def\<close>)
  ultimately show ?case by (simp add: upd_socket_def)
qed



end
